theory Spec2Isabelle
  imports Complex_Main "HOL-Library.Monad_Syntax"
begin

section \<open>Numeric support: scalars, vectors, matrices\<close>

text \<open>
  The file \<^verbatim>\<open>objects.cpp\<close> includes \<^verbatim>\<open>objects.h\<close>, which supplies the
  types \<^verbatim>\<open>Vec3\<close>, \<^verbatim>\<open>Vec4\<close>, \<^verbatim>\<open>Mat4\<close>, \<^verbatim>\<open>ValVector\<close> and
  \<^verbatim>\<open>Fragment\<close>. Those declarations are not part of the source at hand, so this
  section models them from the specification (sections 1, 2, 3 and 6).

  A \<^verbatim>\<open>double\<close> is a finite value, one of the two infinities, or NaN. Infinities
  and NaN propagate through sums, products and quotients as IEEE 754 prescribes, and a
  sum, product or quotient of finite values overflows to an infinity when its exact value
  is too large for a \<^verbatim>\<open>double\<close>: from \<open>2^1024 - 2^970\<close> on, the exact values that
  round to an infinity. The rounding of results that stay finite and the sign of zero are
  not modelled.
\<close>

datatype val = Fin real | PInf | NInf | NaN

text \<open>Modelled from the spec: the result of an operation on finite \<^verbatim>\<open>double\<close> values
  whose exact value is \<open>r\<close>.\<close>

definition overflow_bound :: real where
  "overflow_bound = 2 ^ 1024 - 2 ^ 970"

definition overflowV :: "real \<Rightarrow> val" where
  "overflowV r =
     (if overflow_bound \<le> r then PInf else if r \<le> - overflow_bound then NInf else Fin r)"

text \<open>Modelled from the spec: the per-component finiteness test on a \<^verbatim>\<open>double\<close>.\<close>

fun isfiniteV :: "val \<Rightarrow> bool" where
  "isfiniteV (Fin _) = True"
| "isfiniteV _ = False"

text \<open>Modelled from the spec: addition of two \<^verbatim>\<open>double\<close> values.\<close>

fun addV :: "val \<Rightarrow> val \<Rightarrow> val" where
  "addV (Fin a) (Fin b) = overflowV (a + b)"
| "addV NaN _ = NaN"
| "addV _ NaN = NaN"
| "addV PInf NInf = NaN"
| "addV NInf PInf = NaN"
| "addV PInf _ = PInf"
| "addV _ PInf = PInf"
| "addV NInf _ = NInf"
| "addV _ NInf = NInf"

text \<open>Modelled from the spec: multiplication of two \<^verbatim>\<open>double\<close> values.\<close>

fun mulV :: "val \<Rightarrow> val \<Rightarrow> val" where
  "mulV (Fin a) (Fin b) = overflowV (a * b)"
| "mulV NaN _ = NaN"
| "mulV _ NaN = NaN"
| "mulV (Fin a) PInf = (if a = 0 then NaN else if 0 < a then PInf else NInf)"
| "mulV (Fin a) NInf = (if a = 0 then NaN else if 0 < a then NInf else PInf)"
| "mulV PInf (Fin b) = (if b = 0 then NaN else if 0 < b then PInf else NInf)"
| "mulV NInf (Fin b) = (if b = 0 then NaN else if 0 < b then NInf else PInf)"
| "mulV PInf PInf = PInf"
| "mulV PInf NInf = NInf"
| "mulV NInf PInf = NInf"
| "mulV NInf NInf = PInf"

text \<open>Modelled from the spec: division of two \<^verbatim>\<open>double\<close> values (a zero divisor
  counts as positive zero).\<close>

fun divV :: "val \<Rightarrow> val \<Rightarrow> val" where
  "divV (Fin a) (Fin b) =
     (if b = 0 then (if a = 0 then NaN else if 0 < a then PInf else NInf)
      else overflowV (a / b))"
| "divV NaN _ = NaN"
| "divV _ NaN = NaN"
| "divV (Fin a) PInf = Fin 0"
| "divV (Fin a) NInf = Fin 0"
| "divV PInf (Fin b) = (if 0 \<le> b then PInf else NInf)"
| "divV NInf (Fin b) = (if 0 \<le> b then NInf else PInf)"
| "divV PInf PInf = NaN"
| "divV PInf NInf = NaN"
| "divV NInf PInf = NaN"
| "divV NInf NInf = NaN"

text \<open>Modelled from the spec: \<^verbatim>\<open>Vec3\<close>, a 3-component coordinate, with its
  component-wise sum and its per-component finiteness test.\<close>

datatype vec3 = Vec3 val val val

fun add3 :: "vec3 \<Rightarrow> vec3 \<Rightarrow> vec3" where
  "add3 (Vec3 a b c) (Vec3 a' b' c') = Vec3 (addV a a') (addV b b') (addV c c')"

fun isfinite3 :: "vec3 \<Rightarrow> bool" where
  "isfinite3 (Vec3 a b c) = (isfiniteV a \<and> isfiniteV b \<and> isfiniteV c)"

text \<open>Modelled from the spec: \<^verbatim>\<open>Vec4\<close>, the 4-component homogeneous vector, with
  indexed read \<^verbatim>\<open>v(i)\<close>, indexed write \<^verbatim>\<open>v(i) = x\<close>, component-wise sum and
  per-component finiteness test. The source only ever uses the indices 0 to 3.\<close>

datatype vec4 = Vec4 val val val val

fun get4 :: "vec4 \<Rightarrow> nat \<Rightarrow> val" where
  "get4 (Vec4 a b c d) i = (if i = 0 then a else if i = 1 then b else if i = 2 then c else d)"

fun set4 :: "vec4 \<Rightarrow> nat \<Rightarrow> val \<Rightarrow> vec4" where
  "set4 (Vec4 a b c d) i x =
     (if i = 0 then Vec4 x b c d else if i = 1 then Vec4 a x c d
      else if i = 2 then Vec4 a b x d else Vec4 a b c x)"

fun add4 :: "vec4 \<Rightarrow> vec4 \<Rightarrow> vec4" where
  "add4 (Vec4 a b c d) (Vec4 a' b' c' d') =
     Vec4 (addV a a') (addV b b') (addV c c') (addV d d')"

fun isfinite4 :: "vec4 \<Rightarrow> bool" where
  "isfinite4 (Vec4 a b c d) = (isfiniteV a \<and> isfiniteV b \<and> isfiniteV c \<and> isfiniteV d)"

text \<open>Modelled from the spec: \<^verbatim>\<open>Mat4\<close>, the 4x4 transform, given by its four rows,
  with matrix-by-vector and matrix-by-matrix product.\<close>

datatype mat4 = Mat4 vec4 vec4 vec4 vec4

fun dot4 :: "vec4 \<Rightarrow> vec4 \<Rightarrow> val" where
  "dot4 (Vec4 a b c d) (Vec4 x y z w) =
     addV (addV (addV (mulV a x) (mulV b y)) (mulV c z)) (mulV d w)"

fun mulMV :: "mat4 \<Rightarrow> vec4 \<Rightarrow> vec4" where
  "mulMV (Mat4 r0 r1 r2 r3) v = Vec4 (dot4 r0 v) (dot4 r1 v) (dot4 r2 v) (dot4 r3 v)"

fun col4 :: "mat4 \<Rightarrow> nat \<Rightarrow> vec4" where
  "col4 (Mat4 r0 r1 r2 r3) j = Vec4 (get4 r0 j) (get4 r1 j) (get4 r2 j) (get4 r3 j)"

fun rowM :: "vec4 \<Rightarrow> mat4 \<Rightarrow> vec4" where
  "rowM r m = Vec4 (dot4 r (col4 m 0)) (dot4 r (col4 m 1)) (dot4 r (col4 m 2)) (dot4 r (col4 m 3))"

fun mulMM :: "mat4 \<Rightarrow> mat4 \<Rightarrow> mat4" where
  "mulMM (Mat4 r0 r1 r2 r3) m = Mat4 (rowM r0 m) (rowM r1 m) (rowM r2 m) (rowM r3 m)"

definition identityM4 :: mat4 where
  "identityM4 =
     Mat4 (Vec4 (Fin 1) (Fin 0) (Fin 0) (Fin 0)) (Vec4 (Fin 0) (Fin 1) (Fin 0) (Fin 0))
          (Vec4 (Fin 0) (Fin 0) (Fin 1) (Fin 0)) (Vec4 (Fin 0) (Fin 0) (Fin 0) (Fin 1))"

text \<open>Modelled from the spec: \<^verbatim>\<open>vec4to3\<close>, which turns a homogeneous 4-vector into
  the 3-component coordinate by dividing through its fourth component.\<close>

fun vec4to3 :: "vec4 \<Rightarrow> vec3" where
  "vec4to3 (Vec4 a b c d) =
     (let inv = divV (Fin 1) d in Vec3 (mulV a inv) (mulV b inv) (mulV c inv))"

section \<open>Scene objects and fragments\<close>

text \<open>Style objects (\<^verbatim>\<open>SurfaceProp\<close>, \<^verbatim>\<open>LineProp\<close>) and the path descriptor are
  opaque: a handle stands for the address, \<open>None\<close> for the null pointer.\<close>

type_synonym propref = nat

datatype direction = X_DIRN | Y_DIRN | Z_DIRN

text \<open>The class hierarchy below \<^verbatim>\<open>Object\<close>, with the members each
  \<^verbatim>\<open>getFragments\<close> reads:
  \<^item> \<open>Triangle\<close>: \<^verbatim>\<open>points[0..2]\<close>, \<^verbatim>\<open>surfaceprop\<close>;
  \<^item> \<open>PolyLine\<close>: \<^verbatim>\<open>points\<close>, \<^verbatim>\<open>lineprop\<close>;
  \<^item> \<open>Mesh\<close>: \<^verbatim>\<open>pos1\<close>, \<^verbatim>\<open>pos2\<close>, \<^verbatim>\<open>heights\<close>, \<^verbatim>\<open>dirn\<close>, \<^verbatim>\<open>lineprop\<close>,
    \<^verbatim>\<open>surfaceprop\<close>;
  \<^item> \<open>Points\<close>: \<^verbatim>\<open>x\<close>, \<^verbatim>\<open>y\<close>, \<^verbatim>\<open>z\<close>, \<^verbatim>\<open>sizes\<close>, \<^verbatim>\<open>path\<close>, \<^verbatim>\<open>scaleedges\<close>,
    \<^verbatim>\<open>lineedge\<close>, \<^verbatim>\<open>surfacefill\<close>;
  \<^item> \<open>ObjectContainer\<close>: \<^verbatim>\<open>objM\<close>, \<^verbatim>\<open>objects\<close>.
  Containers are assumed to hold fewer than \<open>2^32\<close> elements, so that the
  \<^verbatim>\<open>unsigned\<close> loop counters of the source count them without wrapping.\<close>

datatype object =
    Object
  | Triangle vec4 vec4 vec4 "propref option"
  | PolyLine "vec4 list" "propref option"
  | Mesh "val list" "val list" "val list" direction "propref option" "propref option"
  | Points "val list" "val list" "val list" "val list" propref bool
      "propref option" "propref option"
  | ObjectContainer mat4 "object list"

datatype fragment_type = FR_NONE | FR_TRIANGLE | FR_LINESEG | FR_PATH

text \<open>What \<^verbatim>\<open>Points::getFragments\<close> stores in its member \<^verbatim>\<open>fragparams\<close> before it
  hands out a pointer to it.\<close>

record fragment_parameters =
  path :: propref
  scaleedges :: bool

text \<open>Modelled from the spec: the \<^verbatim>\<open>Fragment\<close> record. The array \<^verbatim>\<open>points[3]\<close> is
  given as three fields; \<open>object\<close> is the object \<^verbatim>\<open>this\<close> points to; \<open>index\<close>
  is the sequence index, a non-negative integer.\<close>

record fragment =
  ftype :: fragment_type
  points0 :: vec3
  points1 :: vec3
  points2 :: vec3
  object :: "object option"
  params :: "fragment_parameters option"
  surfaceprop :: "propref option"
  lineprop :: "propref option"
  pathsize :: val
  index :: nat

text \<open>Modelled from the spec: a default-constructed \<^verbatim>\<open>Fragment\<close>. The specification
  fixes the sequence index 0; the other fields are taken as empty (no kind, null pointers,
  zeroed points and path size). The statements below refer to these fields only through
  the constant \<open>Fragment\<close>.\<close>

definition Fragment :: fragment where
  "Fragment =
     \<lparr>ftype = FR_NONE, points0 = Vec3 (Fin 0) (Fin 0) (Fin 0),
      points1 = Vec3 (Fin 0) (Fin 0) (Fin 0), points2 = Vec3 (Fin 0) (Fin 0) (Fin 0),
      object = None, params = None, surfaceprop = None, lineprop = None,
      pathsize = Fin 0, index = 0\<rparr>"

text \<open>Modelled from the spec: \<^verbatim>\<open>Fragment::bumpIndex\<close> increments the sequence index.\<close>

definition bumpIndex :: "fragment \<Rightarrow> fragment" where
  "bumpIndex f = f\<lparr>index := index f + 1\<rparr>"

section \<open>Triangle and PolyLine\<close>

text \<open>\<^verbatim>\<open>Triangle::getFragments\<close>.\<close>

definition Triangle_getFragments ::
  "mat4 \<Rightarrow> vec4 \<Rightarrow> vec4 \<Rightarrow> vec4 \<Rightarrow> propref option \<Rightarrow> fragment list \<Rightarrow> fragment list" where
  "Triangle_getFragments outerM p0 p1 p2 sp v =
     (let f = Fragment;
          f = f\<lparr>ftype := FR_TRIANGLE\<rparr>;
          f = f\<lparr>surfaceprop := sp\<rparr>;
          f = f\<lparr>lineprop := None\<rparr>;
          f = f\<lparr>points0 := vec4to3 (mulMV outerM p0)\<rparr>;
          f = f\<lparr>points1 := vec4to3 (mulMV outerM p1)\<rparr>;
          f = f\<lparr>points2 := vec4to3 (mulMV outerM p2)\<rparr>;
          f = f\<lparr>object := Some (Triangle p0 p1 p2 sp)\<rparr>
      in v @ [f])"

text \<open>The loop of \<^verbatim>\<open>PolyLine::getFragments\<close>; the state is the working fragment
  \<open>f\<close> and the output vector \<open>v\<close>.\<close>

function PolyLine_loop ::
  "mat4 \<Rightarrow> vec4 list \<Rightarrow> nat \<Rightarrow> fragment \<Rightarrow> fragment list \<Rightarrow> fragment list" where
  "PolyLine_loop outerM points i f v =
     (if i < length points
      then (let f = f\<lparr>points1 := points0 f\<rparr>;
                f = f\<lparr>points0 := vec4to3 (mulMV outerM (points ! i))\<rparr>
            in if 0 < i \<and> isfinite3 (add3 (points0 f) (points1 f))
               then PolyLine_loop outerM points (i + 1) (bumpIndex f) (v @ [f])
               else PolyLine_loop outerM points (i + 1) f v)
      else v)"
  by pat_completeness auto
termination
  by (relation "measure (\<lambda>(outerM, points, i, f, v). length points - i)") auto

declare PolyLine_loop.simps [simp del]

definition PolyLine_getFragments ::
  "mat4 \<Rightarrow> vec4 list \<Rightarrow> propref option \<Rightarrow> fragment list \<Rightarrow> fragment list" where
  "PolyLine_getFragments outerM points lp v =
     (let f = Fragment;
          f = f\<lparr>ftype := FR_LINESEG\<rparr>;
          f = f\<lparr>surfaceprop := None\<rparr>;
          f = f\<lparr>lineprop := lp\<rparr>;
          f = f\<lparr>object := Some (PolyLine points lp)\<rparr>
      in PolyLine_loop outerM points 0 f v)"

section \<open>Mesh\<close>

text \<open>\<^verbatim>\<open>Mesh::getVecIdxs\<close>: the result is the triple \<open>(vidx_h, vidx_1, vidx_2)\<close> of the
  three reference parameters. The \<^verbatim>\<open>default\<close> label shares the \<^verbatim>\<open>X_DIRN\<close> case.\<close>

fun getVecIdxs :: "direction \<Rightarrow> nat \<times> nat \<times> nat" where
  "getVecIdxs X_DIRN = (0, 1, 2)"
| "getVecIdxs Y_DIRN = (1, 2, 0)"
| "getVecIdxs Z_DIRN = (2, 0, 1)"

text \<open>An element read \<^verbatim>\<open>heights[k]\<close> of a \<^verbatim>\<open>ValVector\<close>. The read is unchecked in
  the source; reading past the end is undefined behaviour, which the model records as
  \<open>None\<close>. Reads of \<^verbatim>\<open>pos1\<close>, \<^verbatim>\<open>pos2\<close> and of the other vectors are bounded by
  the loop conditions and are written with \<open>!\<close>.\<close>

definition readV :: "val list \<Rightarrow> nat \<Rightarrow> val option" where
  "readV xs k = (if k < length xs then Some (xs ! k) else None)"

text \<open>The innermost loop of \<^verbatim>\<open>Mesh::getLineFragments\<close>, over \<^verbatim>\<open>stepi\<close>. The state
  is the point \<open>pt\<close>, the working fragment \<open>fl\<close> and the output vector \<open>v\<close>.\<close>

function Mesh_stepi_loop ::
  "mat4 \<Rightarrow> val list \<Rightarrow> nat \<Rightarrow> nat \<Rightarrow> val list \<Rightarrow> nat \<Rightarrow> nat \<Rightarrow> nat \<Rightarrow> nat \<Rightarrow>
   vec4 \<times> fragment \<times> fragment list \<Rightarrow> (vec4 \<times> fragment \<times> fragment list) option" where
  "Mesh_stepi_loop outerM heights n2 stepindex vec_step vidx_step vidx_h consti stepi (pt, fl, v) =
     (if stepi < length vec_step
      then do {
        heightsval \<leftarrow> readV heights
          (if stepindex = 0 then stepi * n2 + consti else consti * n2 + stepi);
        let pt = set4 pt vidx_step (vec_step ! stepi);
        let pt = set4 pt vidx_h heightsval;
        let fl = fl\<lparr>points1 := points0 fl\<rparr>;
        let fl = fl\<lparr>points0 := vec4to3 (mulMV outerM pt)\<rparr>;
        if 0 < stepi \<and> isfinite3 (add3 (points0 fl) (points1 fl))
        then Mesh_stepi_loop outerM heights n2 stepindex vec_step vidx_step vidx_h consti
               (stepi + 1) (pt, bumpIndex fl, v @ [fl])
        else Mesh_stepi_loop outerM heights n2 stepindex vec_step vidx_step vidx_h consti
               (stepi + 1) (pt, fl, v)
      }
      else Some (pt, fl, v))"
  by pat_completeness auto
termination
  by (relation "measure (\<lambda>(outerM, heights, n2, stepindex, vec_step, vidx_step, vidx_h,
        consti, stepi, s). length vec_step - stepi)") auto

declare Mesh_stepi_loop.simps [simp del]

text \<open>The middle loop of \<^verbatim>\<open>Mesh::getLineFragments\<close>, over \<^verbatim>\<open>consti\<close>.\<close>

function Mesh_consti_loop ::
  "mat4 \<Rightarrow> val list \<Rightarrow> nat \<Rightarrow> nat \<Rightarrow> val list \<Rightarrow> val list \<Rightarrow> nat \<Rightarrow> nat \<Rightarrow> nat \<Rightarrow> nat \<Rightarrow>
   vec4 \<times> fragment \<times> fragment list \<Rightarrow> (vec4 \<times> fragment \<times> fragment list) option" where
  "Mesh_consti_loop outerM heights n2 stepindex vec_step vec_const vidx_step vidx_const vidx_h
     consti (pt, fl, v) =
     (if consti < length vec_const
      then do {
        let pt = set4 pt vidx_const (vec_const ! consti);
        s \<leftarrow> Mesh_stepi_loop outerM heights n2 stepindex vec_step vidx_step vidx_h consti 0
               (pt, fl, v);
        Mesh_consti_loop outerM heights n2 stepindex vec_step vec_const vidx_step vidx_const
          vidx_h (consti + 1) s
      }
      else Some (pt, fl, v))"
  by pat_completeness auto
termination
  by (relation "measure (\<lambda>(outerM, heights, n2, stepindex, vec_step, vec_const, vidx_step,
        vidx_const, vidx_h, consti, s). length vec_const - consti)") auto

declare Mesh_consti_loop.simps [simp del]

text \<open>The outer loop of \<^verbatim>\<open>Mesh::getLineFragments\<close>, over \<^verbatim>\<open>stepindex\<close>.\<close>

function Mesh_stepindex_loop ::
  "mat4 \<Rightarrow> val list \<Rightarrow> val list \<Rightarrow> val list \<Rightarrow> nat \<Rightarrow> nat \<Rightarrow> nat \<Rightarrow> nat \<Rightarrow> nat \<Rightarrow>
   vec4 \<times> fragment \<times> fragment list \<Rightarrow> (vec4 \<times> fragment \<times> fragment list) option" where
  "Mesh_stepindex_loop outerM pos1 pos2 heights n2 vidx_h vidx_1 vidx_2 stepindex (pt, fl, v) =
     (if stepindex \<le> 1
      then do {
        let vec_step = (if stepindex = 0 then pos1 else pos2);
        let vec_const = (if stepindex = 0 then pos2 else pos1);
        let vidx_step = (if stepindex = 0 then vidx_1 else vidx_2);
        let vidx_const = (if stepindex = 0 then vidx_2 else vidx_1);
        s \<leftarrow> Mesh_consti_loop outerM heights n2 stepindex vec_step vec_const vidx_step
               vidx_const vidx_h 0 (pt, fl, v);
        Mesh_stepindex_loop outerM pos1 pos2 heights n2 vidx_h vidx_1 vidx_2 (stepindex + 1) s
      }
      else Some (pt, fl, v))"
  by pat_completeness auto
termination
  by (relation "measure (\<lambda>(outerM, pos1, pos2, heights, n2, vidx_h, vidx_1, vidx_2,
        stepindex, s). 2 - stepindex)") auto

declare Mesh_stepindex_loop.simps [simp del]

text \<open>\<^verbatim>\<open>Mesh::getLineFragments\<close>.\<close>

definition getLineFragments ::
  "mat4 \<Rightarrow> val list \<Rightarrow> val list \<Rightarrow> val list \<Rightarrow> direction \<Rightarrow> propref option \<Rightarrow>
   propref option \<Rightarrow> fragment list \<Rightarrow> fragment list option" where
  "getLineFragments outerM pos1 pos2 heights dirn lp sp v =
     (if lp = None then Some v
      else
        (case getVecIdxs dirn of (vidx_h, vidx_1, vidx_2) \<Rightarrow>
           do {
             let fl = Fragment;
             let fl = fl\<lparr>ftype := FR_LINESEG\<rparr>;
             let fl = fl\<lparr>surfaceprop := None\<rparr>;
             let fl = fl\<lparr>lineprop := lp\<rparr>;
             let fl = fl\<lparr>object := Some (Mesh pos1 pos2 heights dirn lp sp)\<rparr>;
             let n2 = length pos2;
             let pt = Vec4 (Fin 0) (Fin 0) (Fin 0) (Fin 1);
             (pt, fl, v) \<leftarrow> Mesh_stepindex_loop outerM pos1 pos2 heights n2 vidx_h vidx_1
                               vidx_2 0 (pt, fl, v);
             Some v
           }))"

text \<open>The body of the two nested loops of \<^verbatim>\<open>Mesh::getSurfaceFragments\<close> for one
  grid cell. The state is the four corner vectors, the working fragment \<open>fs\<close> and the
  output vector \<open>v\<close>.\<close>

type_synonym surface_state = "vec4 \<times> vec4 \<times> vec4 \<times> vec4 \<times> fragment \<times> fragment list"

definition Mesh_cell ::
  "mat4 \<Rightarrow> val list \<Rightarrow> val list \<Rightarrow> val list \<Rightarrow> nat \<Rightarrow> nat \<Rightarrow> nat \<Rightarrow> nat \<Rightarrow> nat \<Rightarrow> nat \<Rightarrow>
   surface_state \<Rightarrow> surface_state option" where
  "Mesh_cell outerM pos1 pos2 heights n2 vidx_h vidx_1 vidx_2 i1 i2 s =
     (case s of (p0, p1, p2, p3, fs, v) \<Rightarrow>
        do {
          h0 \<leftarrow> readV heights (i1 * n2 + i2);
          let p0 = set4 p0 vidx_h h0;
          let p0 = set4 p0 vidx_1 (pos1 ! i1);
          let p0 = set4 p0 vidx_2 (pos2 ! i2);
          h1 \<leftarrow> readV heights ((i1 + 1) * n2 + i2);
          let p1 = set4 p1 vidx_h h1;
          let p1 = set4 p1 vidx_1 (pos1 ! (i1 + 1));
          let p1 = set4 p1 vidx_2 (pos2 ! i2);
          h2 \<leftarrow> readV heights (i1 * n2 + (i2 + 1));
          let p2 = set4 p2 vidx_h h2;
          let p2 = set4 p2 vidx_1 (pos1 ! i1);
          let p2 = set4 p2 vidx_2 (pos2 ! (i2 + 1));
          h3 \<leftarrow> readV heights ((i1 + 1) * n2 + (i2 + 1));
          let p3 = set4 p3 vidx_h h3;
          let p3 = set4 p3 vidx_1 (pos1 ! (i1 + 1));
          let p3 = set4 p3 vidx_2 (pos2 ! (i2 + 1));
          if \<not> isfinite4 (add4 (add4 (add4 p0 p1) p2) p3)
          then Some (p0, p1, p2, p3, fs, v)
          else do {
            let fs = fs\<lparr>points1 := vec4to3 (mulMV outerM p1)\<rparr>;
            let fs = fs\<lparr>points2 := vec4to3 (mulMV outerM p2)\<rparr>;
            let fs = fs\<lparr>points0 := vec4to3 (mulMV outerM p0)\<rparr>;
            let v = v @ [fs];
            let fs = bumpIndex fs;
            let fs = fs\<lparr>points0 := vec4to3 (mulMV outerM p3)\<rparr>;
            let v = v @ [fs];
            let fs = bumpIndex fs;
            Some (p0, p1, p2, p3, fs, v)
          }
        })"

text \<open>The inner loop of \<^verbatim>\<open>Mesh::getSurfaceFragments\<close>, over \<^verbatim>\<open>i2\<close>.\<close>

function Mesh_i2_loop ::
  "mat4 \<Rightarrow> val list \<Rightarrow> val list \<Rightarrow> val list \<Rightarrow> nat \<Rightarrow> nat \<Rightarrow> nat \<Rightarrow> nat \<Rightarrow> nat \<Rightarrow> nat \<Rightarrow>
   surface_state \<Rightarrow> surface_state option" where
  "Mesh_i2_loop outerM pos1 pos2 heights n2 vidx_h vidx_1 vidx_2 i1 i2 s =
     (if i2 + 1 < n2
      then do {
        s \<leftarrow> Mesh_cell outerM pos1 pos2 heights n2 vidx_h vidx_1 vidx_2 i1 i2 s;
        Mesh_i2_loop outerM pos1 pos2 heights n2 vidx_h vidx_1 vidx_2 i1 (i2 + 1) s
      }
      else Some s)"
  by pat_completeness auto
termination
  by (relation "measure (\<lambda>(outerM, pos1, pos2, heights, n2, vidx_h, vidx_1, vidx_2, i1, i2,
        s). n2 - i2)") auto

declare Mesh_i2_loop.simps [simp del]

text \<open>The outer loop of \<^verbatim>\<open>Mesh::getSurfaceFragments\<close>, over \<^verbatim>\<open>i1\<close>.\<close>

function Mesh_i1_loop ::
  "mat4 \<Rightarrow> val list \<Rightarrow> val list \<Rightarrow> val list \<Rightarrow> nat \<Rightarrow> nat \<Rightarrow> nat \<Rightarrow> nat \<Rightarrow> nat \<Rightarrow> nat \<Rightarrow>
   surface_state \<Rightarrow> surface_state option" where
  "Mesh_i1_loop outerM pos1 pos2 heights n1 n2 vidx_h vidx_1 vidx_2 i1 s =
     (if i1 + 1 < n1
      then do {
        s \<leftarrow> Mesh_i2_loop outerM pos1 pos2 heights n2 vidx_h vidx_1 vidx_2 i1 0 s;
        Mesh_i1_loop outerM pos1 pos2 heights n1 n2 vidx_h vidx_1 vidx_2 (i1 + 1) s
      }
      else Some s)"
  by pat_completeness auto
termination
  by (relation "measure (\<lambda>(outerM, pos1, pos2, heights, n1, n2, vidx_h, vidx_1, vidx_2, i1,
        s). n1 - i1)") auto

declare Mesh_i1_loop.simps [simp del]

text \<open>\<^verbatim>\<open>Mesh::getSurfaceFragments\<close>.\<close>

definition getSurfaceFragments ::
  "mat4 \<Rightarrow> val list \<Rightarrow> val list \<Rightarrow> val list \<Rightarrow> direction \<Rightarrow> propref option \<Rightarrow>
   propref option \<Rightarrow> fragment list \<Rightarrow> fragment list option" where
  "getSurfaceFragments outerM pos1 pos2 heights dirn lp sp v =
     (if sp = None then Some v
      else
        (case getVecIdxs dirn of (vidx_h, vidx_1, vidx_2) \<Rightarrow>
           do {
             let fs = Fragment;
             let fs = fs\<lparr>ftype := FR_TRIANGLE\<rparr>;
             let fs = fs\<lparr>surfaceprop := sp\<rparr>;
             let fs = fs\<lparr>lineprop := None\<rparr>;
             let fs = fs\<lparr>object := Some (Mesh pos1 pos2 heights dirn lp sp)\<rparr>;
             let n1 = length pos1;
             let n2 = length pos2;
             let p = set4 (Vec4 (Fin 0) (Fin 0) (Fin 0) (Fin 0)) 3 (Fin 1);
             (p0, p1, p2, p3, fs, v) \<leftarrow> Mesh_i1_loop outerM pos1 pos2 heights n1 n2 vidx_h
                                           vidx_1 vidx_2 0 (p, p, p, p, fs, v);
             Some v
           }))"

text \<open>\<^verbatim>\<open>Mesh::getFragments\<close>.\<close>

definition Mesh_getFragments ::
  "mat4 \<Rightarrow> val list \<Rightarrow> val list \<Rightarrow> val list \<Rightarrow> direction \<Rightarrow> propref option \<Rightarrow>
   propref option \<Rightarrow> fragment list \<Rightarrow> fragment list option" where
  "Mesh_getFragments outerM pos1 pos2 heights dirn lp sp v =
     do {
       v \<leftarrow> getLineFragments outerM pos1 pos2 heights dirn lp sp v;
       getSurfaceFragments outerM pos1 pos2 heights dirn lp sp v
     }"

section \<open>Points\<close>

text \<open>The loop of \<^verbatim>\<open>Points::getFragments\<close>; \<open>sz\<close> is the local \<^verbatim>\<open>size\<close>.\<close>

function Points_loop ::
  "mat4 \<Rightarrow> val list \<Rightarrow> val list \<Rightarrow> val list \<Rightarrow> val list \<Rightarrow> bool \<Rightarrow> nat \<Rightarrow> nat \<Rightarrow>
   fragment \<Rightarrow> fragment list \<Rightarrow> fragment list" where
  "Points_loop outerM x y z sizes hassizes sz i fp v =
     (if i < sz
      then (let fp = fp\<lparr>points0 := vec4to3 (mulMV outerM (Vec4 (x ! i) (y ! i) (z ! i) (Fin 1)))\<rparr>;
                fp = (if hassizes then fp\<lparr>pathsize := sizes ! i\<rparr> else fp)
            in if isfinite3 (points0 fp)
               then Points_loop outerM x y z sizes hassizes sz (i + 1) (bumpIndex fp) (v @ [fp])
               else Points_loop outerM x y z sizes hassizes sz (i + 1) fp v)
      else v)"
  by pat_completeness auto
termination
  by (relation "measure (\<lambda>(outerM, x, y, z, sizes, hassizes, sz, i, fp, v). sz - i)") auto

declare Points_loop.simps [simp del]

text \<open>\<^verbatim>\<open>Points::getFragments\<close>. The member \<^verbatim>\<open>fragparams\<close> is overwritten with the
  object's own path and \<^verbatim>\<open>scaleedges\<close> flag, and every fragment points to it.\<close>

definition Points_getFragments ::
  "mat4 \<Rightarrow> val list \<Rightarrow> val list \<Rightarrow> val list \<Rightarrow> val list \<Rightarrow> propref \<Rightarrow> bool \<Rightarrow>
   propref option \<Rightarrow> propref option \<Rightarrow> fragment list \<Rightarrow> fragment list" where
  "Points_getFragments outerM x y z sizes pth sc lineedge surfacefill v =
     (let fragparams = \<lparr>path = pth, scaleedges = sc\<rparr>;
          fp = Fragment;
          fp = fp\<lparr>ftype := FR_PATH\<rparr>;
          fp = fp\<lparr>object := Some (Points x y z sizes pth sc lineedge surfacefill)\<rparr>;
          fp = fp\<lparr>params := Some fragparams\<rparr>;
          fp = fp\<lparr>surfaceprop := surfacefill\<rparr>;
          fp = fp\<lparr>lineprop := lineedge\<rparr>;
          fp = fp\<lparr>pathsize := Fin 1\<rparr>;
          sz = min (length x) (min (length y) (length z));
          hassizes = (sizes \<noteq> []);
          sz = (if hassizes then min sz (length sizes) else sz)
      in Points_loop outerM x y z sizes hassizes sz 0 fp v)"

section \<open>ObjectContainer and the traversal\<close>

text \<open>The virtual method \<^verbatim>\<open>getFragments\<close>, dispatched on the class of the object;
  \<open>ObjectContainer_loop\<close> is the loop of \<^verbatim>\<open>ObjectContainer::getFragments\<close> over
  the remaining children.\<close>

fun getFragments :: "mat4 \<Rightarrow> object \<Rightarrow> fragment list \<Rightarrow> fragment list option"
  and ObjectContainer_loop :: "mat4 \<Rightarrow> object list \<Rightarrow> fragment list \<Rightarrow> fragment list option"
where
  "getFragments outerM Object v = Some v"
| "getFragments outerM (Triangle p0 p1 p2 sp) v =
     Some (Triangle_getFragments outerM p0 p1 p2 sp v)"
| "getFragments outerM (PolyLine pts lp) v = Some (PolyLine_getFragments outerM pts lp v)"
| "getFragments outerM (Mesh pos1 pos2 heights dirn lp sp) v =
     Mesh_getFragments outerM pos1 pos2 heights dirn lp sp v"
| "getFragments outerM (Points x y z sizes pth sc lineedge surfacefill) v =
     Some (Points_getFragments outerM x y z sizes pth sc lineedge surfacefill v)"
| "getFragments outerM (ObjectContainer objM objs) v =
     (let totM = mulMM outerM objM in ObjectContainer_loop totM objs v)"
| "ObjectContainer_loop totM [] v = Some v"
| "ObjectContainer_loop totM (obj # objs) v =
     do { v \<leftarrow> getFragments totM obj v; ObjectContainer_loop totM objs v }"

section \<open>The specified output\<close>

text \<open>The definitions of this section give the output of each object as a list, in the
  order and with the cases of the specification; they are what the loops above are
  compared with. Where the specification asks for finite coordinates of a pair of points
  or of a cell, they use the test of the source, on the sum of the points.\<close>

text \<open>A point after the transform \<open>M\<close>, as a 3-component coordinate.\<close>

definition transform :: "mat4 \<Rightarrow> vec4 \<Rightarrow> vec3" where
  "transform M p = vec4to3 (mulMV M p)"

text \<open>Sequence indices: the fragments of one emission are numbered consecutively,
  starting at \<open>k\<close>.\<close>

fun renumber :: "nat \<Rightarrow> fragment list \<Rightarrow> fragment list" where
  "renumber k [] = []"
| "renumber k (f # fs) = f\<lparr>index := k\<rparr> # renumber (Suc k) fs"

text \<open>The three kinds of fragment of section 3, before numbering: a fresh fragment
  with the fields of its kind filled in. A triangle is given by its three corners, a line
  segment by its start and end point (the end point goes to slot 0, the start point to
  slot 1), a point sprite by its position and path size.\<close>

definition TriangleFragment ::
  "object \<Rightarrow> propref option \<Rightarrow> vec3 \<times> vec3 \<times> vec3 \<Rightarrow> fragment" where
  "TriangleFragment owner sp t =
     Fragment\<lparr>ftype := FR_TRIANGLE, points0 := fst t, points1 := fst (snd t),
       points2 := snd (snd t), object := Some owner, surfaceprop := sp, lineprop := None\<rparr>"

definition LineSegment :: "object \<Rightarrow> propref option \<Rightarrow> vec3 \<times> vec3 \<Rightarrow> fragment" where
  "LineSegment owner lp s =
     Fragment\<lparr>ftype := FR_LINESEG, points0 := snd s, points1 := fst s, object := Some owner,
       surfaceprop := None, lineprop := lp\<rparr>"

definition PointSprite ::
  "object \<Rightarrow> fragment_parameters \<Rightarrow> propref option \<Rightarrow> propref option \<Rightarrow> vec3 \<times> val \<Rightarrow>
   fragment" where
  "PointSprite owner fpar fill edge q =
     Fragment\<lparr>ftype := FR_PATH, points0 := fst q, object := Some owner, params := Some fpar,
       surfaceprop := fill, lineprop := edge, pathsize := snd q\<rparr>"

text \<open>Section 4.1: a triangle gives one fragment, whatever its coordinates.\<close>

definition spec_triangle :: "mat4 \<Rightarrow> vec4 \<Rightarrow> vec4 \<Rightarrow> vec4 \<Rightarrow> propref option \<Rightarrow> fragment list" where
  "spec_triangle M p0 p1 p2 sp =
     [TriangleFragment (Triangle p0 p1 p2 sp) sp (transform M p0, transform M p1, transform M p2)]"

text \<open>Section 4.2: the segments of a line through the transformed points \<open>ps\<close>, one
  for each consecutive pair \<open>(i - 1, i)\<close> whose sum is finite, as pairs (start, end).\<close>

definition spec_segments :: "vec3 list \<Rightarrow> (vec3 \<times> vec3) list" where
  "spec_segments ps =
     [(ps ! (i - 1), ps ! i). i \<leftarrow> [1..<length ps], isfinite3 (add3 (ps ! i) (ps ! (i - 1)))]"

definition spec_polyline :: "mat4 \<Rightarrow> vec4 list \<Rightarrow> propref option \<Rightarrow> fragment list" where
  "spec_polyline M pts lp =
     renumber 0 (map (LineSegment (PolyLine pts lp) lp) (spec_segments (map (transform M) pts)))"

text \<open>Section 4.3, axis bookkeeping: the point with height \<open>h\<close>, first grid coordinate
  \<open>a\<close> and second grid coordinate \<open>b\<close>.\<close>

fun axis_point :: "direction \<Rightarrow> val \<Rightarrow> val \<Rightarrow> val \<Rightarrow> vec4" where
  "axis_point X_DIRN h a b = Vec4 h a b (Fin 1)"
| "axis_point Y_DIRN h a b = Vec4 b h a (Fin 1)"
| "axis_point Z_DIRN h a b = Vec4 a b h (Fin 1)"

definition spec_grid_point ::
  "val list \<Rightarrow> val list \<Rightarrow> val list \<Rightarrow> direction \<Rightarrow> nat \<Rightarrow> nat \<Rightarrow> vec4" where
  "spec_grid_point pos1 pos2 heights dirn i1 i2 =
     axis_point dirn (heights ! (i1 * length pos2 + i2)) (pos1 ! i1) (pos2 ! i2)"

text \<open>Section 4.3, wireframe: the grid lines in the order they are walked, first the
  lines along \<open>pos1\<close> (one for each index of \<open>pos2\<close>), then the lines along
  \<open>pos2\<close> (one for each index of \<open>pos1\<close>).\<close>

definition spec_grid_lines ::
  "val list \<Rightarrow> val list \<Rightarrow> val list \<Rightarrow> direction \<Rightarrow> vec4 list list" where
  "spec_grid_lines pos1 pos2 heights dirn =
     map (\<lambda>i2. map (\<lambda>i1. spec_grid_point pos1 pos2 heights dirn i1 i2) [0..<length pos1])
       [0..<length pos2] @
     map (\<lambda>i1. map (\<lambda>i2. spec_grid_point pos1 pos2 heights dirn i1 i2) [0..<length pos2])
       [0..<length pos1]"

definition spec_wireframe ::
  "mat4 \<Rightarrow> val list \<Rightarrow> val list \<Rightarrow> val list \<Rightarrow> direction \<Rightarrow> propref option \<Rightarrow>
   propref option \<Rightarrow> fragment list" where
  "spec_wireframe M pos1 pos2 heights dirn lp sp =
     (if lp = None then []
      else renumber 0 (map (LineSegment (Mesh pos1 pos2 heights dirn lp sp) lp)
             (concat (map (\<lambda>line. spec_segments (map (transform M) line))
                (spec_grid_lines pos1 pos2 heights dirn)))))"

text \<open>Section 4.3, surface: the two triangles of the cell \<open>(i1, i1 + 1) \<times> (i2, i2 + 1)\<close>,
  or nothing when the sum of its four corners is not finite.\<close>

definition spec_cell ::
  "mat4 \<Rightarrow> val list \<Rightarrow> val list \<Rightarrow> val list \<Rightarrow> direction \<Rightarrow> nat \<Rightarrow> nat \<Rightarrow>
   (vec3 \<times> vec3 \<times> vec3) list" where
  "spec_cell M pos1 pos2 heights dirn i1 i2 =
     (let corner00 = spec_grid_point pos1 pos2 heights dirn i1 i2;
          corner10 = spec_grid_point pos1 pos2 heights dirn (i1 + 1) i2;
          corner01 = spec_grid_point pos1 pos2 heights dirn i1 (i2 + 1);
          corner11 = spec_grid_point pos1 pos2 heights dirn (i1 + 1) (i2 + 1)
      in if isfinite4 (add4 (add4 (add4 corner00 corner10) corner01) corner11)
         then [(transform M corner00, transform M corner10, transform M corner01),
               (transform M corner11, transform M corner10, transform M corner01)]
         else [])"

definition spec_surface ::
  "mat4 \<Rightarrow> val list \<Rightarrow> val list \<Rightarrow> val list \<Rightarrow> direction \<Rightarrow> propref option \<Rightarrow>
   propref option \<Rightarrow> fragment list" where
  "spec_surface M pos1 pos2 heights dirn lp sp =
     (if sp = None then []
      else renumber 0 (map (TriangleFragment (Mesh pos1 pos2 heights dirn lp sp) sp)
             (concat (map (\<lambda>i1. concat (map (\<lambda>i2. spec_cell M pos1 pos2 heights dirn i1 i2)
                                           [0..<length pos2 - 1]))
                [0..<length pos1 - 1]))))"

text \<open>Section 4.4: the sprites of a point cloud.\<close>

definition spec_points ::
  "mat4 \<Rightarrow> val list \<Rightarrow> val list \<Rightarrow> val list \<Rightarrow> val list \<Rightarrow> propref \<Rightarrow> bool \<Rightarrow>
   propref option \<Rightarrow> propref option \<Rightarrow> fragment list" where
  "spec_points M x y z sizes pth sc lineedge surfacefill =
     (let n = min (length x) (min (length y) (length z));
          n = (if sizes = [] then n else min n (length sizes))
      in renumber 0
           (map (PointSprite (Points x y z sizes pth sc lineedge surfacefill)
                   \<lparr>path = pth, scaleedges = sc\<rparr> surfacefill lineedge)
              [(transform M (Vec4 (x ! i) (y ! i) (z ! i) (Fin 1)),
                if sizes = [] then Fin 1 else sizes ! i).
               i \<leftarrow> [0..<n], isfinite3 (transform M (Vec4 (x ! i) (y ! i) (z ! i) (Fin 1)))]))"

text \<open>Section 4.5 and section 5: the fragments of a tree, depth first, children in
  insertion order, the transforms multiplied from the root down.\<close>

fun spec_fragments :: "mat4 \<Rightarrow> object \<Rightarrow> fragment list" where
  "spec_fragments M Object = []"
| "spec_fragments M (Triangle p0 p1 p2 sp) = spec_triangle M p0 p1 p2 sp"
| "spec_fragments M (PolyLine pts lp) = spec_polyline M pts lp"
| "spec_fragments M (Mesh pos1 pos2 heights dirn lp sp) =
     spec_wireframe M pos1 pos2 heights dirn lp sp @ spec_surface M pos1 pos2 heights dirn lp sp"
| "spec_fragments M (Points x y z sizes pth sc lineedge surfacefill) =
     spec_points M x y z sizes pth sc lineedge surfacefill"
| "spec_fragments M (ObjectContainer objM objs) =
     concat (map (spec_fragments (mulMM M objM)) objs)"

text \<open>Section 3 asks for \<open>|heights| = |pos1| * |pos2|\<close>. The two halves of a mesh read
  \<^verbatim>\<open>heights\<close> inside the vector exactly under the following conditions; a tree is
  \<open>readable\<close> when every mesh in it is read inside its \<^verbatim>\<open>heights\<close>.\<close>

definition lines_readable :: "val list \<Rightarrow> val list \<Rightarrow> val list \<Rightarrow> bool" where
  "lines_readable pos1 pos2 heights =
     (length pos1 = 0 \<or> length pos2 = 0 \<or> length pos1 * length pos2 \<le> length heights)"

definition surface_readable :: "val list \<Rightarrow> val list \<Rightarrow> val list \<Rightarrow> bool" where
  "surface_readable pos1 pos2 heights =
     (length pos1 < 2 \<or> length pos2 < 2 \<or> length pos1 * length pos2 \<le> length heights)"

fun readable :: "object \<Rightarrow> bool" where
  "readable (Mesh pos1 pos2 heights dirn lp sp) =
     ((lp = None \<or> lines_readable pos1 pos2 heights) \<and>
      (sp = None \<or> surface_readable pos1 pos2 heights))"
| "readable (ObjectContainer objM objs) = list_all readable objs"
| "readable _ = True"

text \<open>The used point slots of a fragment, by kind.\<close>

fun used_points :: "fragment \<Rightarrow> vec3 list" where
  "used_points f =
     (case ftype f of
        FR_NONE \<Rightarrow> []
      | FR_TRIANGLE \<Rightarrow> [points0 f, points1 f, points2 f]
      | FR_LINESEG \<Rightarrow> [points0 f, points1 f]
      | FR_PATH \<Rightarrow> [points0 f])"

text \<open>A fragment is finite when every point slot its kind uses is.\<close>

definition fragment_finite :: "fragment \<Rightarrow> bool" where
  "fragment_finite f = list_all isfinite3 (used_points f)"

section \<open>Auxiliary notions for the loop invariants\<close>

text \<open>The segments found from position \<open>i\<close> on, in a line of \<open>n\<close> points given by
  \<open>g\<close>; position 0 never closes a segment.\<close>

definition segs_from :: "(nat \<Rightarrow> vec3) \<Rightarrow> nat \<Rightarrow> nat \<Rightarrow> (vec3 \<times> vec3) list" where
  "segs_from g n i =
     concat (map (\<lambda>j. if 0 < j \<and> isfinite3 (add3 (g j) (g (j - 1)))
                      then [(g (j - 1), g j)] else []) [i..<n])"

text \<open>A working line fragment \<open>f\<close> with the two end points of a segment written into
  it, and what is left of \<open>f\<close> when the fields the loops change are blanked.\<close>

definition seg_frag :: "fragment \<Rightarrow> vec3 \<times> vec3 \<Rightarrow> fragment" where
  "seg_frag f s = f\<lparr>points1 := fst s, points0 := snd s\<rparr>"

definition line_base :: "fragment \<Rightarrow> fragment" where
  "line_base f =
     f\<lparr>points0 := Vec3 (Fin 0) (Fin 0) (Fin 0), points1 := Vec3 (Fin 0) (Fin 0) (Fin 0),
       index := 0\<rparr>"

text \<open>The sprites found from index \<open>i\<close> on.\<close>

definition sprites_from ::
  "mat4 \<Rightarrow> val list \<Rightarrow> val list \<Rightarrow> val list \<Rightarrow> val list \<Rightarrow> nat \<Rightarrow> nat \<Rightarrow> (vec3 \<times> val) list" where
  "sprites_from M x y z sizes n i =
     [(transform M (Vec4 (x ! j) (y ! j) (z ! j) (Fin 1)),
       if sizes = [] then Fin 1 else sizes ! j).
      j \<leftarrow> [i..<n], isfinite3 (transform M (Vec4 (x ! j) (y ! j) (z ! j) (Fin 1)))]"

definition sprite_frag :: "fragment \<Rightarrow> vec3 \<times> val \<Rightarrow> fragment" where
  "sprite_frag f q = f\<lparr>points0 := fst q, pathsize := snd q\<rparr>"

definition sprite_base :: "fragment \<Rightarrow> fragment" where
  "sprite_base f = f\<lparr>points0 := Vec3 (Fin 0) (Fin 0) (Fin 0), pathsize := Fin 0, index := 0\<rparr>"

text \<open>The position in \<^verbatim>\<open>heights\<close> read at step \<open>j\<close> of the line \<open>consti\<close>, and the
  transformed point computed there from the point \<open>pt\<close> the line starts with.\<close>

definition wire_idx :: "nat \<Rightarrow> nat \<Rightarrow> nat \<Rightarrow> nat \<Rightarrow> nat" where
  "wire_idx stepindex n2 consti j = (if stepindex = 0 then j * n2 + consti else consti * n2 + j)"

definition wire_point ::
  "mat4 \<Rightarrow> val list \<Rightarrow> nat \<Rightarrow> nat \<Rightarrow> val list \<Rightarrow> nat \<Rightarrow> nat \<Rightarrow> nat \<Rightarrow> vec4 \<Rightarrow> nat \<Rightarrow> vec3" where
  "wire_point M heights n2 stepindex vec_step vidx_step vidx_h consti pt j =
     transform M (set4 (set4 pt vidx_step (vec_step ! j)) vidx_h
                    (heights ! wire_idx stepindex n2 consti j))"

text \<open>The transformed points of one grid line: line \<open>c\<close> of the pass \<open>stepindex\<close>.\<close>

definition wire_line ::
  "mat4 \<Rightarrow> val list \<Rightarrow> val list \<Rightarrow> val list \<Rightarrow> direction \<Rightarrow> nat \<Rightarrow> nat \<Rightarrow> vec3 list" where
  "wire_line M pos1 pos2 heights dirn stepindex c =
     map (\<lambda>j. transform M (if stepindex = 0 then spec_grid_point pos1 pos2 heights dirn j c
                            else spec_grid_point pos1 pos2 heights dirn c j))
       [0..<length (if stepindex = 0 then pos1 else pos2)]"

text \<open>A working triangle fragment with three corners written into it, and what is left
  of it when the fields the loops change are blanked.\<close>

definition tri_frag :: "fragment \<Rightarrow> vec3 \<times> vec3 \<times> vec3 \<Rightarrow> fragment" where
  "tri_frag f t = f\<lparr>points1 := fst (snd t), points2 := snd (snd t), points0 := fst t\<rparr>"

definition tri_base :: "fragment \<Rightarrow> fragment" where
  "tri_base f =
     f\<lparr>points0 := Vec3 (Fin 0) (Fin 0) (Fin 0), points1 := Vec3 (Fin 0) (Fin 0) (Fin 0),
       points2 := Vec3 (Fin 0) (Fin 0) (Fin 0), index := 0\<rparr>"

text \<open>The working fragment and the output of a state of the surface loops; the corner
  vectors keep their fourth component 1.\<close>

definition st_frag :: "surface_state \<Rightarrow> fragment" where
  "st_frag s = (case s of (p0, p1, p2, p3, fs, v) \<Rightarrow> fs)"

definition st_out :: "surface_state \<Rightarrow> fragment list" where
  "st_out s = (case s of (p0, p1, p2, p3, fs, v) \<Rightarrow> v)"

definition corners_w :: "surface_state \<Rightarrow> bool" where
  "corners_w s = (case s of (p0, p1, p2, p3, fs, v) \<Rightarrow>
     get4 p0 3 = Fin 1 \<and> get4 p1 3 = Fin 1 \<and> get4 p2 3 = Fin 1 \<and> get4 p3 3 = Fin 1)"

text \<open>From state \<open>s\<close> to state \<open>s'\<close> the triangles \<open>ts\<close> were emitted.\<close>

definition surf_step :: "surface_state \<Rightarrow> (vec3 \<times> vec3 \<times> vec3) list \<Rightarrow> surface_state \<Rightarrow> bool" where
  "surf_step s ts s' =
     (corners_w s' \<and>
      st_out s' = st_out s @ renumber (index (st_frag s)) (map (tri_frag (st_frag s)) ts) \<and>
      tri_base (st_frag s') = tri_base (st_frag s) \<and>
      index (st_frag s') = index (st_frag s) + length ts)"

section \<open>Finiteness of sums\<close>

text \<open>A finite sum has finite operands. The converse does not hold: the sum of two
  finite values can overflow.\<close>

lemma isfiniteV_addV: "isfiniteV (addV a b) \<Longrightarrow> isfiniteV a \<and> isfiniteV b"
  by (cases a; cases b) auto

lemma isfinite3_add3: "isfinite3 (add3 p q) \<Longrightarrow> isfinite3 p \<and> isfinite3 q"
  by (cases p; cases q) (auto dest: isfiniteV_addV)

lemma isfinite4_add4: "isfinite4 (add4 p q) \<Longrightarrow> isfinite4 p \<and> isfinite4 q"
  by (cases p; cases q) (auto dest: isfiniteV_addV)

lemma isfinite4_sum4:
  "isfinite4 (add4 (add4 (add4 p0 p1) p2) p3) \<Longrightarrow>
     isfinite4 p0 \<and> isfinite4 p1 \<and> isfinite4 p2 \<and> isfinite4 p3"
  by (blast dest: isfinite4_add4)

text \<open>Small values do not overflow.\<close>

lemma overflow_bound_eq: "overflow_bound = 2 ^ 970 * (2 ^ 54 - 1)"
proof -
  have "(2::real) ^ 1024 = 2 ^ 970 * 2 ^ 54" by (simp add: power_add[symmetric])
  then show ?thesis by (simp add: overflow_bound_def algebra_simps)
qed

lemma overflow_bound_large: "1000 < overflow_bound"
proof -
  have a: "(1::real) \<le> 2 ^ 54 - 1" by simp
  have "(2::real) ^ 970 * 1 \<le> 2 ^ 970 * (2 ^ 54 - 1)"
    by (rule mult_left_mono[OF a]) simp
  then have "(2::real) ^ 970 \<le> overflow_bound" by (simp only: overflow_bound_eq mult_1_right)
  moreover have "(2::real) ^ 10 \<le> 2 ^ 970" by (rule power_increasing) simp_all
  ultimately show ?thesis by simp
qed

lemma overflowV_small [simp]: "\<bar>r\<bar> \<le> 1000 \<Longrightarrow> overflowV r = Fin r"
  using overflow_bound_large by (auto simp: overflowV_def)

lemma overflowV_top: "overflowV (2 ^ 1023) = Fin (2 ^ 1023)"
proof -
  have e: "(2::real) ^ 1023 = 2 ^ 970 * 2 ^ 53" by (simp add: power_add[symmetric])
  have a: "(2::real) ^ 53 < 2 ^ 54 - 1" by simp
  have "(2::real) ^ 970 * 2 ^ 53 < 2 ^ 970 * (2 ^ 54 - 1)"
    by (rule mult_strict_left_mono[OF a]) simp
  then have lt: "(2::real) ^ 1023 < overflow_bound" by (simp only: overflow_bound_eq e)
  have "(0::real) < 2 ^ 1023" by simp
  with overflow_bound_large have "- overflow_bound < (2::real) ^ 1023" by linarith
  with lt show ?thesis by (simp add: overflowV_def)
qed

lemma overflowV_twice_top: "overflowV (2 ^ 1023 + 2 ^ 1023) = PInf"
proof -
  have "(2::real) ^ 1023 + 2 ^ 1023 = 2 ^ 1024" by simp
  moreover have "overflow_bound \<le> (2::real) ^ 1024" by (simp add: overflow_bound_def)
  ultimately show ?thesis by (simp add: overflowV_def)
qed

section \<open>Numbering\<close>

lemma renumber_append: "renumber k (xs @ ys) = renumber k xs @ renumber (k + length xs) ys"
  by (induction xs arbitrary: k) auto

lemma length_renumber: "length (renumber k xs) = length xs"
  by (induction xs arbitrary: k) auto

lemma index_renumber: "map index (renumber k xs) = [k..<k + length xs]"
  by (induction xs arbitrary: k) (simp_all del: upt_Suc add: upt_conv_Cons)

lemma nth_renumber: "i < length xs \<Longrightarrow> renumber k xs ! i = (xs ! i)\<lparr>index := k + i\<rparr>"
  by (induction xs arbitrary: k i) (auto simp: nth_Cons split: nat.splits)

lemma set_renumber: "f \<in> set (renumber k xs) \<Longrightarrow> \<exists>g \<in> set xs. \<exists>j. f = g\<lparr>index := j\<rparr>"
  by (induction xs arbitrary: k) auto

section \<open>The sliding window of the line loops\<close>

lemma segs_from_done: "n \<le> i \<Longrightarrow> segs_from g n i = []"
  by (simp add: segs_from_def)

lemma segs_from_step:
  "i < n \<Longrightarrow> segs_from g n i =
     (if 0 < i \<and> isfinite3 (add3 (g i) (g (i - 1))) then [(g (i - 1), g i)] else []) @
     segs_from g n (Suc i)"
  by (simp add: segs_from_def upt_conv_Cons)

lemma spec_segments_segs_from:
  assumes "\<And>j. j < length ps \<Longrightarrow> g j = ps ! j"
  shows "spec_segments ps = segs_from g (length ps) 0"
proof -
  have "spec_segments ps = segs_from g (length ps) 1"
    unfolding spec_segments_def segs_from_def
    by (rule arg_cong[where f = concat], rule map_cong) (auto simp: assms)
  also have "\<dots> = segs_from g (length ps) 0"
    by (cases "length ps = 0") (simp_all add: segs_from_def upt_conv_Cons)
  finally show ?thesis .
qed

lemma renumber_seg_frag_base:
  "renumber k (map (seg_frag f) xs) = renumber k (map (seg_frag (line_base f)) xs)"
  by (induction xs arbitrary: k) (simp_all add: seg_frag_def line_base_def)

lemma renumber_seg_frag_cong:
  assumes "line_base f' = line_base f"
  shows "renumber k (map (seg_frag f') xs) = renumber k (map (seg_frag f) xs)"
proof -
  have "renumber k (map (seg_frag f') xs) = renumber k (map (seg_frag (line_base f')) xs)"
    by (rule renumber_seg_frag_base)
  also have "\<dots> = renumber k (map (seg_frag (line_base f)) xs)"
    by (simp only: assms)
  also have "\<dots> = renumber k (map (seg_frag f) xs)"
    by (rule renumber_seg_frag_base[symmetric])
  finally show ?thesis .
qed

lemma renumber_seg_frag_LineSegment:
  "renumber k (map (seg_frag (Fragment\<lparr>ftype := FR_LINESEG, surfaceprop := None, lineprop := lp,
           object := Some owner\<rparr>)) xs) = renumber k (map (LineSegment owner lp) xs)"
  by (induction xs arbitrary: k) (simp_all add: seg_frag_def LineSegment_def Fragment_def)

section \<open>PolyLine\<close>

lemma PolyLine_loop_eq:
  assumes "0 < i \<Longrightarrow> points0 f = transform M (pts ! (i - 1))"
  shows "PolyLine_loop M pts i f v =
    v @ renumber (index f)
          (map (seg_frag f) (segs_from (\<lambda>j. transform M (pts ! j)) (length pts) i))"
  using assms
proof (induction "length pts - i" arbitrary: i f v)
  case 0
  then show ?case by (simp add: PolyLine_loop.simps[of M pts i] segs_from_done)
next
  case (Suc n)
  then have lt: "i < length pts" by simp
  let ?g = "\<lambda>j. transform M (pts ! j)"
  let ?f = "f\<lparr>points1 := points0 f, points0 := ?g i\<rparr>"
  let ?rest = "segs_from ?g (length pts) (Suc i)"
  have n: "n = length pts - Suc i" using Suc.hyps(2) by simp
  have b1: "line_base ?f = line_base f" "line_base (bumpIndex ?f) = line_base f"
    by (simp_all add: line_base_def bumpIndex_def)
  show ?case
  proof (cases "0 < i \<and> isfinite3 (add3 (?g i) (?g (i - 1)))")
    case True
    have e: "(seg_frag f (?g (i - 1), ?g i))\<lparr>index := index f\<rparr> = ?f"
      using Suc.prems True by (simp add: seg_frag_def)
    have seg: "segs_from ?g (length pts) i = (?g (i - 1), ?g i) # ?rest"
      using True segs_from_step[OF lt, of ?g] by simp
    have "PolyLine_loop M pts i f v = PolyLine_loop M pts (Suc i) (bumpIndex ?f) (v @ [?f])"
      using lt True Suc.prems by (subst PolyLine_loop.simps) (simp add: Let_def transform_def)
    also have "\<dots> = (v @ [?f]) @
        renumber (index (bumpIndex ?f)) (map (seg_frag (bumpIndex ?f)) ?rest)"
      by (rule Suc.hyps(1)[OF n]) (simp add: bumpIndex_def)
    also have "renumber (index (bumpIndex ?f)) (map (seg_frag (bumpIndex ?f)) ?rest)
        = renumber (Suc (index f)) (map (seg_frag f) ?rest)"
      using renumber_seg_frag_cong[OF b1(2)] by (simp add: bumpIndex_def)
    finally show ?thesis
      unfolding seg using e by simp
  next
    case False
    have seg: "segs_from ?g (length pts) i = ?rest"
      using False segs_from_step[OF lt, of ?g] by auto
    have "PolyLine_loop M pts i f v = PolyLine_loop M pts (Suc i) ?f v"
      using lt False Suc.prems
      by (subst PolyLine_loop.simps) (auto simp add: Let_def transform_def)
    also have "\<dots> = v @ renumber (index ?f) (map (seg_frag ?f) ?rest)"
      by (rule Suc.hyps(1)[OF n]) simp
    also have "renumber (index ?f) (map (seg_frag ?f) ?rest)
        = renumber (index f) (map (seg_frag f) ?rest)"
      using renumber_seg_frag_cong[OF b1(1)] by simp
    finally show ?thesis
      unfolding seg by simp
  qed
qed

lemma PolyLine_getFragments_eq:
  "PolyLine_getFragments M pts lp v = v @ spec_polyline M pts lp"
proof -
  let ?f = "Fragment\<lparr>ftype := FR_LINESEG, surfaceprop := None, lineprop := lp,
           object := Some (PolyLine pts lp)\<rparr>"
  have s: "spec_segments (map (transform M) pts) =
      segs_from (\<lambda>j. transform M (pts ! j)) (length pts) 0"
    using spec_segments_segs_from[of "map (transform M) pts" "\<lambda>j. transform M (pts ! j)"]
    by simp
  have i: "index ?f = 0" by (simp add: Fragment_def)
  have "PolyLine_getFragments M pts lp v = PolyLine_loop M pts 0 ?f v"
    by (simp add: PolyLine_getFragments_def)
  also have "\<dots> = v @ renumber (index ?f)
      (map (seg_frag ?f) (segs_from (\<lambda>j. transform M (pts ! j)) (length pts) 0))"
    by (rule PolyLine_loop_eq) simp
  finally show ?thesis
    unfolding i spec_polyline_def s renumber_seg_frag_LineSegment .
qed

lemma Triangle_getFragments_eq:
  "Triangle_getFragments M p0 p1 p2 sp v = v @ spec_triangle M p0 p1 p2 sp"
  by (simp add: Triangle_getFragments_def spec_triangle_def TriangleFragment_def Fragment_def
      transform_def)

section \<open>Points\<close>

lemma sprites_from_done: "n \<le> i \<Longrightarrow> sprites_from M x y z sizes n i = []"
  by (simp add: sprites_from_def)

lemma sprites_from_step:
  "i < n \<Longrightarrow> sprites_from M x y z sizes n i =
     (if isfinite3 (transform M (Vec4 (x ! i) (y ! i) (z ! i) (Fin 1)))
      then [(transform M (Vec4 (x ! i) (y ! i) (z ! i) (Fin 1)),
             if sizes = [] then Fin 1 else sizes ! i)] else []) @
     sprites_from M x y z sizes n (Suc i)"
  by (simp add: sprites_from_def upt_conv_Cons)

lemma renumber_sprite_frag_base:
  "renumber k (map (sprite_frag f) xs) = renumber k (map (sprite_frag (sprite_base f)) xs)"
  by (induction xs arbitrary: k) (simp_all add: sprite_frag_def sprite_base_def)

lemma renumber_sprite_frag_cong:
  assumes "sprite_base f' = sprite_base f"
  shows "renumber k (map (sprite_frag f') xs) = renumber k (map (sprite_frag f) xs)"
proof -
  have "renumber k (map (sprite_frag f') xs) = renumber k (map (sprite_frag (sprite_base f')) xs)"
    by (rule renumber_sprite_frag_base)
  also have "\<dots> = renumber k (map (sprite_frag (sprite_base f)) xs)"
    by (simp only: assms)
  also have "\<dots> = renumber k (map (sprite_frag f) xs)"
    by (rule renumber_sprite_frag_base[symmetric])
  finally show ?thesis .
qed

lemma Points_loop_eq:
  assumes "sizes = [] \<Longrightarrow> pathsize fp = Fin 1"
  shows "Points_loop M x y z sizes (sizes \<noteq> []) n i fp v =
    v @ renumber (index fp) (map (sprite_frag fp) (sprites_from M x y z sizes n i))"
  using assms
proof (induction "n - i" arbitrary: i fp v)
  case 0
  then show ?case by (simp add: Points_loop.simps[of M x y z sizes _ n i] sprites_from_done)
next
  case (Suc m)
  then have lt: "i < n" by simp
  let ?p = "transform M (Vec4 (x ! i) (y ! i) (z ! i) (Fin 1))"
  let ?s = "if sizes = [] then Fin 1 else sizes ! i"
  let ?f = "if sizes \<noteq> [] then fp\<lparr>points0 := ?p\<rparr>\<lparr>pathsize := sizes ! i\<rparr> else fp\<lparr>points0 := ?p\<rparr>"
  let ?rest = "sprites_from M x y z sizes n (Suc i)"
  have m: "m = n - Suc i" using Suc.hyps(2) by simp
  have b1: "sprite_base ?f = sprite_base fp" "sprite_base (bumpIndex ?f) = sprite_base fp"
    by (simp_all add: sprite_base_def bumpIndex_def)
  have ps: "sizes = [] \<Longrightarrow> pathsize ?f = Fin 1" "sizes = [] \<Longrightarrow> pathsize (bumpIndex ?f) = Fin 1"
    using Suc.prems by (simp_all add: bumpIndex_def)
  have p0: "points0 ?f = ?p" by simp
  have ix: "index ?f = index fp" "index (bumpIndex ?f) = Suc (index fp)"
    by (simp_all add: bumpIndex_def)
  have e: "(sprite_frag fp (?p, ?s))\<lparr>index := index fp\<rparr> = ?f"
  proof (cases "sizes = []")
    case True
    have "fp\<lparr>points0 := ?p, pathsize := Fin 1\<rparr> = fp\<lparr>points0 := ?p\<rparr>"
      using Suc.prems True by (cases fp) simp
    then show ?thesis using True by (simp add: sprite_frag_def)
  next
    case False
    then show ?thesis by (simp add: sprite_frag_def)
  qed
  have step: "Points_loop M x y z sizes (sizes \<noteq> []) n i fp v =
      (if isfinite3 ?p
       then Points_loop M x y z sizes (sizes \<noteq> []) n (Suc i) (bumpIndex ?f) (v @ [?f])
       else Points_loop M x y z sizes (sizes \<noteq> []) n (Suc i) ?f v)"
    using lt by (subst Points_loop.simps) (simp add: Let_def transform_def)
  show ?case
  proof (cases "isfinite3 ?p")
    case True
    have seg: "sprites_from M x y z sizes n i = (?p, ?s) # ?rest"
      using True sprites_from_step[OF lt, of M x y z sizes] by simp
    have "Points_loop M x y z sizes (sizes \<noteq> []) n i fp v =
        Points_loop M x y z sizes (sizes \<noteq> []) n (Suc i) (bumpIndex ?f) (v @ [?f])"
      using step True by simp
    also have "\<dots> = (v @ [?f]) @
        renumber (index (bumpIndex ?f)) (map (sprite_frag (bumpIndex ?f)) ?rest)"
      by (rule Suc.hyps(1)[OF m ps(2)])
    also have "renumber (index (bumpIndex ?f)) (map (sprite_frag (bumpIndex ?f)) ?rest)
        = renumber (Suc (index fp)) (map (sprite_frag fp) ?rest)"
      unfolding ix by (rule renumber_sprite_frag_cong[OF b1(2)])
    finally show ?thesis
      unfolding seg using e by simp
  next
    case False
    have seg: "sprites_from M x y z sizes n i = ?rest"
      using False sprites_from_step[OF lt, of M x y z sizes] by simp
    have "Points_loop M x y z sizes (sizes \<noteq> []) n i fp v =
        Points_loop M x y z sizes (sizes \<noteq> []) n (Suc i) ?f v"
      using step False by simp
    also have "\<dots> = v @ renumber (index ?f) (map (sprite_frag ?f) ?rest)"
      by (rule Suc.hyps(1)[OF m ps(1)])
    also have "renumber (index ?f) (map (sprite_frag ?f) ?rest)
        = renumber (index fp) (map (sprite_frag fp) ?rest)"
      unfolding ix by (rule renumber_sprite_frag_cong[OF b1(1)])
    finally show ?thesis
      unfolding seg by simp
  qed
qed

lemma renumber_sprite_frag_PointSprite:
  "renumber k (map (sprite_frag (Fragment\<lparr>ftype := FR_PATH, object := Some owner,
       params := Some fpar, surfaceprop := fill, lineprop := edge, pathsize := Fin 1\<rparr>)) xs)
   = renumber k (map (PointSprite owner fpar fill edge) xs)"
  by (induction xs arbitrary: k) (simp_all add: sprite_frag_def PointSprite_def Fragment_def)

lemma Points_getFragments_eq:
  "Points_getFragments M x y z sizes pth sc lineedge surfacefill v =
     v @ spec_points M x y z sizes pth sc lineedge surfacefill"
proof -
  let ?f = "Fragment\<lparr>ftype := FR_PATH,
      object := Some (Points x y z sizes pth sc lineedge surfacefill),
      params := Some \<lparr>path = pth, scaleedges = sc\<rparr>, surfaceprop := surfacefill,
      lineprop := lineedge, pathsize := Fin 1\<rparr>"
  let ?n = "min (length x) (min (length y) (length z))"
  let ?n' = "if sizes = [] then ?n else min ?n (length sizes)"
  have i: "index ?f = 0" by (simp add: Fragment_def)
  have "Points_getFragments M x y z sizes pth sc lineedge surfacefill v =
      Points_loop M x y z sizes (sizes \<noteq> []) ?n' 0 ?f v"
    by (simp add: Points_getFragments_def Let_def)
  also have "\<dots> = v @ renumber (index ?f) (map (sprite_frag ?f) (sprites_from M x y z sizes ?n' 0))"
    by (rule Points_loop_eq) simp
  finally show ?thesis
    unfolding i spec_points_def Let_def renumber_sprite_frag_PointSprite sprites_from_def .
qed

section \<open>Mesh: the wireframe loops\<close>

lemma set4_absorb:
  "set4 (set4 (set4 (set4 pt s a) h b) s a') h b' = set4 (set4 pt s a') h b'"
  by (cases pt) simp

lemma get4_set4_w: "i < 3 \<Longrightarrow> get4 (set4 p i x) 3 = get4 p 3"
  by (cases p) simp

lemma axis_point_set4:
  assumes "getVecIdxs dirn = (vh, v1, v2)" and "get4 pt 3 = Fin 1"
  shows "set4 (set4 (set4 pt v2 b) v1 a) vh h = axis_point dirn h a b"
    and "set4 (set4 (set4 pt v1 a) v2 b) vh h = axis_point dirn h a b"
    and "set4 (set4 (set4 pt vh h) v1 a) v2 b = axis_point dirn h a b"
  using assms by (cases dirn; cases pt; auto)+

lemma getVecIdxs_bounds:
  assumes "getVecIdxs dirn = (vh, v1, v2)"
  shows "vh < 3" "v1 < 3" "v2 < 3"
  using assms by (cases dirn; auto)+

lemma wire_point_absorb:
  "wire_point M heights n2 stepindex vec_step vidx_step vidx_h consti
     (set4 (set4 pt vidx_step a) vidx_h b) =
   wire_point M heights n2 stepindex vec_step vidx_step vidx_h consti pt"
  by (rule ext) (simp add: wire_point_def set4_absorb)

lemma Mesh_stepi_loop_eq:
  assumes "0 < stepi \<Longrightarrow>
     points0 fl = wire_point M heights n2 stepindex vec_step vidx_step vidx_h consti pt (stepi - 1)"
  shows "if (\<forall>j. stepi \<le> j \<and> j < length vec_step \<longrightarrow>
               wire_idx stepindex n2 consti j < length heights)
     then \<exists>pt' fl'.
        Mesh_stepi_loop M heights n2 stepindex vec_step vidx_step vidx_h consti stepi (pt, fl, v) =
          Some (pt', fl', v @ renumber (index fl) (map (seg_frag fl)
            (segs_from (wire_point M heights n2 stepindex vec_step vidx_step vidx_h consti pt)
               (length vec_step) stepi))) \<and>
        line_base fl' = line_base fl \<and>
        index fl' = index fl + length
            (segs_from (wire_point M heights n2 stepindex vec_step vidx_step vidx_h consti pt)
               (length vec_step) stepi) \<and>
        (vidx_step < 3 \<and> vidx_h < 3 \<longrightarrow> get4 pt' 3 = get4 pt 3)
     else Mesh_stepi_loop M heights n2 stepindex vec_step vidx_step vidx_h consti stepi (pt, fl, v)
          = None"
  using assms
proof (induction "length vec_step - stepi" arbitrary: stepi pt fl v)
  case 0
  then have "\<not> stepi < length vec_step" by simp
  then show ?case
    by (simp add: Mesh_stepi_loop.simps[of _ _ _ _ vec_step _ _ _ stepi] segs_from_done)
next
  case (Suc m)
  let ?L = "Mesh_stepi_loop M heights n2 stepindex vec_step vidx_step vidx_h consti"
  let ?W = "wire_point M heights n2 stepindex vec_step vidx_step vidx_h consti"
  let ?n = "length vec_step"
  let ?k = "wire_idx stepindex n2 consti stepi"
  have lt: "stepi < ?n" using Suc.hyps(2) by simp
  have m: "m = ?n - Suc stepi" using Suc.hyps(2) by simp
  show ?case
  proof (cases "?k < length heights")
    case False
    have "?L stepi (pt, fl, v) = None"
      using lt False
      by (subst Mesh_stepi_loop.simps) (simp add: readV_def wire_idx_def)
    moreover have "\<not> (\<forall>j. stepi \<le> j \<and> j < ?n \<longrightarrow> wire_idx stepindex n2 consti j < length heights)"
      using lt False by auto
    ultimately show ?thesis by simp
  next
    case True
    let ?pt1 = "set4 (set4 pt vidx_step (vec_step ! stepi)) vidx_h (heights ! ?k)"
    let ?f1 = "fl\<lparr>points1 := points0 fl, points0 := ?W pt stepi\<rparr>"
    let ?emit = "0 < stepi \<and> isfinite3 (add3 (?W pt stepi) (?W pt (stepi - 1)))"
    let ?f2 = "if ?emit then bumpIndex ?f1 else ?f1"
    let ?v2 = "if ?emit then v @ [?f1] else v"
    let ?rest = "segs_from (?W pt) ?n (Suc stepi)"
    have W1: "?W ?pt1 = ?W pt" by (rule wire_point_absorb)
    have step: "?L stepi (pt, fl, v) = ?L (Suc stepi) (?pt1, ?f2, ?v2)"
      using lt True Suc.prems
      by (subst Mesh_stepi_loop.simps)
         (auto simp add: readV_def wire_idx_def wire_point_def transform_def Let_def)
    have all: "(\<forall>j. stepi \<le> j \<and> j < ?n \<longrightarrow> wire_idx stepindex n2 consti j < length heights) =
        (\<forall>j. Suc stepi \<le> j \<and> j < ?n \<longrightarrow> wire_idx stepindex n2 consti j < length heights)"
    proof (intro iffI allI impI)
      fix j
      assume a: "\<forall>j. stepi \<le> j \<and> j < ?n \<longrightarrow> wire_idx stepindex n2 consti j < length heights"
        and b: "Suc stepi \<le> j \<and> j < ?n"
      from b have "stepi \<le> j \<and> j < ?n" by simp
      with a show "wire_idx stepindex n2 consti j < length heights" by blast
    next
      fix j
      assume a: "\<forall>j. Suc stepi \<le> j \<and> j < ?n \<longrightarrow> wire_idx stepindex n2 consti j < length heights"
        and b: "stepi \<le> j \<and> j < ?n"
      show "wire_idx stepindex n2 consti j < length heights"
      proof (cases "j = stepi")
        case True
        then show ?thesis using \<open>?k < length heights\<close> by simp
      next
        case False
        then have "Suc stepi \<le> j \<and> j < ?n" using b by simp
        with a show ?thesis by blast
      qed
    qed
    have pre: "0 < Suc stepi \<Longrightarrow> points0 ?f2 = ?W ?pt1 (Suc stepi - 1)"
      unfolding W1 by (simp add: bumpIndex_def)
    note IH = Suc.hyps(1)[OF m pre, of ?v2, unfolded W1]
    have base: "line_base ?f2 = line_base fl"
      by (simp add: line_base_def bumpIndex_def)
    have idx: "index ?f2 = index fl + (if ?emit then 1 else 0)"
      by (simp add: bumpIndex_def)
    have seg: "segs_from (?W pt) ?n stepi =
        (if ?emit then [(?W pt (stepi - 1), ?W pt stepi)] else []) @ ?rest"
      using segs_from_step[OF lt, of "?W pt"] by simp
    have e: "?emit \<Longrightarrow> (seg_frag fl (?W pt (stepi - 1), ?W pt stepi))\<lparr>index := index fl\<rparr> = ?f1"
      using Suc.prems by (simp add: seg_frag_def)
    have out: "?v2 @ renumber (index ?f2) (map (seg_frag ?f2) ?rest) =
        v @ renumber (index fl) (map (seg_frag fl) (segs_from (?W pt) ?n stepi))"
    proof -
      have c: "renumber (index ?f2) (map (seg_frag ?f2) ?rest) =
          renumber (index ?f2) (map (seg_frag fl) ?rest)"
        by (rule renumber_seg_frag_cong[OF base])
      show ?thesis
      proof (cases ?emit)
        case True
        have "?f2 = bumpIndex ?f1" "?v2 = v @ [?f1]" by (rule if_P[OF True])+
        moreover have "index (bumpIndex ?f1) = Suc (index fl)" by (simp add: bumpIndex_def)
        moreover have "segs_from (?W pt) ?n stepi = (?W pt (stepi - 1), ?W pt stepi) # ?rest"
          unfolding seg if_P[OF True] by simp
        ultimately show ?thesis using c e[OF True] by simp
      next
        case False
        have "?f2 = ?f1" "?v2 = v" by (rule if_not_P[OF False])+
        moreover have "index ?f1 = index fl" by simp
        moreover have "segs_from (?W pt) ?n stepi = ?rest"
          unfolding seg if_not_P[OF False] by simp
        ultimately show ?thesis using c by simp
      qed
    qed
    have len: "index ?f2 + length ?rest = index fl + length (segs_from (?W pt) ?n stepi)"
      unfolding seg idx by simp
    show ?thesis
    proof (cases "\<forall>j. Suc stepi \<le> j \<and> j < ?n \<longrightarrow> wire_idx stepindex n2 consti j < length heights")
      case False
      show ?thesis
        unfolding all if_not_P[OF False] step by (rule IH[unfolded if_not_P[OF False]])
    next
      case ok: True
      from IH[unfolded if_P[OF ok]] obtain pt' fl' where r:
        "?L (Suc stepi) (?pt1, ?f2, ?v2) =
           Some (pt', fl', ?v2 @ renumber (index ?f2) (map (seg_frag ?f2) ?rest))"
        "line_base fl' = line_base ?f2"
        "index fl' = index ?f2 + length ?rest"
        "vidx_step < 3 \<and> vidx_h < 3 \<longrightarrow> get4 pt' 3 = get4 ?pt1 3"
        by blast
      have 1: "?L stepi (pt, fl, v) =
          Some (pt', fl', v @ renumber (index fl) (map (seg_frag fl) (segs_from (?W pt) ?n stepi)))"
        unfolding step r(1) out ..
      have 2: "line_base fl' = line_base fl" using r(2) base by simp
      have 3: "index fl' = index fl + length (segs_from (?W pt) ?n stepi)"
        using r(3) len by simp
      have 4: "vidx_step < 3 \<and> vidx_h < 3 \<longrightarrow> get4 pt' 3 = get4 pt 3"
        using r(4) by (simp add: get4_set4_w)
      show ?thesis
        unfolding all if_P[OF ok] using 1 2 3 4 by blast
    qed
  qed
qed

lemma wire_point_grid:
  assumes "getVecIdxs dirn = (vh, v1, v2)" and "get4 pt 3 = Fin 1"
  shows "wire_point M heights (length pos2) stepindex (if stepindex = 0 then pos1 else pos2)
           (if stepindex = 0 then v1 else v2) vh c
           (set4 pt (if stepindex = 0 then v2 else v1)
              ((if stepindex = 0 then pos2 else pos1) ! c)) j =
         transform M (if stepindex = 0 then spec_grid_point pos1 pos2 heights dirn j c
                      else spec_grid_point pos1 pos2 heights dirn c j)"
  by (simp add: wire_point_def wire_idx_def spec_grid_point_def axis_point_set4[OF assms])

lemma segs_from_wire_line:
  assumes "getVecIdxs dirn = (vh, v1, v2)" and "get4 pt 3 = Fin 1"
  shows "segs_from
           (wire_point M heights (length pos2) stepindex (if stepindex = 0 then pos1 else pos2)
              (if stepindex = 0 then v1 else v2) vh c
              (set4 pt (if stepindex = 0 then v2 else v1)
                 ((if stepindex = 0 then pos2 else pos1) ! c)))
           (length (if stepindex = 0 then pos1 else pos2)) 0 =
         spec_segments (wire_line M pos1 pos2 heights dirn stepindex c)"
proof -
  have "spec_segments (wire_line M pos1 pos2 heights dirn stepindex c) =
      segs_from
           (wire_point M heights (length pos2) stepindex (if stepindex = 0 then pos1 else pos2)
              (if stepindex = 0 then v1 else v2) vh c
              (set4 pt (if stepindex = 0 then v2 else v1)
                 ((if stepindex = 0 then pos2 else pos1) ! c)))
           (length (wire_line M pos1 pos2 heights dirn stepindex c)) 0"
    by (rule spec_segments_segs_from)
       (auto simp add: wire_point_grid[OF assms] wire_line_def simp del: upt_Suc)
  then show ?thesis by (simp add: wire_line_def)
qed

lemma Mesh_consti_loop_eq:
  assumes vi: "getVecIdxs dirn = (vh, v1, v2)" and w: "get4 pt 3 = Fin 1"
    and vs: "vec_step = (if stepindex = 0 then pos1 else pos2)"
    and vc: "vec_const = (if stepindex = 0 then pos2 else pos1)"
    and xs: "vidx_step = (if stepindex = 0 then v1 else v2)"
    and xc: "vidx_const = (if stepindex = 0 then v2 else v1)"
    and n2: "n2 = length pos2"
  shows "if (\<forall>c j. consti \<le> c \<and> c < length vec_const \<and> j < length vec_step \<longrightarrow>
               wire_idx stepindex n2 c j < length heights)
     then \<exists>pt' fl'.
        Mesh_consti_loop M heights n2 stepindex vec_step vec_const vidx_step vidx_const vh consti
            (pt, fl, v) =
          Some (pt', fl', v @ renumber (index fl) (map (seg_frag fl)
            (concat (map (\<lambda>c. spec_segments (wire_line M pos1 pos2 heights dirn stepindex c))
               [consti..<length vec_const])))) \<and>
        line_base fl' = line_base fl \<and>
        index fl' = index fl + length
            (concat (map (\<lambda>c. spec_segments (wire_line M pos1 pos2 heights dirn stepindex c))
               [consti..<length vec_const])) \<and>
        get4 pt' 3 = Fin 1
     else Mesh_consti_loop M heights n2 stepindex vec_step vec_const vidx_step vidx_const vh consti
            (pt, fl, v) = None"
  using w
proof (induction "length vec_const - consti" arbitrary: consti pt fl v)
  case 0
  then have "\<not> consti < length vec_const" by simp
  then show ?case
    using 0(2)
    by (simp add: Mesh_consti_loop.simps[of _ _ _ _ _ vec_const _ _ _ consti])
next
  case (Suc m)
  let ?C = "Mesh_consti_loop M heights n2 stepindex vec_step vec_const vidx_step vidx_const vh"
  let ?L = "Mesh_stepi_loop M heights n2 stepindex vec_step vidx_step vh"
  let ?S = "\<lambda>c. spec_segments (wire_line M pos1 pos2 heights dirn stepindex c)"
  let ?nc = "length vec_const"
  let ?ptc = "set4 pt vidx_const (vec_const ! consti)"
  let ?W = "wire_point M heights n2 stepindex vec_step vidx_step vh consti ?ptc"
  have lt: "consti < ?nc" using Suc.hyps(2) by simp
  have m: "m = ?nc - Suc consti" using Suc.hyps(2) by simp
  have bnd: "vidx_step < 3" "vidx_const < 3" "vh < 3"
    using getVecIdxs_bounds[OF vi] xs xc by simp_all
  have wc: "get4 ?ptc 3 = Fin 1" using Suc.prems bnd by (simp add: get4_set4_w)
  have sg: "segs_from ?W (length vec_step) 0 = ?S consti"
    using segs_from_wire_line[OF vi Suc.prems, of M heights pos2 stepindex pos1 consti]
    unfolding vs vc xs xc n2 .
  have step: "?C consti (pt, fl, v) = Option.bind (?L consti 0 (?ptc, fl, v)) (?C (Suc consti))"
    using lt by (subst Mesh_consti_loop.simps) (simp add: Let_def)
  have lst: "[consti..<?nc] = consti # [Suc consti..<?nc]"
    using lt by (simp add: upt_conv_Cons)
  let ?A0 = "\<forall>j. 0 \<le> j \<and> j < length vec_step \<longrightarrow> wire_idx stepindex n2 consti j < length heights"
  let ?A1 = "\<forall>c j. Suc consti \<le> c \<and> c < ?nc \<and> j < length vec_step \<longrightarrow>
               wire_idx stepindex n2 c j < length heights"
  have all: "(\<forall>c j. consti \<le> c \<and> c < ?nc \<and> j < length vec_step \<longrightarrow>
               wire_idx stepindex n2 c j < length heights) = (?A0 \<and> ?A1)"
  proof (intro iffI conjI allI impI)
    fix c j
    assume a: "?A0 \<and> ?A1" and b: "consti \<le> c \<and> c < ?nc \<and> j < length vec_step"
    show "wire_idx stepindex n2 c j < length heights"
    proof (cases "c = consti")
      case True
      then show ?thesis using a b by simp
    next
      case False
      then have "Suc consti \<le> c \<and> c < ?nc \<and> j < length vec_step" using b by simp
      then show ?thesis using a by blast
    qed
  qed (use lt in \<open>simp_all add: Suc_leD\<close>)
  note inner = Mesh_stepi_loop_eq[of 0 fl M heights n2 stepindex vec_step vidx_step vh consti
      ?ptc v]
  show ?case
  proof (cases ?A0)
    case False
    have "?L consti 0 (?ptc, fl, v) = None"
      using inner unfolding if_not_P[OF False] by simp
    then have "?C consti (pt, fl, v) = None" unfolding step by simp
    then show ?thesis unfolding all using False by simp
  next
    case a0: True
    from inner[unfolded if_P[OF a0] sg] obtain pt1 fl1 where r:
      "?L consti 0 (?ptc, fl, v) =
         Some (pt1, fl1, v @ renumber (index fl) (map (seg_frag fl) (?S consti)))"
      "line_base fl1 = line_base fl"
      "index fl1 = index fl + length (?S consti)"
      "vidx_step < 3 \<and> vh < 3 \<longrightarrow> get4 pt1 3 = get4 ?ptc 3"
      by auto
    let ?v1 = "v @ renumber (index fl) (map (seg_frag fl) (?S consti))"
    let ?R = "concat (map ?S [Suc consti..<?nc])"
    have w1: "get4 pt1 3 = Fin 1" using r(4) bnd wc by simp
    have step2: "?C consti (pt, fl, v) = ?C (Suc consti) (pt1, fl1, ?v1)"
      unfolding step r(1) by simp
    note IH = Suc.hyps(1)[OF m w1, of fl1 ?v1]
    have out: "?v1 @ renumber (index fl1) (map (seg_frag fl1) ?R) =
        v @ renumber (index fl) (map (seg_frag fl) (concat (map ?S [consti..<?nc])))"
      unfolding lst using renumber_seg_frag_cong[OF r(2)] r(3)
      by (simp add: renumber_append)
    have len: "index fl1 + length ?R = index fl + length (concat (map ?S [consti..<?nc]))"
      unfolding lst using r(3) by simp
    show ?thesis
    proof (cases ?A1)
      case False
      have "?C (Suc consti) (pt1, fl1, ?v1) = None"
        using IH unfolding if_not_P[OF False] .
      then show ?thesis unfolding all step2 using False by simp
    next
      case a1: True
      from IH[unfolded if_P[OF a1]] obtain pt' fl' where q:
        "?C (Suc consti) (pt1, fl1, ?v1) =
           Some (pt', fl', ?v1 @ renumber (index fl1) (map (seg_frag fl1) ?R))"
        "line_base fl' = line_base fl1"
        "index fl' = index fl1 + length ?R"
        "get4 pt' 3 = Fin 1"
        by blast
      have 1: "?C consti (pt, fl, v) =
          Some (pt', fl', v @ renumber (index fl) (map (seg_frag fl)
            (concat (map ?S [consti..<?nc]))))"
        unfolding step2 q(1) out ..
      have 2: "line_base fl' = line_base fl" using q(2) r(2) by simp
      have 3: "index fl' = index fl + length (concat (map ?S [consti..<?nc]))"
        using q(3) len by simp
      have A: "?A0 \<and> ?A1" using a0 a1 by simp
      show ?thesis
        unfolding all if_P[OF A] using 1 2 3 q(4) by blast
    qed
  qed
qed

lemma grid_index_less: "i1 < n1 \<Longrightarrow> i2 < n2 \<Longrightarrow> i1 * n2 + i2 < n1 * (n2::nat)"
proof -
  assume a: "i1 < n1" and b: "i2 < n2"
  have "i1 * n2 + i2 < i1 * n2 + n2" using b by simp
  also have "\<dots> = Suc i1 * n2" by simp
  also have "\<dots> \<le> n1 * n2" using a by (intro mult_le_mono1) simp
  finally show ?thesis .
qed

lemma grid_reads_iff:
  "(\<forall>i1 i2. i1 < n1 \<and> i2 < n2 \<longrightarrow> i1 * n2 + i2 < len) =
   (n1 = 0 \<or> n2 = 0 \<or> n1 * n2 \<le> (len::nat))"
proof (cases "n1 = 0 \<or> n2 = 0")
  case True
  then show ?thesis by auto
next
  case False
  then have p: "0 < n1" "0 < n2" by simp_all
  have last: "(n1 - 1) * n2 + (n2 - 1) = n1 * n2 - 1"
  proof -
    obtain a where a: "n1 = Suc a" using p(1) by (cases n1) simp_all
    obtain b where b: "n2 = Suc b" using p(2) by (cases n2) simp_all
    show ?thesis unfolding a b by simp
  qed
  have pos: "0 < n1 * n2" using p by simp
  show ?thesis
  proof
    assume a: "\<forall>i1 i2. i1 < n1 \<and> i2 < n2 \<longrightarrow> i1 * n2 + i2 < len"
    have "n1 - 1 < n1 \<and> n2 - 1 < n2" using p by simp
    then have "(n1 - 1) * n2 + (n2 - 1) < len" using a by blast
    then have "n1 * n2 \<le> len" unfolding last using pos by simp
    then show "n1 = 0 \<or> n2 = 0 \<or> n1 * n2 \<le> len" by simp
  next
    assume "n1 = 0 \<or> n2 = 0 \<or> n1 * n2 \<le> len"
    then have le: "n1 * n2 \<le> len" using False by simp
    show "\<forall>i1 i2. i1 < n1 \<and> i2 < n2 \<longrightarrow> i1 * n2 + i2 < len"
    proof (intro allI impI)
      fix i1 i2
      assume "i1 < n1 \<and> i2 < n2"
      then have "i1 * n2 + i2 < n1 * n2" by (simp add: grid_index_less)
      then show "i1 * n2 + i2 < len" using le by simp
    qed
  qed
qed

lemma wire_reads_pass0:
  "(\<forall>c j. 0 \<le> c \<and> c < length pos2 \<and> j < length pos1 \<longrightarrow>
      wire_idx 0 (length pos2) c j < length heights) = lines_readable pos1 pos2 heights"
proof -
  have "(\<forall>c j. 0 \<le> c \<and> c < length pos2 \<and> j < length pos1 \<longrightarrow>
      wire_idx 0 (length pos2) c j < length heights) =
    (\<forall>i1 i2. i1 < length pos1 \<and> i2 < length pos2 \<longrightarrow> i1 * length pos2 + i2 < length heights)"
    by (auto simp: wire_idx_def)
  then show ?thesis unfolding grid_reads_iff lines_readable_def .
qed

lemma wire_reads_pass1:
  "(\<forall>c j. 0 \<le> c \<and> c < length pos1 \<and> j < length pos2 \<longrightarrow>
      wire_idx (Suc 0) (length pos2) c j < length heights) = lines_readable pos1 pos2 heights"
proof -
  have "(\<forall>c j. 0 \<le> c \<and> c < length pos1 \<and> j < length pos2 \<longrightarrow>
      wire_idx (Suc 0) (length pos2) c j < length heights) =
    (\<forall>i1 i2. i1 < length pos1 \<and> i2 < length pos2 \<longrightarrow> i1 * length pos2 + i2 < length heights)"
    by (auto simp: wire_idx_def)
  then show ?thesis unfolding grid_reads_iff lines_readable_def .
qed

lemma spec_grid_lines_segments:
  "concat (map (\<lambda>line. spec_segments (map (transform M) line))
     (spec_grid_lines pos1 pos2 heights dirn)) =
   concat (map (\<lambda>c. spec_segments (wire_line M pos1 pos2 heights dirn 0 c)) [0..<length pos2]) @
   concat (map (\<lambda>c. spec_segments (wire_line M pos1 pos2 heights dirn (Suc 0) c)) [0..<length pos1])"
  by (simp add: spec_grid_lines_def wire_line_def comp_def del: upt_Suc)

lemma Mesh_stepindex_loop_unroll:
  "Mesh_stepindex_loop M pos1 pos2 heights n2 vh v1 v2 0 s =
     Option.bind (Mesh_consti_loop M heights n2 0 pos1 pos2 v1 v2 vh 0 s)
       (Mesh_consti_loop M heights n2 (Suc 0) pos2 pos1 v2 v1 vh 0)"
proof -
  have 2: "Mesh_stepindex_loop M pos1 pos2 heights n2 vh v1 v2 (Suc (Suc 0)) = Some"
  proof
    fix s show "Mesh_stepindex_loop M pos1 pos2 heights n2 vh v1 v2 (Suc (Suc 0)) s = Some s"
      by (cases s) (simp add: Mesh_stepindex_loop.simps[of _ _ _ _ _ _ _ _ "Suc (Suc 0)"])
  qed
  have 1: "Mesh_stepindex_loop M pos1 pos2 heights n2 vh v1 v2 (Suc 0) =
      Mesh_consti_loop M heights n2 (Suc 0) pos2 pos1 v2 v1 vh 0"
  proof
    fix s show "Mesh_stepindex_loop M pos1 pos2 heights n2 vh v1 v2 (Suc 0) s =
      Mesh_consti_loop M heights n2 (Suc 0) pos2 pos1 v2 v1 vh 0 s"
      by (cases s) (simp add: Mesh_stepindex_loop.simps[of _ _ _ _ _ _ _ _ "Suc 0"] 2 Let_def)
  qed
  show ?thesis
    by (cases s) (simp add: Mesh_stepindex_loop.simps[of _ _ _ _ _ _ _ _ 0] 1 Let_def)
qed

lemma getLineFragments_eq:
  "getLineFragments M pos1 pos2 heights dirn lp sp v =
     (if lp = None \<or> lines_readable pos1 pos2 heights
      then Some (v @ spec_wireframe M pos1 pos2 heights dirn lp sp) else None)"
proof (cases "lp = None")
  case True
  then show ?thesis by (simp add: getLineFragments_def spec_wireframe_def)
next
  case lp: False
  obtain vh v1 v2 where vi: "getVecIdxs dirn = (vh, v1, v2)" by (cases "getVecIdxs dirn")
  let ?own = "Mesh pos1 pos2 heights dirn lp sp"
  let ?fl = "Fragment\<lparr>ftype := FR_LINESEG, surfaceprop := None, lineprop := lp,
      object := Some ?own\<rparr>"
  let ?pt = "Vec4 (Fin 0) (Fin 0) (Fin 0) (Fin 1)"
  let ?n2 = "length pos2"
  let ?S0 = "\<lambda>c. spec_segments (wire_line M pos1 pos2 heights dirn 0 c)"
  let ?S1 = "\<lambda>c. spec_segments (wire_line M pos1 pos2 heights dirn (Suc 0) c)"
  let ?C0 = "Mesh_consti_loop M heights ?n2 0 pos1 pos2 v1 v2 vh 0"
  let ?C1 = "Mesh_consti_loop M heights ?n2 (Suc 0) pos2 pos1 v2 v1 vh 0"
  have unf: "getLineFragments M pos1 pos2 heights dirn lp sp v =
      Option.bind (Option.bind (?C0 (?pt, ?fl, v)) ?C1) (\<lambda>(pt, fl, v). Some v)"
    unfolding getLineFragments_def if_not_P[OF lp] vi
    by (simp add: Mesh_stepindex_loop_unroll Let_def)
  have P0: "if (\<forall>c j. 0 \<le> c \<and> c < length pos2 \<and> j < length pos1 \<longrightarrow>
               wire_idx 0 ?n2 c j < length heights)
     then \<exists>pt' fl'. ?C0 (?pt, ?fl, v) =
          Some (pt', fl', v @ renumber (index ?fl) (map (seg_frag ?fl)
            (concat (map ?S0 [0..<length pos2])))) \<and>
        line_base fl' = line_base ?fl \<and>
        index fl' = index ?fl + length (concat (map ?S0 [0..<length pos2])) \<and>
        get4 pt' 3 = Fin 1
     else ?C0 (?pt, ?fl, v) = None"
    by (rule Mesh_consti_loop_eq[OF vi]) simp_all
  have P1: "if (\<forall>c j. 0 \<le> c \<and> c < length pos1 \<and> j < length pos2 \<longrightarrow>
               wire_idx (Suc 0) ?n2 c j < length heights)
     then \<exists>pt' fl'. ?C1 (pt1, fl1, v1) =
          Some (pt', fl', v1 @ renumber (index fl1) (map (seg_frag fl1)
            (concat (map ?S1 [0..<length pos1])))) \<and>
        line_base fl' = line_base fl1 \<and>
        index fl' = index fl1 + length (concat (map ?S1 [0..<length pos1])) \<and>
        get4 pt' 3 = Fin 1
     else ?C1 (pt1, fl1, v1) = None" if "get4 pt1 3 = Fin 1" for pt1 fl1 v1
    by (rule Mesh_consti_loop_eq[OF vi that]) simp_all
  show ?thesis
  proof (cases "lines_readable pos1 pos2 heights")
    case False
    have "?C0 (?pt, ?fl, v) = None"
      using P0 unfolding wire_reads_pass0 if_not_P[OF False] .
    moreover have "\<not> (lp = None \<or> lines_readable pos1 pos2 heights)" using lp False by blast
    ultimately show ?thesis unfolding unf by simp
  next
    case True
    from P0[unfolded wire_reads_pass0 if_P[OF True]] obtain pt1 fl1 where r:
      "?C0 (?pt, ?fl, v) = Some (pt1, fl1, v @ renumber (index ?fl) (map (seg_frag ?fl)
            (concat (map ?S0 [0..<length pos2]))))"
      "line_base fl1 = line_base ?fl"
      "index fl1 = index ?fl + length (concat (map ?S0 [0..<length pos2]))"
      "get4 pt1 3 = Fin 1"
      by blast
    let ?v1 = "v @ renumber (index ?fl) (map (seg_frag ?fl) (concat (map ?S0 [0..<length pos2])))"
    from P1[OF r(4), of fl1 ?v1, unfolded wire_reads_pass1 if_P[OF True]] obtain pt2 fl2 where q:
      "?C1 (pt1, fl1, ?v1) = Some (pt2, fl2, ?v1 @ renumber (index fl1) (map (seg_frag fl1)
            (concat (map ?S1 [0..<length pos1]))))"
      by blast
    have i0: "index ?fl = 0" by (simp add: Fragment_def)
    have "getLineFragments M pos1 pos2 heights dirn lp sp v =
        Some (?v1 @ renumber (index fl1) (map (seg_frag fl1) (concat (map ?S1 [0..<length pos1]))))"
      unfolding unf r(1) Option.bind.simps q by simp
    also have "?v1 @ renumber (index fl1) (map (seg_frag fl1) (concat (map ?S1 [0..<length pos1])))
        = v @ renumber 0 (map (seg_frag ?fl)
            (concat (map ?S0 [0..<length pos2]) @ concat (map ?S1 [0..<length pos1])))"
      unfolding renumber_seg_frag_cong[OF r(2)] r(3) i0 by (simp add: renumber_append)
    also have "\<dots> = v @ spec_wireframe M pos1 pos2 heights dirn lp sp"
      unfolding spec_wireframe_def if_not_P[OF lp] spec_grid_lines_segments
        renumber_seg_frag_LineSegment ..
    finally show ?thesis using True by simp
  qed
qed

section \<open>Mesh: the surface loops\<close>

lemma renumber_tri_frag_base:
  "renumber k (map (tri_frag f) xs) = renumber k (map (tri_frag (tri_base f)) xs)"
  by (induction xs arbitrary: k) (simp_all add: tri_frag_def tri_base_def)

lemma renumber_tri_frag_cong:
  assumes "tri_base f' = tri_base f"
  shows "renumber k (map (tri_frag f') xs) = renumber k (map (tri_frag f) xs)"
proof -
  have "renumber k (map (tri_frag f') xs) = renumber k (map (tri_frag (tri_base f')) xs)"
    by (rule renumber_tri_frag_base)
  also have "\<dots> = renumber k (map (tri_frag (tri_base f)) xs)"
    by (simp only: assms)
  also have "\<dots> = renumber k (map (tri_frag f) xs)"
    by (rule renumber_tri_frag_base[symmetric])
  finally show ?thesis .
qed

lemma renumber_tri_frag_TriangleFragment:
  "renumber k (map (tri_frag (Fragment\<lparr>ftype := FR_TRIANGLE, surfaceprop := sp, lineprop := None,
           object := Some owner\<rparr>)) xs) = renumber k (map (TriangleFragment owner sp) xs)"
  by (induction xs arbitrary: k) (simp_all add: tri_frag_def TriangleFragment_def Fragment_def)

lemma surf_step_refl: "corners_w s \<Longrightarrow> surf_step s [] s"
  by (simp add: surf_step_def)

lemma surf_step_trans:
  assumes "surf_step s ts s'" and "surf_step s' us s''"
  shows "surf_step s (ts @ us) s''"
proof -
  have "renumber (index (st_frag s')) (map (tri_frag (st_frag s')) us) =
      renumber (index (st_frag s) + length ts) (map (tri_frag (st_frag s)) us)"
    using assms(1) renumber_tri_frag_cong[of "st_frag s'" "st_frag s"]
    by (simp add: surf_step_def)
  then show ?thesis
    using assms by (simp add: surf_step_def renumber_append)
qed

lemma get4_axis_point_w: "get4 (axis_point dirn h a b) 3 = Fin 1"
  by (cases dirn) simp_all

lemma Mesh_cell_eq:
  assumes vi: "getVecIdxs dirn = (vh, v1, v2)" and w: "corners_w s"
  shows "if (i1 + 1) * length pos2 + (i2 + 1) < length heights
     then \<exists>s'. Mesh_cell M pos1 pos2 heights (length pos2) vh v1 v2 i1 i2 s = Some s' \<and>
            surf_step s (spec_cell M pos1 pos2 heights dirn i1 i2) s'
     else Mesh_cell M pos1 pos2 heights (length pos2) vh v1 v2 i1 i2 s = None"
proof -
  obtain p0 p1 p2 p3 fs v where s: "s = (p0, p1, p2, p3, fs, v)" by (cases s)
  have w4: "get4 p0 3 = Fin 1" "get4 p1 3 = Fin 1" "get4 p2 3 = Fin 1" "get4 p3 3 = Fin 1"
    using w by (simp_all add: corners_w_def s)
  let ?n2 = "length pos2"
  let ?G = "spec_grid_point pos1 pos2 heights dirn"
  show ?thesis
  proof (cases "(i1 + 1) * ?n2 + (i2 + 1) < length heights")
    case False
    have "Mesh_cell M pos1 pos2 heights ?n2 vh v1 v2 i1 i2 s = None"
      using False by (simp add: Mesh_cell_def s readV_def Let_def)
    then show ?thesis using False by simp
  next
    case True
    have r: "readV heights (i1 * ?n2 + i2) = Some (heights ! (i1 * ?n2 + i2))"
      "readV heights ((i1 + 1) * ?n2 + i2) = Some (heights ! ((i1 + 1) * ?n2 + i2))"
      "readV heights (i1 * ?n2 + (i2 + 1)) = Some (heights ! (i1 * ?n2 + (i2 + 1)))"
      "readV heights ((i1 + 1) * ?n2 + (i2 + 1)) = Some (heights ! ((i1 + 1) * ?n2 + (i2 + 1)))"
      using True by (simp_all add: readV_def)
    have c: "set4 (set4 (set4 p0 vh (heights ! (i1 * ?n2 + i2))) v1 (pos1 ! i1)) v2 (pos2 ! i2)
          = ?G i1 i2"
      "set4 (set4 (set4 p1 vh (heights ! ((i1 + 1) * ?n2 + i2))) v1 (pos1 ! (i1 + 1))) v2
          (pos2 ! i2) = ?G (i1 + 1) i2"
      "set4 (set4 (set4 p2 vh (heights ! (i1 * ?n2 + (i2 + 1)))) v1 (pos1 ! i1)) v2
          (pos2 ! (i2 + 1)) = ?G i1 (i2 + 1)"
      "set4 (set4 (set4 p3 vh (heights ! ((i1 + 1) * ?n2 + (i2 + 1)))) v1 (pos1 ! (i1 + 1))) v2
          (pos2 ! (i2 + 1)) = ?G (i1 + 1) (i2 + 1)"
      unfolding spec_grid_point_def
      by (rule axis_point_set4(3)[OF vi w4(1)] axis_point_set4(3)[OF vi w4(2)]
          axis_point_set4(3)[OF vi w4(3)] axis_point_set4(3)[OF vi w4(4)])+
    let ?fin = "isfinite4 (add4 (add4 (add4 (?G i1 i2) (?G (i1 + 1) i2)) (?G i1 (i2 + 1)))
        (?G (i1 + 1) (i2 + 1)))"
    let ?fA = "fs\<lparr>points1 := transform M (?G (i1 + 1) i2),
        points2 := transform M (?G i1 (i2 + 1)), points0 := transform M (?G i1 i2)\<rparr>"
    let ?fB = "(bumpIndex ?fA)\<lparr>points0 := transform M (?G (i1 + 1) (i2 + 1))\<rparr>"
    let ?s' = "if ?fin
               then (?G i1 i2, ?G (i1 + 1) i2, ?G i1 (i2 + 1), ?G (i1 + 1) (i2 + 1),
                     bumpIndex ?fB, (v @ [?fA]) @ [?fB])
               else (?G i1 i2, ?G (i1 + 1) i2, ?G i1 (i2 + 1), ?G (i1 + 1) (i2 + 1), fs, v)"
    have e: "Mesh_cell M pos1 pos2 heights ?n2 vh v1 v2 i1 i2 s = Some ?s'"
      unfolding Mesh_cell_def s prod.case r Option.bind.simps Let_def c
      by (simp add: transform_def)
    have cw: "corners_w ?s'"
      by (simp add: corners_w_def spec_grid_point_def get4_axis_point_w)
    have st: "surf_step s (spec_cell M pos1 pos2 heights dirn i1 i2) ?s'"
    proof (cases ?fin)
      case True
      then show ?thesis
        unfolding surf_step_def spec_cell_def Let_def if_P[OF True] s
        using cw[unfolded if_P[OF True]]
        by (simp add: st_out_def st_frag_def tri_frag_def tri_base_def bumpIndex_def)
    next
      case False
      then show ?thesis
        unfolding surf_step_def spec_cell_def Let_def if_not_P[OF False] s
        using cw[unfolded if_not_P[OF False]]
        by (simp add: st_out_def st_frag_def)
    qed
    show ?thesis unfolding if_P[OF True] using e st by blast
  qed
qed

lemma Mesh_i2_loop_eq:
  assumes vi: "getVecIdxs dirn = (vh, v1, v2)" and w: "corners_w s"
  shows "if (\<forall>j. i2 \<le> j \<and> j + 1 < length pos2 \<longrightarrow>
               (i1 + 1) * length pos2 + (j + 1) < length heights)
     then \<exists>s'. Mesh_i2_loop M pos1 pos2 heights (length pos2) vh v1 v2 i1 i2 s = Some s' \<and>
            surf_step s (concat (map (spec_cell M pos1 pos2 heights dirn i1)
                                    [i2..<length pos2 - 1])) s'
     else Mesh_i2_loop M pos1 pos2 heights (length pos2) vh v1 v2 i1 i2 s = None"
  using w
proof (induction "length pos2 - 1 - i2" arbitrary: i2 s)
  case 0
  then have "\<not> i2 + 1 < length pos2" by simp
  then show ?case
    using surf_step_refl[OF 0(2)]
    by (simp add: Mesh_i2_loop.simps[of _ _ _ _ "length pos2" _ _ _ _ i2])
next
  case (Suc m)
  let ?n2 = "length pos2"
  let ?L = "Mesh_i2_loop M pos1 pos2 heights ?n2 vh v1 v2 i1"
  let ?B = "\<lambda>j. (i1 + 1) * ?n2 + (j + 1) < length heights"
  let ?T = "spec_cell M pos1 pos2 heights dirn i1"
  have lt: "i2 + 1 < ?n2" "i2 < ?n2 - 1" using Suc.hyps(2) by simp_all
  have m: "m = ?n2 - 1 - Suc i2" using Suc.hyps(2) by simp
  have step: "?L i2 s = Option.bind (Mesh_cell M pos1 pos2 heights ?n2 vh v1 v2 i1 i2 s) (?L (Suc i2))"
    using lt by (subst Mesh_i2_loop.simps) simp
  have lst: "[i2..<?n2 - 1] = i2 # [Suc i2..<?n2 - 1]"
    using lt by (simp add: upt_conv_Cons)
  let ?A1 = "\<forall>j. Suc i2 \<le> j \<and> j + 1 < ?n2 \<longrightarrow> ?B j"
  have all: "(\<forall>j. i2 \<le> j \<and> j + 1 < ?n2 \<longrightarrow> ?B j) = (?B i2 \<and> ?A1)"
  proof (intro iffI conjI allI impI)
    fix j
    assume a: "?B i2 \<and> ?A1" and b: "i2 \<le> j \<and> j + 1 < ?n2"
    show "?B j"
    proof (cases "j = i2")
      case True
      then show ?thesis using a by simp
    next
      case False
      then have "Suc i2 \<le> j \<and> j + 1 < ?n2" using b by simp
      then show ?thesis using a by blast
    qed
  qed (use lt in \<open>simp_all add: Suc_leD\<close>)
  note cell = Mesh_cell_eq[OF vi Suc.prems, of i1 pos2 i2 heights M pos1]
  show ?case
  proof (cases "?B i2")
    case False
    have "Mesh_cell M pos1 pos2 heights ?n2 vh v1 v2 i1 i2 s = None"
      using cell unfolding if_not_P[OF False] .
    then have "?L i2 s = None" unfolding step by simp
    then show ?thesis unfolding all using False by simp
  next
    case b: True
    from cell[unfolded if_P[OF b]] obtain s1 where r:
      "Mesh_cell M pos1 pos2 heights ?n2 vh v1 v2 i1 i2 s = Some s1"
      "surf_step s (?T i2) s1"
      by blast
    have w1: "corners_w s1" using r(2) by (simp add: surf_step_def)
    have step2: "?L i2 s = ?L (Suc i2) s1" unfolding step r(1) by simp
    note IH = Suc.hyps(1)[OF m w1]
    show ?thesis
    proof (cases ?A1)
      case False
      have "?L (Suc i2) s1 = None" using IH unfolding if_not_P[OF False] .
      then show ?thesis unfolding all step2 using False by simp
    next
      case a1: True
      from IH[unfolded if_P[OF a1]] obtain s' where q:
        "?L (Suc i2) s1 = Some s'"
        "surf_step s1 (concat (map ?T [Suc i2..<?n2 - 1])) s'"
        by blast
      have "surf_step s (concat (map ?T [i2..<?n2 - 1])) s'"
        unfolding lst using surf_step_trans[OF r(2) q(2)] by simp
      moreover have "?B i2 \<and> ?A1" using b a1 by simp
      ultimately show ?thesis unfolding all step2 using q(1) by simp
    qed
  qed
qed

lemma Mesh_i1_loop_eq:
  assumes vi: "getVecIdxs dirn = (vh, v1, v2)" and w: "corners_w s"
  shows "if (\<forall>i j. i1 \<le> i \<and> i + 1 < length pos1 \<and> j + 1 < length pos2 \<longrightarrow>
               (i + 1) * length pos2 + (j + 1) < length heights)
     then \<exists>s'. Mesh_i1_loop M pos1 pos2 heights (length pos1) (length pos2) vh v1 v2 i1 s = Some s' \<and>
            surf_step s
              (concat (map (\<lambda>i. concat (map (spec_cell M pos1 pos2 heights dirn i)
                                            [0..<length pos2 - 1]))
                         [i1..<length pos1 - 1])) s'
     else Mesh_i1_loop M pos1 pos2 heights (length pos1) (length pos2) vh v1 v2 i1 s = None"
  using w
proof (induction "length pos1 - 1 - i1" arbitrary: i1 s)
  case 0
  then have "\<not> i1 + 1 < length pos1" by simp
  then show ?case
    using surf_step_refl[OF 0(2)]
    by (simp add: Mesh_i1_loop.simps[of _ _ _ _ "length pos1" _ _ _ _ i1])
next
  case (Suc m)
  let ?n1 = "length pos1"
  let ?n2 = "length pos2"
  let ?L = "Mesh_i1_loop M pos1 pos2 heights ?n1 ?n2 vh v1 v2"
  let ?I = "Mesh_i2_loop M pos1 pos2 heights ?n2 vh v1 v2"
  let ?B = "\<lambda>i j. (i + 1) * ?n2 + (j + 1) < length heights"
  let ?T = "\<lambda>i. concat (map (spec_cell M pos1 pos2 heights dirn i) [0..<?n2 - 1])"
  have lt: "i1 + 1 < ?n1" "i1 < ?n1 - 1" using Suc.hyps(2) by simp_all
  have m: "m = ?n1 - 1 - Suc i1" using Suc.hyps(2) by simp
  have step: "?L i1 s = Option.bind (?I i1 0 s) (?L (Suc i1))"
    using lt by (subst Mesh_i1_loop.simps) simp
  have lst: "[i1..<?n1 - 1] = i1 # [Suc i1..<?n1 - 1]"
    using lt by (simp add: upt_conv_Cons)
  let ?A0 = "\<forall>j. 0 \<le> j \<and> j + 1 < ?n2 \<longrightarrow> ?B i1 j"
  let ?A1 = "\<forall>i j. Suc i1 \<le> i \<and> i + 1 < ?n1 \<and> j + 1 < ?n2 \<longrightarrow> ?B i j"
  have all: "(\<forall>i j. i1 \<le> i \<and> i + 1 < ?n1 \<and> j + 1 < ?n2 \<longrightarrow> ?B i j) = (?A0 \<and> ?A1)"
  proof (intro iffI conjI allI impI)
    fix i j
    assume a: "?A0 \<and> ?A1" and b: "i1 \<le> i \<and> i + 1 < ?n1 \<and> j + 1 < ?n2"
    show "?B i j"
    proof (cases "i = i1")
      case True
      then show ?thesis using a b by simp
    next
      case False
      then have "Suc i1 \<le> i \<and> i + 1 < ?n1 \<and> j + 1 < ?n2" using b by simp
      then show ?thesis using a by blast
    qed
  qed (use lt in \<open>simp_all add: Suc_leD\<close>)
  note inner = Mesh_i2_loop_eq[OF vi Suc.prems, of 0 pos2 i1 heights M pos1]
  show ?case
  proof (cases ?A0)
    case False
    have "?I i1 0 s = None" using inner unfolding if_not_P[OF False] .
    then have "?L i1 s = None" unfolding step by simp
    then show ?thesis unfolding all using False by simp
  next
    case a0: True
    from inner[unfolded if_P[OF a0]] obtain s1 where r:
      "?I i1 0 s = Some s1" "surf_step s (?T i1) s1"
      by blast
    have w1: "corners_w s1" using r(2) by (simp add: surf_step_def)
    have step2: "?L i1 s = ?L (Suc i1) s1" unfolding step r(1) by simp
    note IH = Suc.hyps(1)[OF m w1]
    show ?thesis
    proof (cases ?A1)
      case False
      have "?L (Suc i1) s1 = None" using IH unfolding if_not_P[OF False] .
      then show ?thesis unfolding all step2 using False by simp
    next
      case a1: True
      from IH[unfolded if_P[OF a1]] obtain s' where q:
        "?L (Suc i1) s1 = Some s'"
        "surf_step s1 (concat (map ?T [Suc i1..<?n1 - 1])) s'"
        by blast
      have "surf_step s (concat (map ?T [i1..<?n1 - 1])) s'"
        unfolding lst using surf_step_trans[OF r(2) q(2)] by simp
      moreover have "?A0 \<and> ?A1" using a0 a1 by simp
      ultimately show ?thesis unfolding all step2 using q(1) by simp
    qed
  qed
qed

lemma grid_last_index: "0 < n1 \<Longrightarrow> 0 < n2 \<Longrightarrow> (n1 - 1) * n2 + (n2 - 1) = n1 * n2 - (1::nat)"
proof -
  assume p: "0 < n1" "0 < n2"
  obtain a where a: "n1 = Suc a" using p(1) by (cases n1) simp_all
  obtain b where b: "n2 = Suc b" using p(2) by (cases n2) simp_all
  show ?thesis unfolding a b by simp
qed

lemma surface_reads_iff:
  "(\<forall>i j. 0 \<le> i \<and> i + 1 < length pos1 \<and> j + 1 < length pos2 \<longrightarrow>
      (i + 1) * length pos2 + (j + 1) < length heights) = surface_readable pos1 pos2 heights"
proof (cases "length pos1 < 2 \<or> length pos2 < 2")
  case True
  then show ?thesis unfolding surface_readable_def by auto
next
  case False
  let ?n1 = "length pos1"
  let ?n2 = "length pos2"
  have p: "2 \<le> ?n1" "2 \<le> ?n2" using False by simp_all
  have pp: "0 < ?n1" "0 < ?n2" using p by linarith+
  have pos: "0 < ?n1 * ?n2" using pp by (simp del: length_greater_0_conv)
  show ?thesis
  proof
    assume a: "\<forall>i j. 0 \<le> i \<and> i + 1 < ?n1 \<and> j + 1 < ?n2 \<longrightarrow>
      (i + 1) * ?n2 + (j + 1) < length heights"
    have "0 \<le> ?n1 - 2 \<and> (?n1 - 2) + 1 < ?n1 \<and> (?n2 - 2) + 1 < ?n2" using p by arith
    then have b: "((?n1 - 2) + 1) * ?n2 + ((?n2 - 2) + 1) < length heights" using a by blast
    have e: "(?n1 - 2) + 1 = ?n1 - 1" "(?n2 - 2) + 1 = ?n2 - 1" using p by arith+
    have "?n1 * ?n2 - 1 < length heights"
      using b unfolding e grid_last_index[OF pp] .
    then have "?n1 * ?n2 \<le> length heights" using pos by simp
    then show "surface_readable pos1 pos2 heights" by (simp add: surface_readable_def)
  next
    assume "surface_readable pos1 pos2 heights"
    then have le: "?n1 * ?n2 \<le> length heights" using False by (simp add: surface_readable_def)
    show "\<forall>i j. 0 \<le> i \<and> i + 1 < ?n1 \<and> j + 1 < ?n2 \<longrightarrow>
      (i + 1) * ?n2 + (j + 1) < length heights"
    proof (intro allI impI)
      fix i j
      assume "0 \<le> i \<and> i + 1 < ?n1 \<and> j + 1 < ?n2"
      then have "(i + 1) * ?n2 + (j + 1) < ?n1 * ?n2" by (intro grid_index_less) simp_all
      then show "(i + 1) * ?n2 + (j + 1) < length heights" using le by simp
    qed
  qed
qed

lemma getSurfaceFragments_eq:
  "getSurfaceFragments M pos1 pos2 heights dirn lp sp v =
     (if sp = None \<or> surface_readable pos1 pos2 heights
      then Some (v @ spec_surface M pos1 pos2 heights dirn lp sp) else None)"
proof (cases "sp = None")
  case True
  then show ?thesis by (simp add: getSurfaceFragments_def spec_surface_def)
next
  case sp: False
  obtain vh v1 v2 where vi: "getVecIdxs dirn = (vh, v1, v2)" by (cases "getVecIdxs dirn")
  let ?own = "Mesh pos1 pos2 heights dirn lp sp"
  let ?fs = "Fragment\<lparr>ftype := FR_TRIANGLE, surfaceprop := sp, lineprop := None,
      object := Some ?own\<rparr>"
  let ?p = "set4 (Vec4 (Fin 0) (Fin 0) (Fin 0) (Fin 0)) 3 (Fin 1)"
  let ?s = "(?p, ?p, ?p, ?p, ?fs, v)"
  let ?L = "Mesh_i1_loop M pos1 pos2 heights (length pos1) (length pos2) vh v1 v2 0"
  let ?T = "concat (map (\<lambda>i. concat (map (spec_cell M pos1 pos2 heights dirn i)
                                            [0..<length pos2 - 1])) [0..<length pos1 - 1])"
  have unf: "getSurfaceFragments M pos1 pos2 heights dirn lp sp v =
      Option.bind (?L ?s) (\<lambda>(p0, p1, p2, p3, fs, v). Some v)"
    unfolding getSurfaceFragments_def if_not_P[OF sp] vi by (simp add: Let_def)
  have w: "corners_w ?s" by (simp add: corners_w_def)
  note P = Mesh_i1_loop_eq[OF vi w, of 0 pos1 pos2 heights M, unfolded surface_reads_iff]
  show ?thesis
  proof (cases "surface_readable pos1 pos2 heights")
    case False
    have "?L ?s = None" using P unfolding if_not_P[OF False] .
    moreover have "\<not> (sp = None \<or> surface_readable pos1 pos2 heights)" using sp False by blast
    ultimately show ?thesis unfolding unf by simp
  next
    case True
    from P[unfolded if_P[OF True]] obtain s' where r: "?L ?s = Some s'" "surf_step ?s ?T s'"
      by blast
    have "st_out s' = v @ renumber 0 (map (tri_frag ?fs) ?T)"
      using r(2) by (simp add: surf_step_def st_out_def st_frag_def Fragment_def)
    then have "Option.bind (?L ?s) (\<lambda>(p0, p1, p2, p3, fs, v). Some v) =
        Some (v @ renumber 0 (map (tri_frag ?fs) ?T))"
      unfolding r(1) by (cases s') (simp add: st_out_def)
    also have "v @ renumber 0 (map (tri_frag ?fs) ?T) = v @ spec_surface M pos1 pos2 heights dirn lp sp"
      unfolding spec_surface_def if_not_P[OF sp] renumber_tri_frag_TriangleFragment ..
    finally show ?thesis unfolding unf using True by simp
  qed
qed

lemma Mesh_getFragments_eq:
  "Mesh_getFragments M pos1 pos2 heights dirn lp sp v =
     (if readable (Mesh pos1 pos2 heights dirn lp sp)
      then Some (v @ spec_fragments M (Mesh pos1 pos2 heights dirn lp sp)) else None)"
  by (simp add: Mesh_getFragments_def getLineFragments_eq getSurfaceFragments_eq)

section \<open>The traversal\<close>

lemma getFragments_eq:
  "getFragments M obj v =
     (if readable obj then Some (v @ spec_fragments M obj) else None)"
  "ObjectContainer_loop M objs v =
     (if list_all readable objs then Some (v @ concat (map (spec_fragments M) objs)) else None)"
proof (induction M obj v and M objs v rule: getFragments_ObjectContainer_loop.induct)
  case (1 outerM v)
  show ?case by simp
next
  case (2 outerM p0 p1 p2 sp v)
  show ?case by (simp add: Triangle_getFragments_eq)
next
  case (3 outerM pts lp v)
  show ?case by (simp add: PolyLine_getFragments_eq)
next
  case (4 outerM pos1 pos2 heights dirn lp sp v)
  show ?case unfolding getFragments.simps by (rule Mesh_getFragments_eq)
next
  case (5 outerM x y z sizes pth sc lineedge surfacefill v)
  show ?case by (simp add: Points_getFragments_eq)
next
  case (6 outerM objM objs v)
  then show ?case by (simp add: Let_def)
next
  case (7 totM v)
  show ?case by simp
next
  case (8 totM obj objs v)
  show ?case
  proof (cases "readable obj")
    case False
    then show ?thesis using 8(1) by simp
  next
    case True
    then have "getFragments totM obj v = Some (v @ spec_fragments totM obj)"
      using 8(1) by simp
    then show ?thesis using 8(2) True by simp
  qed
qed

lemma those_getFragments:
  "those (map (\<lambda>c. getFragments M c []) objs) =
     (if list_all readable objs then Some (map (spec_fragments M) objs) else None)"
  by (induction objs) (simp_all add: getFragments_eq(1))

text \<open>Finiteness of what is emitted, by kind.\<close>

lemma spec_segments_finite:
  "s \<in> set (spec_segments ps) \<Longrightarrow> isfinite3 (fst s) \<and> isfinite3 (snd s)"
  by (auto simp: spec_segments_def dest: isfinite3_add3)

lemma spec_segments_nth:
  assumes "s \<in> set (spec_segments ps)"
  shows "\<exists>i. 0 < i \<and> i < length ps \<and> s = (ps ! (i - 1), ps ! i)"
proof -
  from assms obtain i where "1 \<le> i" "i < length ps" "s = (ps ! (i - 1), ps ! i)"
    by (auto simp: spec_segments_def split: if_splits)
  then show ?thesis by (intro exI[of _ i]) simp
qed

lemma length_concat_if:
  "length (concat (map (\<lambda>i. if P i then [f i] else []) xs)) \<le> length xs"
  by (induction xs) auto

lemma length_spec_segments: "length (spec_segments ps) \<le> length ps - 1"
  using length_concat_if[of _ _ "[1..<length ps]"] by (simp add: spec_segments_def)

section \<open>Properties of the specified output\<close>

lemma renumber_mem:
  assumes "f \<in> set (renumber k (map g xs))"
  shows "\<exists>x \<in> set xs. \<exists>j. f = (g x)\<lparr>index := j\<rparr>"
  using set_renumber[OF assms] by auto

lemma LineSegment_finite:
  "isfinite3 (fst s) \<and> isfinite3 (snd s) \<Longrightarrow> fragment_finite ((LineSegment owner lp s)\<lparr>index := j\<rparr>)"
  by (simp add: fragment_finite_def LineSegment_def)

lemma spec_polyline_finite:
  assumes "f \<in> set (spec_polyline M pts lp)"
  shows "fragment_finite f"
proof -
  from renumber_mem[OF assms[unfolded spec_polyline_def]] obtain s j where
    "s \<in> set (spec_segments (map (transform M) pts))"
    "f = (LineSegment (PolyLine pts lp) lp s)\<lparr>index := j\<rparr>"
    by blast
  then show ?thesis using spec_segments_finite[of s] LineSegment_finite by simp
qed

lemma spec_wireframe_finite:
  assumes "f \<in> set (spec_wireframe M pos1 pos2 heights dirn lp sp)"
  shows "fragment_finite f"
proof -
  from assms have lp: "lp \<noteq> None" by (auto simp: spec_wireframe_def split: if_splits)
  from renumber_mem[OF assms[unfolded spec_wireframe_def if_not_P[OF lp]]] obtain s j where
    s: "s \<in> set (concat (map (\<lambda>line. spec_segments (map (transform M) line))
                     (spec_grid_lines pos1 pos2 heights dirn)))"
    and f: "f = (LineSegment (Mesh pos1 pos2 heights dirn lp sp) lp s)\<lparr>index := j\<rparr>"
    by blast
  from s obtain line where "s \<in> set (spec_segments (map (transform M) line))" by auto
  then show ?thesis unfolding f using spec_segments_finite[of s] LineSegment_finite by simp
qed

lemma spec_surface_triangles:
  assumes "f \<in> set (spec_surface M pos1 pos2 heights dirn lp sp)"
  shows "ftype f = FR_TRIANGLE"
proof -
  from assms have sp: "sp \<noteq> None" by (auto simp: spec_surface_def split: if_splits)
  from renumber_mem[OF assms[unfolded spec_surface_def if_not_P[OF sp]]]
  show ?thesis by (auto simp: TriangleFragment_def)
qed

lemma spec_points_finite:
  assumes "f \<in> set (spec_points M x y z sizes pth sc lineedge surfacefill)"
  shows "fragment_finite f"
proof -
  from renumber_mem[OF assms[unfolded spec_points_def Let_def]] obtain q j where
    q: "isfinite3 (fst q)"
    and f: "f = (PointSprite (Points x y z sizes pth sc lineedge surfacefill)
                   \<lparr>path = pth, scaleedges = sc\<rparr> surfacefill lineedge q)\<lparr>index := j\<rparr>"
    by (auto split: if_splits)
  show ?thesis unfolding f using q by (simp add: fragment_finite_def PointSprite_def)
qed

lemma spec_fragments_finite:
  "f \<in> set (spec_fragments M obj) \<Longrightarrow> ftype f \<noteq> FR_TRIANGLE \<Longrightarrow> fragment_finite f"
proof (induction M obj rule: spec_fragments.induct)
  case (1 M)
  then show ?case by simp
next
  case (2 M p0 p1 p2 sp)
  then show ?case by (simp add: spec_triangle_def TriangleFragment_def)
next
  case (3 M pts lp)
  then show ?case using spec_polyline_finite by simp
next
  case (4 M pos1 pos2 heights dirn lp sp)
  then show ?case using spec_wireframe_finite spec_surface_triangles by auto
next
  case (5 M x y z sizes pth sc lineedge surfacefill)
  then show ?case using spec_points_finite by simp
next
  case (6 M objM objs)
  then show ?case by auto
qed

lemma index_spec_polyline:
  "map index (spec_polyline M pts lp) = [0..<length (spec_polyline M pts lp)]"
  unfolding spec_polyline_def using index_renumber[of 0] by (simp add: length_renumber)

lemma index_spec_points:
  "map index (spec_points M x y z sizes pth sc lineedge surfacefill) =
     [0..<length (spec_points M x y z sizes pth sc lineedge surfacefill)]"
  unfolding spec_points_def Let_def using index_renumber[of 0] by (simp add: length_renumber)

lemma index_spec_wireframe:
  "map index (spec_wireframe M pos1 pos2 heights dirn lp sp) =
     [0..<length (spec_wireframe M pos1 pos2 heights dirn lp sp)]"
  unfolding spec_wireframe_def using index_renumber[of 0] by (simp add: length_renumber)

lemma index_spec_surface:
  "map index (spec_surface M pos1 pos2 heights dirn lp sp) =
     [0..<length (spec_surface M pos1 pos2 heights dirn lp sp)]"
  unfolding spec_surface_def using index_renumber[of 0] by (simp add: length_renumber)

lemma length_concat_segments:
  assumes "\<And>line. line \<in> set ls \<Longrightarrow> length line = n"
  shows "length (concat (map (\<lambda>line. spec_segments (map g line)) ls)) \<le> length ls * (n - 1)"
  using assms
proof (induction ls)
  case Nil
  then show ?case by simp
next
  case (Cons l ls)
  have "length (spec_segments (map g l)) \<le> n - 1"
    using length_spec_segments[of "map g l"] Cons.prems[of l] by simp
  moreover have "length (concat (map (\<lambda>line. spec_segments (map g line)) ls)) \<le> length ls * (n - 1)"
    using Cons by simp
  ultimately show ?case by simp
qed

lemma length_wire_segments:
  "length (concat (map (\<lambda>line. spec_segments (map g line))
      (spec_grid_lines pos1 pos2 heights dirn))) \<le>
   length pos2 * (length pos1 - 1) + length pos1 * (length pos2 - 1)"
proof -
  let ?a = "map (\<lambda>i2. map (\<lambda>i1. spec_grid_point pos1 pos2 heights dirn i1 i2) [0..<length pos1])
       [0..<length pos2]"
  let ?b = "map (\<lambda>i1. map (\<lambda>i2. spec_grid_point pos1 pos2 heights dirn i1 i2) [0..<length pos2])
       [0..<length pos1]"
  have "length (concat (map (\<lambda>line. spec_segments (map g line)) ?a)) \<le> length ?a * (length pos1 - 1)"
    by (rule length_concat_segments) auto
  moreover have "length (concat (map (\<lambda>line. spec_segments (map g line)) ?b)) \<le> length ?b * (length pos2 - 1)"
    by (rule length_concat_segments) auto
  ultimately show ?thesis
    unfolding spec_grid_lines_def by (simp del: upt_Suc)
qed

section \<open>Finite points with an overflowing sum\<close>

text \<open>The value \<open>2^1023\<close> is a \<^verbatim>\<open>double\<close>, and twice this value is not. The lemmas
  of this section evaluate a polyline, a wireframe and a surface cell whose points carry
  such a coordinate \<open>a\<close>.\<close>

lemma transform_identity_top:
  assumes "overflowV a = Fin a" and "\<bar>b\<bar> \<le> 1000" and "\<bar>c\<bar> \<le> 1000"
  shows "transform identityM4 (Vec4 (Fin a) (Fin b) (Fin c) (Fin 1)) = Vec3 (Fin a) (Fin b) (Fin c)"
    "transform identityM4 (Vec4 (Fin b) (Fin a) (Fin c) (Fin 1)) = Vec3 (Fin b) (Fin a) (Fin c)"
    "transform identityM4 (Vec4 (Fin b) (Fin c) (Fin a) (Fin 1)) = Vec3 (Fin b) (Fin c) (Fin a)"
  using assms by (simp_all add: transform_def identityM4_def)

lemma polyline_overflow:
  assumes a: "overflowV a = Fin a" and aa: "overflowV (a + a) = PInf"
  shows "isfinite3 (transform identityM4 (Vec4 (Fin a) (Fin 0) (Fin 0) (Fin 1))) \<and>
     isfinite3 (transform identityM4 (Vec4 (Fin a) (Fin 1) (Fin 0) (Fin 1))) \<and>
     getFragments identityM4
       (PolyLine [Vec4 (Fin a) (Fin 0) (Fin 0) (Fin 1), Vec4 (Fin a) (Fin 1) (Fin 0) (Fin 1)]
          lp) [] = Some []"
  using aa by (simp add: PolyLine_getFragments_eq spec_polyline_def spec_segments_def
      transform_identity_top(1)[OF a])

lemma wireframe_overflow:
  assumes a: "overflowV a = Fin a" and aa: "overflowV (a + a) = PInf"
  shows "isfinite3 (transform identityM4 (spec_grid_point [Fin 0, Fin 1] [Fin 0] [Fin a, Fin a] Z_DIRN 0 0)) \<and>
     isfinite3 (transform identityM4 (spec_grid_point [Fin 0, Fin 1] [Fin 0] [Fin a, Fin a] Z_DIRN 1 0)) \<and>
     getLineFragments identityM4 [Fin 0, Fin 1] [Fin 0] [Fin a, Fin a] Z_DIRN (Some 1) None [] =
       Some []"
  using aa by (simp add: getLineFragments_eq lines_readable_def spec_wireframe_def
      spec_grid_lines_def spec_segments_def spec_grid_point_def
      transform_identity_top(3)[OF a])

lemma surface_overflow:
  assumes a: "overflowV a = Fin a" and aa: "overflowV (a + a) = PInf"
  shows "isfinite4 (spec_grid_point [Fin 0, Fin 1] [Fin 0, Fin 1] [Fin a, Fin a, Fin a, Fin a] Z_DIRN 0 0) \<and>
     isfinite4 (spec_grid_point [Fin 0, Fin 1] [Fin 0, Fin 1] [Fin a, Fin a, Fin a, Fin a] Z_DIRN 1 0) \<and>
     isfinite4 (spec_grid_point [Fin 0, Fin 1] [Fin 0, Fin 1] [Fin a, Fin a, Fin a, Fin a] Z_DIRN 0 1) \<and>
     isfinite4 (spec_grid_point [Fin 0, Fin 1] [Fin 0, Fin 1] [Fin a, Fin a, Fin a, Fin a] Z_DIRN 1 1) \<and>
     getSurfaceFragments identityM4 [Fin 0, Fin 1] [Fin 0, Fin 1] [Fin a, Fin a, Fin a, Fin a]
       Z_DIRN None (Some 2) [] = Some []"
  using aa by (simp add: getSurfaceFragments_eq surface_readable_def spec_surface_def
      spec_cell_def spec_grid_point_def)

section \<open>Claims\<close>

text \<open>C1 (as stated: every emitted fragment, Triangle fragments included, has finite
  coordinates in its used point slots). This fails: a Triangle object with a NaN
  coordinate is emitted as it is, and a Mesh surface is tested before the transform only,
  so a transform with an infinite entry turns a finite cell into non-finite triangles.\<close>

theorem C1_counterexample:
  "map_option (map fragment_finite)
     (getFragments identityM4
        (Triangle (Vec4 NaN (Fin 0) (Fin 0) (Fin 1)) (Vec4 (Fin 1) (Fin 0) (Fin 0) (Fin 1))
           (Vec4 (Fin 0) (Fin 1) (Fin 0) (Fin 1)) (Some 1)) []) = Some [False] \<and>
   map_option (map fragment_finite)
     (getFragments
        (Mat4 (Vec4 PInf (Fin 0) (Fin 0) (Fin 0)) (Vec4 (Fin 0) (Fin 1) (Fin 0) (Fin 0))
              (Vec4 (Fin 0) (Fin 0) (Fin 1) (Fin 0)) (Vec4 (Fin 0) (Fin 0) (Fin 0) (Fin 1)))
        (Mesh [Fin 0, Fin 1] [Fin 0, Fin 1] [Fin 0, Fin 0, Fin 0, Fin 1] Z_DIRN None (Some 1))
        []) = Some [False, False]"
  by (simp add: getFragments_eq(1) lines_readable_def surface_readable_def spec_triangle_def
      spec_wireframe_def spec_surface_def spec_cell_def spec_grid_point_def
      TriangleFragment_def Fragment_def fragment_finite_def transform_def identityM4_def)

text \<open>C1 (amended). For every object tree and every transform, every fragment of kind
  LineSegment or Path placed in the output has all the point slots its kind uses finite;
  a candidate of these kinds with a non-finite coordinate is dropped whole. Fragments of
  kind Triangle are exempt: they are emitted without a test of their transformed
  coordinates. A tree whose meshes are read inside their \<^verbatim>\<open>heights\<close> always yields an
  output.\<close>

theorem C1_lines_and_sprites_finite:
  "(readable obj \<longrightarrow> (\<exists>new. getFragments M obj v = Some (v @ new))) \<and>
   (\<forall>new. getFragments M obj v = Some (v @ new) \<longrightarrow>
      (\<forall>f \<in> set new. ftype f \<noteq> FR_TRIANGLE \<longrightarrow> fragment_finite f))"
proof (intro conjI allI impI ballI)
  assume "readable obj"
  then show "\<exists>new. getFragments M obj v = Some (v @ new)"
    by (simp add: getFragments_eq(1))
next
  fix new f
  assume a: "getFragments M obj v = Some (v @ new)" and f: "f \<in> set new"
    and t: "ftype f \<noteq> FR_TRIANGLE"
  from a have "new = spec_fragments M obj"
    by (simp add: getFragments_eq(1) split: if_splits)
  then show "fragment_finite f" using f t spec_fragments_finite by simp
qed

text \<open>A polyline broken by a NaN point, inside a container: the one line segment that
  is emitted is finite.\<close>

theorem C1_lines_and_sprites_finite_witness:
  "readable (ObjectContainer identityM4
      [PolyLine [Vec4 (Fin 0) (Fin 0) (Fin 0) (Fin 1), Vec4 (Fin 1) (Fin 0) (Fin 0) (Fin 1),
                 Vec4 NaN (Fin 0) (Fin 0) (Fin 1)] (Some 7)]) \<and>
   getFragments identityM4
     (ObjectContainer identityM4
        [PolyLine [Vec4 (Fin 0) (Fin 0) (Fin 0) (Fin 1), Vec4 (Fin 1) (Fin 0) (Fin 0) (Fin 1),
                   Vec4 NaN (Fin 0) (Fin 0) (Fin 1)] (Some 7)]) [] =
     Some ([] @ [LineSegment
        (PolyLine [Vec4 (Fin 0) (Fin 0) (Fin 0) (Fin 1), Vec4 (Fin 1) (Fin 0) (Fin 0) (Fin 1),
                   Vec4 NaN (Fin 0) (Fin 0) (Fin 1)] (Some 7)) (Some 7)
        (Vec3 (Fin 0) (Fin 0) (Fin 0), Vec3 (Fin 1) (Fin 0) (Fin 0))]) \<and>
   ftype (LineSegment
        (PolyLine [Vec4 (Fin 0) (Fin 0) (Fin 0) (Fin 1), Vec4 (Fin 1) (Fin 0) (Fin 0) (Fin 1),
                   Vec4 NaN (Fin 0) (Fin 0) (Fin 1)] (Some 7)) (Some 7)
        (Vec3 (Fin 0) (Fin 0) (Fin 0), Vec3 (Fin 1) (Fin 0) (Fin 0))) \<noteq> FR_TRIANGLE \<and>
   fragment_finite (LineSegment
        (PolyLine [Vec4 (Fin 0) (Fin 0) (Fin 0) (Fin 1), Vec4 (Fin 1) (Fin 0) (Fin 0) (Fin 1),
                   Vec4 NaN (Fin 0) (Fin 0) (Fin 1)] (Some 7)) (Some 7)
        (Vec3 (Fin 0) (Fin 0) (Fin 0), Vec3 (Fin 1) (Fin 0) (Fin 0)))"
proof -
  let ?pl = "PolyLine [Vec4 (Fin 0) (Fin 0) (Fin 0) (Fin 1), Vec4 (Fin 1) (Fin 0) (Fin 0) (Fin 1),
                 Vec4 NaN (Fin 0) (Fin 0) (Fin 1)] (Some 7)"
  let ?f = "LineSegment ?pl (Some 7) (Vec3 (Fin 0) (Fin 0) (Fin 0), Vec3 (Fin 1) (Fin 0) (Fin 0))"
  have r: "readable (ObjectContainer identityM4 [?pl])" by simp
  have e: "getFragments identityM4 (ObjectContainer identityM4 [?pl]) [] = Some ([] @ [?f])"
    by (simp add: PolyLine_getFragments_eq spec_polyline_def spec_segments_def transform_def
        identityM4_def LineSegment_def Fragment_def)
  have t: "ftype ?f \<noteq> FR_TRIANGLE" by (simp add: LineSegment_def Fragment_def)
  have "fragment_finite ?f"
    using C1_lines_and_sprites_finite[of "ObjectContainer identityM4 [?pl]" identityM4 "[]"] e t
    by simp
  then show ?thesis using r e t by blast
qed

text \<open>C2 (as stated: the indices of the fragments one object emits in one traversal are
  \<open>0, 1, 2, \<dots>\<close> without gaps, in particular across the whole emission of a Mesh with
  both styles). This fails for such a Mesh: \<^verbatim>\<open>getLineFragments\<close> and
  \<^verbatim>\<open>getSurfaceFragments\<close> each start a working fragment of their own at index 0, so
  the surface triangles are numbered from 0 again.\<close>

theorem C2_counterexample:
  "map_option (map index)
     (getFragments identityM4
        (Mesh [Fin 0, Fin 1] [Fin 0, Fin 1] [Fin 0, Fin 0, Fin 0, Fin 1] Z_DIRN (Some 1) (Some 2))
        []) = Some [0, 1, 2, 3, 0, 1]"
  by (simp add: getFragments_eq(1) lines_readable_def surface_readable_def
      spec_wireframe_def spec_surface_def spec_cell_def spec_grid_point_def spec_grid_lines_def
      spec_segments_def LineSegment_def Fragment_def TriangleFragment_def transform_def
      identityM4_def Let_def)

text \<open>C2 (amended). A Triangle, a PolyLine and a Points object each number the fragments
  they emit \<open>0, 1, 2, \<dots>\<close> without gaps, also when candidates in between were dropped.
  A Mesh numbers the fragments of its wireframe \<open>0, 1, 2, \<dots>\<close> without gaps and, on their
  own, the fragments of its surface \<open>0, 1, 2, \<dots>\<close> without gaps; its output is the
  wireframe fragments followed by the surface fragments.\<close>

theorem C2_indices_per_emission:
  "(\<exists>new. getFragments M (Triangle p0 p1 p2 sp) v = Some (v @ new) \<and>
           map index new = [0..<length new]) \<and>
   (\<exists>new. getFragments M (PolyLine pts lp) v = Some (v @ new) \<and>
           map index new = [0..<length new]) \<and>
   (\<exists>new. getFragments M (Points x y z sizes pth sc lineedge surfacefill) v = Some (v @ new) \<and>
           map index new = [0..<length new]) \<and>
   (readable (Mesh pos1 pos2 heights dirn lp sp) \<longrightarrow>
      (\<exists>ls ss. getLineFragments M pos1 pos2 heights dirn lp sp [] = Some ls \<and>
               getSurfaceFragments M pos1 pos2 heights dirn lp sp [] = Some ss \<and>
               getFragments M (Mesh pos1 pos2 heights dirn lp sp) v = Some (v @ ls @ ss) \<and>
               map index ls = [0..<length ls] \<and> map index ss = [0..<length ss]))"
proof (intro conjI impI)
  show "\<exists>new. getFragments M (Triangle p0 p1 p2 sp) v = Some (v @ new) \<and>
           map index new = [0..<length new]"
    by (simp add: getFragments_eq(1) spec_triangle_def TriangleFragment_def Fragment_def)
  show "\<exists>new. getFragments M (PolyLine pts lp) v = Some (v @ new) \<and>
           map index new = [0..<length new]"
    using index_spec_polyline by (simp add: getFragments_eq(1))
  show "\<exists>new. getFragments M (Points x y z sizes pth sc lineedge surfacefill) v = Some (v @ new) \<and>
           map index new = [0..<length new]"
    using index_spec_points by (simp add: getFragments_eq(1))
next
  assume r: "readable (Mesh pos1 pos2 heights dirn lp sp)"
  let ?ls = "spec_wireframe M pos1 pos2 heights dirn lp sp"
  let ?ss = "spec_surface M pos1 pos2 heights dirn lp sp"
  have 1: "getLineFragments M pos1 pos2 heights dirn lp sp [] = Some ?ls"
    using r by (simp add: getLineFragments_eq)
  have 2: "getSurfaceFragments M pos1 pos2 heights dirn lp sp [] = Some ?ss"
    using r by (simp add: getSurfaceFragments_eq)
  have 3: "getFragments M (Mesh pos1 pos2 heights dirn lp sp) v = Some (v @ ?ls @ ?ss)"
    using r by (simp add: getFragments_eq(1))
  show "\<exists>ls ss. getLineFragments M pos1 pos2 heights dirn lp sp [] = Some ls \<and>
               getSurfaceFragments M pos1 pos2 heights dirn lp sp [] = Some ss \<and>
               getFragments M (Mesh pos1 pos2 heights dirn lp sp) v = Some (v @ ls @ ss) \<and>
               map index ls = [0..<length ls] \<and> map index ss = [0..<length ss]"
    using 1 2 3 index_spec_wireframe index_spec_surface by blast
qed

text \<open>The mesh of the counterexample: four wireframe segments numbered 0 to 3, then two
  surface triangles numbered 0 and 1.\<close>

theorem C2_indices_per_emission_witness:
  "readable (Mesh [Fin 0, Fin 1] [Fin 0, Fin 1] [Fin 0, Fin 0, Fin 0, Fin 1] Z_DIRN (Some 1) (Some 2)) \<and>
   (\<exists>ls ss.
      getFragments identityM4
        (Mesh [Fin 0, Fin 1] [Fin 0, Fin 1] [Fin 0, Fin 0, Fin 0, Fin 1] Z_DIRN (Some 1) (Some 2))
        [] = Some (ls @ ss) \<and>
      map index ls = [0..<length ls] \<and> map index ss = [0..<length ss] \<and>
      map index (ls @ ss) = [0, 1, 2, 3, 0, 1])"
proof -
  let ?m = "Mesh [Fin 0, Fin 1] [Fin 0, Fin 1] [Fin 0, Fin 0, Fin 0, Fin 1] Z_DIRN (Some 1) (Some 2)"
  have r: "readable ?m" by (simp add: lines_readable_def surface_readable_def)
  from C2_indices_per_emission[of identityM4 _ _ _ "Some 2" "[]" _ "Some 1" _ _ _ _ _ _ _ _
      "[Fin 0, Fin 1]" "[Fin 0, Fin 1]" "[Fin 0, Fin 0, Fin 0, Fin 1]" Z_DIRN] r
  obtain ls ss where
    e: "getFragments identityM4 ?m [] = Some ([] @ ls @ ss)"
    and i: "map index ls = [0..<length ls]" "map index ss = [0..<length ss]"
    by blast
  have "map_option (map index) (getFragments identityM4 ?m []) = Some [0, 1, 2, 3, 0, 1]"
    by (simp add: getFragments_eq(1) lines_readable_def surface_readable_def
      spec_wireframe_def spec_surface_def spec_cell_def spec_grid_point_def spec_grid_lines_def
      spec_segments_def LineSegment_def Fragment_def TriangleFragment_def transform_def
      identityM4_def Let_def)
  then have x: "map index (ls @ ss) = [0, 1, 2, 3, 0, 1]" unfolding e by simp
  have e': "getFragments identityM4 ?m [] = Some (ls @ ss)" using e by simp
  show ?thesis
    by (intro conjI exI[of _ ls] exI[of _ ss]) (rule r e' i x)+
qed

text \<open>C3 (as stated: a cell is skipped if a coordinate of its 4 corners is not finite,
  and gives exactly 2 Triangle fragments otherwise). This fails: the cell is tested on the
  sum of its 4 corner points, and a sum of finite coordinates can overflow. The cell of
  \<open>pos1 = [0,1]\<close>, \<open>pos2 = [0,1]\<close> with all four heights \<open>2^1023\<close> has finite corners
  and gives no fragment.\<close>

theorem C3_counterexample:
  "isfinite4 (spec_grid_point [Fin 0, Fin 1] [Fin 0, Fin 1]
      [Fin (2 ^ 1023), Fin (2 ^ 1023), Fin (2 ^ 1023), Fin (2 ^ 1023)] Z_DIRN 0 0) \<and>
   isfinite4 (spec_grid_point [Fin 0, Fin 1] [Fin 0, Fin 1]
      [Fin (2 ^ 1023), Fin (2 ^ 1023), Fin (2 ^ 1023), Fin (2 ^ 1023)] Z_DIRN 1 0) \<and>
   isfinite4 (spec_grid_point [Fin 0, Fin 1] [Fin 0, Fin 1]
      [Fin (2 ^ 1023), Fin (2 ^ 1023), Fin (2 ^ 1023), Fin (2 ^ 1023)] Z_DIRN 0 1) \<and>
   isfinite4 (spec_grid_point [Fin 0, Fin 1] [Fin 0, Fin 1]
      [Fin (2 ^ 1023), Fin (2 ^ 1023), Fin (2 ^ 1023), Fin (2 ^ 1023)] Z_DIRN 1 1) \<and>
   getSurfaceFragments identityM4 [Fin 0, Fin 1] [Fin 0, Fin 1]
     [Fin (2 ^ 1023), Fin (2 ^ 1023), Fin (2 ^ 1023), Fin (2 ^ 1023)] Z_DIRN None (Some 2) [] =
     Some []"
  by (rule surface_overflow[OF overflowV_top overflowV_twice_top])

text \<open>C3 (amended). For every Mesh with a surface style set (and \<^verbatim>\<open>heights\<close> covering
  the grid), \<^verbatim>\<open>getSurfaceFragments\<close> goes through the cells
  \<open>(i1, i1 + 1) \<times> (i2, i2 + 1)\<close> in order; a cell whose 4 corner points, before the
  transform, have a sum that is not finite gives no fragment, and this is so whenever a
  coordinate of a corner is not finite; every other cell gives exactly 2 Triangle
  fragments, the first with the corners \<open>(0,0), (1,0), (0,1)\<close> and the second with the
  corners \<open>(1,1), (1,0), (0,1)\<close>.\<close>

theorem C3_mesh_surface_cells:
  "(sp \<noteq> None \<longrightarrow> surface_readable pos1 pos2 heights \<longrightarrow>
      getSurfaceFragments M pos1 pos2 heights dirn lp sp v =
        Some (v @ renumber 0 (map (TriangleFragment (Mesh pos1 pos2 heights dirn lp sp) sp)
          (concat (map (\<lambda>i1. concat (map (\<lambda>i2. spec_cell M pos1 pos2 heights dirn i1 i2)
                                          [0..<length pos2 - 1]))
             [0..<length pos1 - 1]))))) \<and>
   spec_cell M pos1 pos2 heights dirn i1 i2 =
     (if isfinite4
           (add4 (add4 (add4 (spec_grid_point pos1 pos2 heights dirn i1 i2)
                             (spec_grid_point pos1 pos2 heights dirn (i1 + 1) i2))
                       (spec_grid_point pos1 pos2 heights dirn i1 (i2 + 1)))
                 (spec_grid_point pos1 pos2 heights dirn (i1 + 1) (i2 + 1)))
      then [(transform M (spec_grid_point pos1 pos2 heights dirn i1 i2),
             transform M (spec_grid_point pos1 pos2 heights dirn (i1 + 1) i2),
             transform M (spec_grid_point pos1 pos2 heights dirn i1 (i2 + 1))),
            (transform M (spec_grid_point pos1 pos2 heights dirn (i1 + 1) (i2 + 1)),
             transform M (spec_grid_point pos1 pos2 heights dirn (i1 + 1) i2),
             transform M (spec_grid_point pos1 pos2 heights dirn i1 (i2 + 1)))]
      else []) \<and>
   (\<not> (isfinite4 (spec_grid_point pos1 pos2 heights dirn i1 i2) \<and>
        isfinite4 (spec_grid_point pos1 pos2 heights dirn (i1 + 1) i2) \<and>
        isfinite4 (spec_grid_point pos1 pos2 heights dirn i1 (i2 + 1)) \<and>
        isfinite4 (spec_grid_point pos1 pos2 heights dirn (i1 + 1) (i2 + 1))) \<longrightarrow>
      spec_cell M pos1 pos2 heights dirn i1 i2 = [])"
proof (intro conjI impI)
  assume "sp \<noteq> None" and "surface_readable pos1 pos2 heights"
  then show "getSurfaceFragments M pos1 pos2 heights dirn lp sp v =
        Some (v @ renumber 0 (map (TriangleFragment (Mesh pos1 pos2 heights dirn lp sp) sp)
          (concat (map (\<lambda>i1. concat (map (\<lambda>i2. spec_cell M pos1 pos2 heights dirn i1 i2)
                                          [0..<length pos2 - 1]))
             [0..<length pos1 - 1]))))"
    by (auto simp add: getSurfaceFragments_eq spec_surface_def)
next
  assume "\<not> (isfinite4 (spec_grid_point pos1 pos2 heights dirn i1 i2) \<and>
        isfinite4 (spec_grid_point pos1 pos2 heights dirn (i1 + 1) i2) \<and>
        isfinite4 (spec_grid_point pos1 pos2 heights dirn i1 (i2 + 1)) \<and>
        isfinite4 (spec_grid_point pos1 pos2 heights dirn (i1 + 1) (i2 + 1)))"
  then have "\<not> isfinite4
           (add4 (add4 (add4 (spec_grid_point pos1 pos2 heights dirn i1 i2)
                             (spec_grid_point pos1 pos2 heights dirn (i1 + 1) i2))
                       (spec_grid_point pos1 pos2 heights dirn i1 (i2 + 1)))
                 (spec_grid_point pos1 pos2 heights dirn (i1 + 1) (i2 + 1)))"
    by (blast dest: isfinite4_sum4)
  then show "spec_cell M pos1 pos2 heights dirn i1 i2 = []"
    by (simp add: spec_cell_def Let_def)
qed (simp add: spec_cell_def Let_def)

text \<open>The example of the specification, \<open>pos1 = [0,1]\<close>, \<open>pos2 = [0,1]\<close>,
  \<open>heights = [0,0,0,1]\<close>, direction Z: the single cell gives the two triangles
  \<open>(0,0,0), (1,0,0), (0,1,0)\<close> and \<open>(1,1,1), (1,0,0), (0,1,0)\<close>, under any transform.
  With the first height replaced by NaN the cell gives nothing.\<close>

theorem C3_mesh_surface_cells_witness:
  "Some 2 \<noteq> (None :: propref option) \<and>
   surface_readable [Fin 0, Fin 1] [Fin 0, Fin 1] [Fin 0, Fin 0, Fin 0, Fin 1] \<and>
   (\<forall>M. getSurfaceFragments M [Fin 0, Fin 1] [Fin 0, Fin 1] [Fin 0, Fin 0, Fin 0, Fin 1]
           Z_DIRN None (Some 2) [] =
     Some [TriangleFragment
             (Mesh [Fin 0, Fin 1] [Fin 0, Fin 1] [Fin 0, Fin 0, Fin 0, Fin 1] Z_DIRN None (Some 2))
             (Some 2)
             (transform M (Vec4 (Fin 0) (Fin 0) (Fin 0) (Fin 1)),
              transform M (Vec4 (Fin 1) (Fin 0) (Fin 0) (Fin 1)),
              transform M (Vec4 (Fin 0) (Fin 1) (Fin 0) (Fin 1))),
           (TriangleFragment
             (Mesh [Fin 0, Fin 1] [Fin 0, Fin 1] [Fin 0, Fin 0, Fin 0, Fin 1] Z_DIRN None (Some 2))
             (Some 2)
             (transform M (Vec4 (Fin 1) (Fin 1) (Fin 1) (Fin 1)),
              transform M (Vec4 (Fin 1) (Fin 0) (Fin 0) (Fin 1)),
              transform M (Vec4 (Fin 0) (Fin 1) (Fin 0) (Fin 1))))\<lparr>index := 1\<rparr>]) \<and>
   surface_readable [Fin 0, Fin 1] [Fin 0, Fin 1] [NaN, Fin 0, Fin 0, Fin 1] \<and>
   \<not> isfinite4 (spec_grid_point [Fin 0, Fin 1] [Fin 0, Fin 1] [NaN, Fin 0, Fin 0, Fin 1]
        Z_DIRN 0 0) \<and>
   getSurfaceFragments identityM4 [Fin 0, Fin 1] [Fin 0, Fin 1] [NaN, Fin 0, Fin 0, Fin 1]
     Z_DIRN None (Some 2) [] = Some []"
proof (intro conjI allI)
  show r: "surface_readable [Fin 0, Fin 1] [Fin 0, Fin 1] [Fin 0, Fin 0, Fin 0, Fin 1]"
    by (simp add: surface_readable_def)
  show r': "surface_readable [Fin 0, Fin 1] [Fin 0, Fin 1] [NaN, Fin 0, Fin 0, Fin 1]"
    by (simp add: surface_readable_def)
  show n: "\<not> isfinite4 (spec_grid_point [Fin 0, Fin 1] [Fin 0, Fin 1]
      [NaN, Fin 0, Fin 0, Fin 1] Z_DIRN 0 0)"
    by (simp add: spec_grid_point_def)
  have s: "Some 2 \<noteq> (None :: propref option)" by simp
  note u = C3_mesh_surface_cells[of "Some 2" "[Fin 0, Fin 1]" "[Fin 0, Fin 1]"
      "[NaN, Fin 0, Fin 0, Fin 1]" identityM4 Z_DIRN None "[]" 0 0]
  from u n have c: "spec_cell identityM4 [Fin 0, Fin 1] [Fin 0, Fin 1]
      [NaN, Fin 0, Fin 0, Fin 1] Z_DIRN 0 0 = []"
    by blast
  from u s r' have "getSurfaceFragments identityM4 [Fin 0, Fin 1] [Fin 0, Fin 1]
      [NaN, Fin 0, Fin 0, Fin 1] Z_DIRN None (Some 2) [] =
        Some ([] @ renumber 0 (map (TriangleFragment
            (Mesh [Fin 0, Fin 1] [Fin 0, Fin 1] [NaN, Fin 0, Fin 0, Fin 1] Z_DIRN None (Some 2))
            (Some 2))
          (concat (map (\<lambda>i1. concat (map (\<lambda>i2. spec_cell identityM4 [Fin 0, Fin 1] [Fin 0, Fin 1]
                  [NaN, Fin 0, Fin 0, Fin 1] Z_DIRN i1 i2)
                [0..<length [Fin 0, Fin (1::real)] - 1]))
             [0..<length [Fin 0, Fin (1::real)] - 1]))))"
    by blast
  then show "getSurfaceFragments identityM4 [Fin 0, Fin 1] [Fin 0, Fin 1]
      [NaN, Fin 0, Fin 0, Fin 1] Z_DIRN None (Some 2) [] = Some []"
    by (simp add: c)
  fix M
  note t = C3_mesh_surface_cells[of "Some 2" "[Fin 0, Fin 1]" "[Fin 0, Fin 1]"
      "[Fin 0, Fin 0, Fin 0, Fin 1]" M Z_DIRN None "[]" 0 0]
  from t s r have "getSurfaceFragments M [Fin 0, Fin 1] [Fin 0, Fin 1] [Fin 0, Fin 0, Fin 0, Fin 1]
           Z_DIRN None (Some 2) [] =
        Some ([] @ renumber 0 (map (TriangleFragment
            (Mesh [Fin 0, Fin 1] [Fin 0, Fin 1] [Fin 0, Fin 0, Fin 0, Fin 1] Z_DIRN None (Some 2))
            (Some 2))
          (concat (map (\<lambda>i1. concat (map (\<lambda>i2. spec_cell M [Fin 0, Fin 1] [Fin 0, Fin 1]
                  [Fin 0, Fin 0, Fin 0, Fin 1] Z_DIRN i1 i2)
                [0..<length [Fin 0, Fin (1::real)] - 1]))
             [0..<length [Fin 0, Fin (1::real)] - 1]))))"
    by blast
  moreover from t have "spec_cell M [Fin 0, Fin 1] [Fin 0, Fin 1] [Fin 0, Fin 0, Fin 0, Fin 1] Z_DIRN 0 0 =
      [(transform M (Vec4 (Fin 0) (Fin 0) (Fin 0) (Fin 1)),
        transform M (Vec4 (Fin 1) (Fin 0) (Fin 0) (Fin 1)),
        transform M (Vec4 (Fin 0) (Fin 1) (Fin 0) (Fin 1))),
       (transform M (Vec4 (Fin 1) (Fin 1) (Fin 1) (Fin 1)),
        transform M (Vec4 (Fin 1) (Fin 0) (Fin 0) (Fin 1)),
        transform M (Vec4 (Fin 0) (Fin 1) (Fin 0) (Fin 1)))]"
    by (simp add: spec_grid_point_def)
  ultimately show "getSurfaceFragments M [Fin 0, Fin 1] [Fin 0, Fin 1] [Fin 0, Fin 0, Fin 0, Fin 1]
           Z_DIRN None (Some 2) [] =
     Some [TriangleFragment
             (Mesh [Fin 0, Fin 1] [Fin 0, Fin 1] [Fin 0, Fin 0, Fin 0, Fin 1] Z_DIRN None (Some 2))
             (Some 2)
             (transform M (Vec4 (Fin 0) (Fin 0) (Fin 0) (Fin 1)),
              transform M (Vec4 (Fin 1) (Fin 0) (Fin 0) (Fin 1)),
              transform M (Vec4 (Fin 0) (Fin 1) (Fin 0) (Fin 1))),
           (TriangleFragment
             (Mesh [Fin 0, Fin 1] [Fin 0, Fin 1] [Fin 0, Fin 0, Fin 0, Fin 1] Z_DIRN None (Some 2))
             (Some 2)
             (transform M (Vec4 (Fin 1) (Fin 1) (Fin 1) (Fin 1)),
              transform M (Vec4 (Fin 1) (Fin 0) (Fin 0) (Fin 1)),
              transform M (Vec4 (Fin 0) (Fin 1) (Fin 0) (Fin 1))))\<lparr>index := 1\<rparr>]"
    by (simp add: TriangleFragment_def Fragment_def)
qed simp

text \<open>C4 (as stated: one LineSegment fragment is appended exactly when all coordinates of
  the two transformed points are finite). This fails: the pair is tested on the sum of its
  two points, and a sum of finite coordinates can overflow. The points \<open>(2^1023, 0, 0)\<close>
  and \<open>(2^1023, 1, 0)\<close> are finite under the identity transform, and the polyline
  through them gives no fragment.\<close>

theorem C4_counterexample:
  "isfinite3 (transform identityM4 (Vec4 (Fin (2 ^ 1023)) (Fin 0) (Fin 0) (Fin 1))) \<and>
   isfinite3 (transform identityM4 (Vec4 (Fin (2 ^ 1023)) (Fin 1) (Fin 0) (Fin 1))) \<and>
   getFragments identityM4
     (PolyLine [Vec4 (Fin (2 ^ 1023)) (Fin 0) (Fin 0) (Fin 1),
                Vec4 (Fin (2 ^ 1023)) (Fin 1) (Fin 0) (Fin 1)] (Some 7)) [] = Some []"
  by (rule polyline_overflow[OF overflowV_top overflowV_twice_top])

text \<open>C4 (amended). For every PolyLine and transform \<open>M\<close>, \<^verbatim>\<open>getFragments\<close> looks at
  each consecutive pair of stored points \<open>(i - 1, i)\<close> in insertion order, transforms
  both, and appends one LineSegment fragment exactly when the sum of the two transformed
  points is finite; otherwise only that segment is skipped. The sum is finite only if all
  coordinates of both points are. A polyline of fewer than 2 points emits nothing.\<close>

theorem C4_polyline_segments:
  "getFragments M (PolyLine pts lp) v =
     Some (v @ renumber 0 (map (LineSegment (PolyLine pts lp) lp)
        [(map (transform M) pts ! (i - 1), map (transform M) pts ! i).
           i \<leftarrow> [1..<length pts],
           isfinite3 (add3 (map (transform M) pts ! i) (map (transform M) pts ! (i - 1)))])) \<and>
   (length pts < 2 \<longrightarrow> getFragments M (PolyLine pts lp) v = Some v) \<and>
   (isfinite3 (add3 p q) \<longrightarrow> isfinite3 p \<and> isfinite3 q)"
proof (intro conjI)
  have "getFragments M (PolyLine pts lp) v = Some (v @ spec_polyline M pts lp)"
    by (simp add: PolyLine_getFragments_eq)
  then show e: "getFragments M (PolyLine pts lp) v =
     Some (v @ renumber 0 (map (LineSegment (PolyLine pts lp) lp)
        [(map (transform M) pts ! (i - 1), map (transform M) pts ! i).
           i \<leftarrow> [1..<length pts],
           isfinite3 (add3 (map (transform M) pts ! i) (map (transform M) pts ! (i - 1)))]))"
    by (simp add: spec_polyline_def spec_segments_def)
  show "length pts < 2 \<longrightarrow> getFragments M (PolyLine pts lp) v = Some v"
  proof
    assume "length pts < 2"
    then have z: "[1..<length pts] = []" by simp
    show "getFragments M (PolyLine pts lp) v = Some v"
      unfolding e z by simp
  qed
  show "isfinite3 (add3 p q) \<longrightarrow> isfinite3 p \<and> isfinite3 q"
    by (blast dest: isfinite3_add3)
qed

text \<open>The example of the specification: of the three candidate segments of
  \<open>(0,0,0), (1,0,0), (NaN,0,0), (2,0,0)\<close> only the first is emitted; a single point
  gives nothing.\<close>

theorem C4_polyline_segments_witness:
  "getFragments identityM4
     (PolyLine [Vec4 (Fin 0) (Fin 0) (Fin 0) (Fin 1), Vec4 (Fin 1) (Fin 0) (Fin 0) (Fin 1),
                Vec4 NaN (Fin 0) (Fin 0) (Fin 1), Vec4 (Fin 2) (Fin 0) (Fin 0) (Fin 1)] (Some 7)) [] =
   Some [LineSegment
     (PolyLine [Vec4 (Fin 0) (Fin 0) (Fin 0) (Fin 1), Vec4 (Fin 1) (Fin 0) (Fin 0) (Fin 1),
                Vec4 NaN (Fin 0) (Fin 0) (Fin 1), Vec4 (Fin 2) (Fin 0) (Fin 0) (Fin 1)] (Some 7))
     (Some 7) (Vec3 (Fin 0) (Fin 0) (Fin 0), Vec3 (Fin 1) (Fin 0) (Fin 0))] \<and>
   length [Vec4 (Fin 5) (Fin 0) (Fin 0) (Fin 1)] < 2 \<and>
   getFragments identityM4 (PolyLine [Vec4 (Fin 5) (Fin 0) (Fin 0) (Fin 1)] (Some 7)) [] = Some [] \<and>
   isfinite3 (add3 (Vec3 (Fin 1) (Fin 0) (Fin 0)) (Vec3 (Fin 0) (Fin 0) (Fin 0))) \<and>
   isfinite3 (Vec3 (Fin 1) (Fin 0) (Fin 0)) \<and> isfinite3 (Vec3 (Fin 0) (Fin 0) (Fin 0))"
  using C4_polyline_segments[of identityM4
      "[Vec4 (Fin 0) (Fin 0) (Fin 0) (Fin 1), Vec4 (Fin 1) (Fin 0) (Fin 0) (Fin 1),
        Vec4 NaN (Fin 0) (Fin 0) (Fin 1), Vec4 (Fin 2) (Fin 0) (Fin 0) (Fin 1)]" "Some 7" "[]"
      "Vec3 (Fin 1) (Fin 0) (Fin 0)" "Vec3 (Fin 0) (Fin 0) (Fin 0)"]
    C4_polyline_segments[of identityM4 "[Vec4 (Fin 5) (Fin 0) (Fin 0) (Fin 1)]" "Some 7" "[]"
      "Vec3 (Fin 1) (Fin 0) (Fin 0)" "Vec3 (Fin 0) (Fin 0) (Fin 0)"]
  by (simp add: transform_def identityM4_def LineSegment_def Fragment_def)

text \<open>C5. For every ObjectContainer with local transform \<open>objM\<close> and outer transform
  \<open>M\<close>, \<^verbatim>\<open>getFragments\<close> runs every child, in insertion order, under the one transform
  \<open>M * objM\<close>; the output is the old output followed by the fragments of child 0 in
  full, then those of child 1, and so on, each child's fragments being what the child
  emits on its own. A container nested in a container runs its children under
  \<open>(M * objM) * objM'\<close>.\<close>

theorem C5_container_order:
  "getFragments M (ObjectContainer objM objs) v =
     map_option (\<lambda>outs. v @ concat outs)
       (those (map (\<lambda>child. getFragments (mulMM M objM) child []) objs)) \<and>
   getFragments M (ObjectContainer objM [ObjectContainer objM' objs']) v =
     map_option (\<lambda>outs. v @ concat outs)
       (those (map (\<lambda>child. getFragments (mulMM (mulMM M objM) objM') child []) objs'))"
  unfolding those_getFragments by (simp add: getFragments_eq Let_def)

text \<open>A container that doubles all coordinates, holding a polyline and then a triangle:
  the line segment comes first, then the triangle, both doubled.\<close>

theorem C5_container_order_witness:
  "getFragments identityM4
     (ObjectContainer
        (Mat4 (Vec4 (Fin 2) (Fin 0) (Fin 0) (Fin 0)) (Vec4 (Fin 0) (Fin 2) (Fin 0) (Fin 0))
              (Vec4 (Fin 0) (Fin 0) (Fin 2) (Fin 0)) (Vec4 (Fin 0) (Fin 0) (Fin 0) (Fin 1)))
        [PolyLine [Vec4 (Fin 0) (Fin 0) (Fin 0) (Fin 1), Vec4 (Fin 1) (Fin 0) (Fin 0) (Fin 1)] (Some 7),
         Triangle (Vec4 (Fin 0) (Fin 0) (Fin 0) (Fin 1)) (Vec4 (Fin 1) (Fin 0) (Fin 0) (Fin 1))
           (Vec4 (Fin 0) (Fin 1) (Fin 0) (Fin 1)) (Some 8)]) [] =
   Some [LineSegment
           (PolyLine [Vec4 (Fin 0) (Fin 0) (Fin 0) (Fin 1), Vec4 (Fin 1) (Fin 0) (Fin 0) (Fin 1)] (Some 7))
           (Some 7) (Vec3 (Fin 0) (Fin 0) (Fin 0), Vec3 (Fin 2) (Fin 0) (Fin 0)),
         TriangleFragment
           (Triangle (Vec4 (Fin 0) (Fin 0) (Fin 0) (Fin 1)) (Vec4 (Fin 1) (Fin 0) (Fin 0) (Fin 1))
              (Vec4 (Fin 0) (Fin 1) (Fin 0) (Fin 1)) (Some 8))
           (Some 8)
           (Vec3 (Fin 0) (Fin 0) (Fin 0), Vec3 (Fin 2) (Fin 0) (Fin 0), Vec3 (Fin 0) (Fin 2) (Fin 0))]"
proof -
  let ?S = "Mat4 (Vec4 (Fin 2) (Fin 0) (Fin 0) (Fin 0)) (Vec4 (Fin 0) (Fin 2) (Fin 0) (Fin 0))
              (Vec4 (Fin 0) (Fin 0) (Fin 2) (Fin 0)) (Vec4 (Fin 0) (Fin 0) (Fin 0) (Fin 1))"
  let ?pl = "PolyLine [Vec4 (Fin 0) (Fin 0) (Fin 0) (Fin 1), Vec4 (Fin 1) (Fin 0) (Fin 0) (Fin 1)] (Some 7)"
  let ?tr = "Triangle (Vec4 (Fin 0) (Fin 0) (Fin 0) (Fin 1)) (Vec4 (Fin 1) (Fin 0) (Fin 0) (Fin 1))
           (Vec4 (Fin 0) (Fin 1) (Fin 0) (Fin 1)) (Some 8)"
  have m: "mulMM identityM4 ?S = ?S" by (simp add: identityM4_def)
  have 1: "getFragments ?S ?pl [] =
      Some [LineSegment ?pl (Some 7) (Vec3 (Fin 0) (Fin 0) (Fin 0), Vec3 (Fin 2) (Fin 0) (Fin 0))]"
    by (simp add: PolyLine_getFragments_eq spec_polyline_def spec_segments_def transform_def
        LineSegment_def Fragment_def Let_def)
  have 2: "getFragments ?S ?tr [] =
      Some [TriangleFragment ?tr (Some 8)
           (Vec3 (Fin 0) (Fin 0) (Fin 0), Vec3 (Fin 2) (Fin 0) (Fin 0), Vec3 (Fin 0) (Fin 2) (Fin 0))]"
    by (simp add: Triangle_getFragments_eq spec_triangle_def transform_def Let_def)
  show ?thesis
    using C5_container_order[of identityM4 ?S "[?pl, ?tr]" "[]"]
    unfolding m by (simp only: list.map those.simps 1 2 option.case option.map_comp
        option.simps option.map concat.simps append.simps split: option.splits)
qed

text \<open>C6 (as stated: the wireframe emits a segment for each consecutive pair of finite
  points of a grid line). This fails where the PolyLine rule fails: a pair is tested on
  the sum of its two points. In the mesh with \<open>pos1 = [0,1]\<close>, \<open>pos2 = [0]\<close> and both
  heights \<open>2^1023\<close> the two points of the one line along \<open>pos1\<close> are finite under the
  identity transform, and no segment is emitted.\<close>

theorem C6_counterexample:
  "isfinite3 (transform identityM4
      (spec_grid_point [Fin 0, Fin 1] [Fin 0] [Fin (2 ^ 1023), Fin (2 ^ 1023)] Z_DIRN 0 0)) \<and>
   isfinite3 (transform identityM4
      (spec_grid_point [Fin 0, Fin 1] [Fin 0] [Fin (2 ^ 1023), Fin (2 ^ 1023)] Z_DIRN 1 0)) \<and>
   getLineFragments identityM4 [Fin 0, Fin 1] [Fin 0] [Fin (2 ^ 1023), Fin (2 ^ 1023)] Z_DIRN
     (Some 1) None [] = Some []"
  by (rule wireframe_overflow[OF overflowV_top overflowV_twice_top])

text \<open>C6 (amended). For every Mesh the direction selects the axes (height, first,
  second): X gives \<open>(0,1,2)\<close>, Y gives \<open>(1,2,0)\<close>, Z gives \<open>(2,0,1)\<close>; the grid point
  \<open>(i1, i2)\<close> has \<open>pos1[i1]\<close> on the first axis, \<open>pos2[i2]\<close> on the second and
  \<open>heights[i1 * |pos2| + i2]\<close> on the height axis, in the wireframe and in the surface.
  The wireframe is skipped when no line style is set; otherwise the grid lines are
  walked first along \<open>pos1\<close> for each index of \<open>pos2\<close>, then along \<open>pos2\<close> for each
  index of \<open>pos1\<close>, and each line gives its segments as a PolyLine through the same
  points does: one for each consecutive pair whose sum after the transform is finite.\<close>

theorem C6_mesh_axes_wireframe:
  "getVecIdxs X_DIRN = (0, 1, 2) \<and> getVecIdxs Y_DIRN = (1, 2, 0) \<and>
   getVecIdxs Z_DIRN = (2, 0, 1) \<and>
   (getVecIdxs dirn = (vh, v1, v2) \<longrightarrow>
      get4 (spec_grid_point pos1 pos2 heights dirn i1 i2) vh = heights ! (i1 * length pos2 + i2) \<and>
      get4 (spec_grid_point pos1 pos2 heights dirn i1 i2) v1 = pos1 ! i1 \<and>
      get4 (spec_grid_point pos1 pos2 heights dirn i1 i2) v2 = pos2 ! i2 \<and>
      get4 (spec_grid_point pos1 pos2 heights dirn i1 i2) 3 = Fin 1) \<and>
   (lp = None \<longrightarrow> getLineFragments M pos1 pos2 heights dirn lp sp v = Some v) \<and>
   (lp \<noteq> None \<longrightarrow> lines_readable pos1 pos2 heights \<longrightarrow>
      getLineFragments M pos1 pos2 heights dirn lp sp v =
        Some (v @ renumber 0 (map (LineSegment (Mesh pos1 pos2 heights dirn lp sp) lp)
          (concat (map (\<lambda>line. spec_segments (map (transform M) line))
             (map (\<lambda>i2. map (\<lambda>i1. spec_grid_point pos1 pos2 heights dirn i1 i2)
                            [0..<length pos1]) [0..<length pos2] @
              map (\<lambda>i1. map (\<lambda>i2. spec_grid_point pos1 pos2 heights dirn i1 i2)
                            [0..<length pos2]) [0..<length pos1])))))) \<and>
   (sp \<noteq> None \<longrightarrow> surface_readable pos1 pos2 heights \<longrightarrow>
      getSurfaceFragments M pos1 pos2 heights dirn lp sp v =
        Some (v @ renumber 0 (map (TriangleFragment (Mesh pos1 pos2 heights dirn lp sp) sp)
          (concat (map (\<lambda>j1. concat (map (\<lambda>j2.
              if isfinite4
                   (add4 (add4 (add4 (spec_grid_point pos1 pos2 heights dirn j1 j2)
                                     (spec_grid_point pos1 pos2 heights dirn (j1 + 1) j2))
                               (spec_grid_point pos1 pos2 heights dirn j1 (j2 + 1)))
                         (spec_grid_point pos1 pos2 heights dirn (j1 + 1) (j2 + 1)))
              then [(transform M (spec_grid_point pos1 pos2 heights dirn j1 j2),
                     transform M (spec_grid_point pos1 pos2 heights dirn (j1 + 1) j2),
                     transform M (spec_grid_point pos1 pos2 heights dirn j1 (j2 + 1))),
                    (transform M (spec_grid_point pos1 pos2 heights dirn (j1 + 1) (j2 + 1)),
                     transform M (spec_grid_point pos1 pos2 heights dirn (j1 + 1) j2),
                     transform M (spec_grid_point pos1 pos2 heights dirn j1 (j2 + 1)))]
              else [])
            [0..<length pos2 - 1])) [0..<length pos1 - 1]))))) \<and>
   spec_segments ps =
     [(ps ! (i - 1), ps ! i). i \<leftarrow> [1..<length ps], isfinite3 (add3 (ps ! i) (ps ! (i - 1)))] \<and>
   getFragments M (PolyLine pts lp) [] =
     Some (renumber 0 (map (LineSegment (PolyLine pts lp) lp)
       (spec_segments (map (transform M) pts))))"
proof (intro conjI impI)
  assume vi: "getVecIdxs dirn = (vh, v1, v2)"
  let ?g = "spec_grid_point pos1 pos2 heights dirn i1 i2"
  show "get4 ?g vh = heights ! (i1 * length pos2 + i2)" "get4 ?g v1 = pos1 ! i1"
    "get4 ?g v2 = pos2 ! i2" "get4 ?g 3 = Fin 1"
    using vi by (cases dirn; auto simp: spec_grid_point_def)+
next
  assume "lp = None"
  then show "getLineFragments M pos1 pos2 heights dirn lp sp v = Some v"
    by (simp add: getLineFragments_def)
next
  assume "lp \<noteq> None" and "lines_readable pos1 pos2 heights"
  then show "getLineFragments M pos1 pos2 heights dirn lp sp v =
        Some (v @ renumber 0 (map (LineSegment (Mesh pos1 pos2 heights dirn lp sp) lp)
          (concat (map (\<lambda>line. spec_segments (map (transform M) line))
             (map (\<lambda>i2. map (\<lambda>i1. spec_grid_point pos1 pos2 heights dirn i1 i2)
                            [0..<length pos1]) [0..<length pos2] @
              map (\<lambda>i1. map (\<lambda>i2. spec_grid_point pos1 pos2 heights dirn i1 i2)
                            [0..<length pos2]) [0..<length pos1])))))"
    unfolding getLineFragments_eq spec_wireframe_def spec_grid_lines_def by auto
next
  have c: "spec_cell M pos1 pos2 heights dirn = (\<lambda>j1 j2.
              if isfinite4
                   (add4 (add4 (add4 (spec_grid_point pos1 pos2 heights dirn j1 j2)
                                     (spec_grid_point pos1 pos2 heights dirn (j1 + 1) j2))
                               (spec_grid_point pos1 pos2 heights dirn j1 (j2 + 1)))
                         (spec_grid_point pos1 pos2 heights dirn (j1 + 1) (j2 + 1)))
              then [(transform M (spec_grid_point pos1 pos2 heights dirn j1 j2),
                     transform M (spec_grid_point pos1 pos2 heights dirn (j1 + 1) j2),
                     transform M (spec_grid_point pos1 pos2 heights dirn j1 (j2 + 1))),
                    (transform M (spec_grid_point pos1 pos2 heights dirn (j1 + 1) (j2 + 1)),
                     transform M (spec_grid_point pos1 pos2 heights dirn (j1 + 1) j2),
                     transform M (spec_grid_point pos1 pos2 heights dirn j1 (j2 + 1)))]
              else [])"
    by (intro ext) (simp add: spec_cell_def Let_def)
  assume "sp \<noteq> None" and "surface_readable pos1 pos2 heights"
  then show "getSurfaceFragments M pos1 pos2 heights dirn lp sp v =
        Some (v @ renumber 0 (map (TriangleFragment (Mesh pos1 pos2 heights dirn lp sp) sp)
          (concat (map (\<lambda>j1. concat (map (\<lambda>j2.
              if isfinite4
                   (add4 (add4 (add4 (spec_grid_point pos1 pos2 heights dirn j1 j2)
                                     (spec_grid_point pos1 pos2 heights dirn (j1 + 1) j2))
                               (spec_grid_point pos1 pos2 heights dirn j1 (j2 + 1)))
                         (spec_grid_point pos1 pos2 heights dirn (j1 + 1) (j2 + 1)))
              then [(transform M (spec_grid_point pos1 pos2 heights dirn j1 j2),
                     transform M (spec_grid_point pos1 pos2 heights dirn (j1 + 1) j2),
                     transform M (spec_grid_point pos1 pos2 heights dirn j1 (j2 + 1))),
                    (transform M (spec_grid_point pos1 pos2 heights dirn (j1 + 1) (j2 + 1)),
                     transform M (spec_grid_point pos1 pos2 heights dirn (j1 + 1) j2),
                     transform M (spec_grid_point pos1 pos2 heights dirn j1 (j2 + 1)))]
              else [])
            [0..<length pos2 - 1])) [0..<length pos1 - 1]))))"
    by (auto simp add: getSurfaceFragments_eq spec_surface_def c)
next
  show "spec_segments ps =
     [(ps ! (i - 1), ps ! i). i \<leftarrow> [1..<length ps], isfinite3 (add3 (ps ! i) (ps ! (i - 1)))]"
    by (simp add: spec_segments_def)
next
  show "getFragments M (PolyLine pts lp) [] =
     Some (renumber 0 (map (LineSegment (PolyLine pts lp) lp)
       (spec_segments (map (transform M) pts))))"
    by (simp add: PolyLine_getFragments_eq spec_polyline_def)
qed simp_all

text \<open>A mesh in direction Y over \<open>pos1 = [1,2]\<close>, \<open>pos2 = [3]\<close>, \<open>heights = [7,8]\<close>:
  the grid points are \<open>(3,7,1)\<close> and \<open>(3,8,2)\<close>; the line along \<open>pos1\<close> gives one
  segment, the two lines along \<open>pos2\<close> have one point each and give none. Without a line
  style nothing is emitted.\<close>

theorem C6_mesh_axes_wireframe_witness:
  "getVecIdxs Y_DIRN = (1, 2, 0) \<and>
   get4 (spec_grid_point [Fin 1, Fin 2] [Fin 3] [Fin 7, Fin 8] Y_DIRN 1 0) 1 = Fin 8 \<and>
   get4 (spec_grid_point [Fin 1, Fin 2] [Fin 3] [Fin 7, Fin 8] Y_DIRN 1 0) 2 = Fin 2 \<and>
   get4 (spec_grid_point [Fin 1, Fin 2] [Fin 3] [Fin 7, Fin 8] Y_DIRN 1 0) 0 = Fin 3 \<and>
   getLineFragments identityM4 [Fin 1, Fin 2] [Fin 3] [Fin 7, Fin 8] Y_DIRN None (Some 2) [] =
     Some [] \<and>
   Some 1 \<noteq> (None :: propref option) \<and>
   lines_readable [Fin 1, Fin 2] [Fin 3] [Fin 7, Fin 8] \<and>
   getLineFragments identityM4 [Fin 1, Fin 2] [Fin 3] [Fin 7, Fin 8] Y_DIRN (Some 1) None [] =
     Some [LineSegment (Mesh [Fin 1, Fin 2] [Fin 3] [Fin 7, Fin 8] Y_DIRN (Some 1) None) (Some 1)
             (Vec3 (Fin 3) (Fin 7) (Fin 1), Vec3 (Fin 3) (Fin 8) (Fin 2))] \<and>
   surface_readable [Fin 1, Fin 2] [Fin 3] [Fin 7, Fin 8] \<and>
   getSurfaceFragments identityM4 [Fin 1, Fin 2] [Fin 3] [Fin 7, Fin 8] Y_DIRN None (Some 2) [] =
     Some []"
proof -
  have r: "lines_readable [Fin 1, Fin 2] [Fin 3] [Fin 7, Fin 8]"
    "surface_readable [Fin 1, Fin 2] [Fin 3] [Fin 7, Fin 8]"
    by (simp_all add: lines_readable_def surface_readable_def)
  have v: "getVecIdxs Y_DIRN = (1, 2, 0)" by simp
  note a = C6_mesh_axes_wireframe[of Y_DIRN 1 2 0 "[Fin 1, Fin 2]" "[Fin 3]" "[Fin 7, Fin 8]" 1 0
      None identityM4 "Some 2" "[]"]
  note b = C6_mesh_axes_wireframe[of Y_DIRN 1 2 0 "[Fin 1, Fin 2]" "[Fin 3]" "[Fin 7, Fin 8]" 1 0
      "Some 1" identityM4 None "[]"]
  have 1: "get4 (spec_grid_point [Fin 1, Fin 2] [Fin 3] [Fin 7, Fin 8] Y_DIRN 1 0) 1 = Fin 8"
    "get4 (spec_grid_point [Fin 1, Fin 2] [Fin 3] [Fin 7, Fin 8] Y_DIRN 1 0) 2 = Fin 2"
    "get4 (spec_grid_point [Fin 1, Fin 2] [Fin 3] [Fin 7, Fin 8] Y_DIRN 1 0) 0 = Fin 3"
    using a v by simp_all
  have 2: "getLineFragments identityM4 [Fin 1, Fin 2] [Fin 3] [Fin 7, Fin 8] Y_DIRN None (Some 2) []
      = Some []"
    using a by simp
  have 3: "getSurfaceFragments identityM4 [Fin 1, Fin 2] [Fin 3] [Fin 7, Fin 8] Y_DIRN None (Some 2) []
      = Some []"
    using a r by simp
  have 4: "getLineFragments identityM4 [Fin 1, Fin 2] [Fin 3] [Fin 7, Fin 8] Y_DIRN (Some 1) None [] =
     Some [LineSegment (Mesh [Fin 1, Fin 2] [Fin 3] [Fin 7, Fin 8] Y_DIRN (Some 1) None) (Some 1)
             (Vec3 (Fin 3) (Fin 7) (Fin 1), Vec3 (Fin 3) (Fin 8) (Fin 2))]"
    using b r by (simp add: spec_segments_def spec_grid_point_def transform_def identityM4_def
        LineSegment_def Fragment_def Let_def)
  show ?thesis using v 1 2 3 4 r by simp
qed

text \<open>C7. For every Points object, \<^verbatim>\<open>getFragments\<close> processes the indices below
  \<open>min(|x|, |y|, |z|)\<close>, and below \<open>|sizes|\<close> as well when \<^verbatim>\<open>sizes\<close> is not empty.
  For each index in order it transforms the point, takes \<open>sizes[i]\<close> as the path size
  when \<^verbatim>\<open>sizes\<close> is not empty and 1 otherwise, and emits one Path fragment exactly when the
  transformed point is finite.\<close>

theorem C7_points_sprites:
  "getFragments M (Points x y z sizes pth sc lineedge surfacefill) v =
     Some (v @ renumber 0
       (map (PointSprite (Points x y z sizes pth sc lineedge surfacefill)
               \<lparr>path = pth, scaleedges = sc\<rparr> surfacefill lineedge)
          [(transform M (Vec4 (x ! i) (y ! i) (z ! i) (Fin 1)),
            if sizes = [] then Fin 1 else sizes ! i).
           i \<leftarrow> [0..<(if sizes = [] then min (length x) (min (length y) (length z))
                       else min (min (length x) (min (length y) (length z))) (length sizes))],
           isfinite3 (transform M (Vec4 (x ! i) (y ! i) (z ! i) (Fin 1)))]))"
  by (simp add: Points_getFragments_eq spec_points_def Let_def)

text \<open>The example of the specification: \<open>x = [0,1,2]\<close>, \<open>y = z = [0,0,0]\<close> and
  \<open>sizes = [5]\<close> give one fragment, with path size 5.\<close>

theorem C7_points_sprites_witness:
  "getFragments identityM4
     (Points [Fin 0, Fin 1, Fin 2] [Fin 0, Fin 0, Fin 0] [Fin 0, Fin 0, Fin 0] [Fin 5] 9 True
        (Some 3) (Some 4)) [] =
   Some [PointSprite
     (Points [Fin 0, Fin 1, Fin 2] [Fin 0, Fin 0, Fin 0] [Fin 0, Fin 0, Fin 0] [Fin 5] 9 True
        (Some 3) (Some 4))
     \<lparr>path = 9, scaleedges = True\<rparr> (Some 4) (Some 3) (Vec3 (Fin 0) (Fin 0) (Fin 0), Fin 5)]"
  using C7_points_sprites[of identityM4 "[Fin 0, Fin 1, Fin 2]" "[Fin 0, Fin 0, Fin 0]"
      "[Fin 0, Fin 0, Fin 0]" "[Fin 5]" 9 True "Some 3" "Some 4" "[]"]
  by (simp add: transform_def identityM4_def PointSprite_def Fragment_def Let_def)

text \<open>C8. For every Triangle and every transform \<open>M\<close>, \<^verbatim>\<open>getFragments\<close> appends
  exactly one fragment of kind Triangle, unconditionally (there is no finiteness test on
  this path), whose three points are the stored points transformed by \<open>M\<close>, with the
  surface style of the triangle and no line style. Under the identity transform the
  triangle \<open>(0,0,0), (1,0,0), (0,1,0)\<close> gives one fragment whose points are the inputs
  unchanged.\<close>

theorem C8_triangle_one_fragment:
  "getFragments M (Triangle p0 p1 p2 sp) v =
     Some (v @ [Fragment\<lparr>ftype := FR_TRIANGLE, surfaceprop := sp, lineprop := None,
                  points0 := vec4to3 (mulMV M p0), points1 := vec4to3 (mulMV M p1),
                  points2 := vec4to3 (mulMV M p2), object := Some (Triangle p0 p1 p2 sp)\<rparr>]) \<and>
   map_option (map (\<lambda>f. (ftype f, points0 f, points1 f, points2 f)))
     (getFragments identityM4
        (Triangle (Vec4 (Fin 0) (Fin 0) (Fin 0) (Fin 1)) (Vec4 (Fin 1) (Fin 0) (Fin 0) (Fin 1))
           (Vec4 (Fin 0) (Fin 1) (Fin 0) (Fin 1)) sp) []) =
     Some [(FR_TRIANGLE, Vec3 (Fin 0) (Fin 0) (Fin 0), Vec3 (Fin 1) (Fin 0) (Fin 0),
            Vec3 (Fin 0) (Fin 1) (Fin 0))]"
proof
  show "getFragments M (Triangle p0 p1 p2 sp) v =
     Some (v @ [Fragment\<lparr>ftype := FR_TRIANGLE, surfaceprop := sp, lineprop := None,
                  points0 := vec4to3 (mulMV M p0), points1 := vec4to3 (mulMV M p1),
                  points2 := vec4to3 (mulMV M p2), object := Some (Triangle p0 p1 p2 sp)\<rparr>])"
    by (simp add: Triangle_getFragments_def)
next
  show "map_option (map (\<lambda>f. (ftype f, points0 f, points1 f, points2 f)))
     (getFragments identityM4
        (Triangle (Vec4 (Fin 0) (Fin 0) (Fin 0) (Fin 1)) (Vec4 (Fin 1) (Fin 0) (Fin 0) (Fin 1))
           (Vec4 (Fin 0) (Fin 1) (Fin 0) (Fin 1)) sp) []) =
     Some [(FR_TRIANGLE, Vec3 (Fin 0) (Fin 0) (Fin 0), Vec3 (Fin 1) (Fin 0) (Fin 0),
            Vec3 (Fin 0) (Fin 1) (Fin 0))]"
    by (simp add: Triangle_getFragments_def identityM4_def)
qed

text \<open>A triangle moved by 5 along the first axis, appended to an output that already
  holds a fragment.\<close>

theorem C8_triangle_one_fragment_witness:
  "map_option (map (\<lambda>f. (ftype f, points0 f, points1 f, points2 f, surfaceprop f, lineprop f)))
    (getFragments
     (Mat4 (Vec4 (Fin 1) (Fin 0) (Fin 0) (Fin 5)) (Vec4 (Fin 0) (Fin 1) (Fin 0) (Fin 0))
           (Vec4 (Fin 0) (Fin 0) (Fin 1) (Fin 0)) (Vec4 (Fin 0) (Fin 0) (Fin 0) (Fin 1)))
     (Triangle (Vec4 (Fin 0) (Fin 0) (Fin 0) (Fin 1)) (Vec4 (Fin 1) (Fin 0) (Fin 0) (Fin 1))
        (Vec4 (Fin 0) (Fin 1) (Fin 0) (Fin 1)) (Some 8))
     [Fragment\<lparr>ftype := FR_PATH\<rparr>]) =
   Some [(FR_PATH, Vec3 (Fin 0) (Fin 0) (Fin 0), Vec3 (Fin 0) (Fin 0) (Fin 0),
          Vec3 (Fin 0) (Fin 0) (Fin 0), None, None),
         (FR_TRIANGLE, Vec3 (Fin 5) (Fin 0) (Fin 0), Vec3 (Fin 6) (Fin 0) (Fin 0),
          Vec3 (Fin 5) (Fin 1) (Fin 0), Some 8, None)]"
  using C8_triangle_one_fragment[of
      "Mat4 (Vec4 (Fin 1) (Fin 0) (Fin 0) (Fin 5)) (Vec4 (Fin 0) (Fin 1) (Fin 0) (Fin 0))
           (Vec4 (Fin 0) (Fin 0) (Fin 1) (Fin 0)) (Vec4 (Fin 0) (Fin 0) (Fin 0) (Fin 1))"
      "Vec4 (Fin 0) (Fin 0) (Fin 0) (Fin 1)" "Vec4 (Fin 1) (Fin 0) (Fin 0) (Fin 1)"
      "Vec4 (Fin 0) (Fin 1) (Fin 0) (Fin 1)" "Some 8" "[Fragment\<lparr>ftype := FR_PATH\<rparr>]"]
  by (simp add: Let_def Fragment_def)

text \<open>C9. For every object, transform and initial output sequence, \<^verbatim>\<open>getFragments\<close>
  only appends: when it returns, the new output starts with the old one, element for
  element; and it returns whenever every mesh of the tree is read inside its
  \<^verbatim>\<open>heights\<close>. The base \<^verbatim>\<open>Object\<close> appends nothing.\<close>

theorem C9_append_only:
  "getFragments M Object v = Some v \<and>
   (\<forall>out. getFragments M obj v = Some out \<longrightarrow>
      length v \<le> length out \<and> take (length v) out = v \<and> (\<forall>i < length v. out ! i = v ! i)) \<and>
   (readable obj \<longrightarrow> (\<exists>new. getFragments M obj v = Some (v @ new)))"
proof (intro conjI allI impI)
  show "getFragments M Object v = Some v" by simp
next
  fix out
  assume "getFragments M obj v = Some out"
  then have o: "out = v @ spec_fragments M obj"
    by (simp add: getFragments_eq(1) split: if_splits)
  show "length v \<le> length out" "take (length v) out = v" unfolding o by simp_all
  fix i assume "i < length v"
  then show "out ! i = v ! i" unfolding o by (simp add: nth_append)
next
  assume "readable obj"
  then show "\<exists>new. getFragments M obj v = Some (v @ new)"
    by (simp add: getFragments_eq(1))
qed

text \<open>A container holding the base object and a triangle, run on an output that already
  holds one fragment: the old fragment stays in front.\<close>

theorem C9_append_only_witness:
  "readable (ObjectContainer identityM4
      [Object, Triangle (Vec4 (Fin 0) (Fin 0) (Fin 0) (Fin 1)) (Vec4 (Fin 1) (Fin 0) (Fin 0) (Fin 1))
           (Vec4 (Fin 0) (Fin 1) (Fin 0) (Fin 1)) (Some 8)]) \<and>
   (\<exists>new. getFragments identityM4
      (ObjectContainer identityM4
        [Object, Triangle (Vec4 (Fin 0) (Fin 0) (Fin 0) (Fin 1)) (Vec4 (Fin 1) (Fin 0) (Fin 0) (Fin 1))
           (Vec4 (Fin 0) (Fin 1) (Fin 0) (Fin 1)) (Some 8)]) [Fragment] = Some ([Fragment] @ new) \<and>
      length new = 1)"
proof -
  let ?t = "ObjectContainer identityM4
      [Object, Triangle (Vec4 (Fin 0) (Fin 0) (Fin 0) (Fin 1)) (Vec4 (Fin 1) (Fin 0) (Fin 0) (Fin 1))
           (Vec4 (Fin 0) (Fin 1) (Fin 0) (Fin 1)) (Some 8)]"
  have r: "readable ?t" by simp
  from C9_append_only[of identityM4 "[Fragment]" ?t] r
  obtain new where e: "getFragments identityM4 ?t [Fragment] = Some ([Fragment] @ new)"
    by blast
  have "length (the (getFragments identityM4 ?t [Fragment])) = 2"
    by (simp add: Triangle_getFragments_def Let_def)
  then have "length new = 1" unfolding e by simp
  then show ?thesis using r e by blast
qed

text \<open>C10. In the wireframe of a Mesh every emitted LineSegment joins two points that are
  next to each other on one grid line of one pass: no segment joins the last point of a
  line to the first point of the next line, although the working fragment carries the
  last point across. So a line of \<open>k\<close> points gives at most \<open>k - 1\<close> segments, and the
  whole wireframe at most \<open>|pos2| * (|pos1| - 1) + |pos1| * (|pos2| - 1)\<close>.\<close>

theorem C10_wireframe_within_lines:
  "lp \<noteq> None \<longrightarrow> lines_readable pos1 pos2 heights \<longrightarrow>
     (\<exists>new. getLineFragments M pos1 pos2 heights dirn lp sp v = Some (v @ new) \<and>
        length new \<le> length pos2 * (length pos1 - 1) + length pos1 * (length pos2 - 1) \<and>
        (\<forall>f \<in> set new. \<exists>line \<in> set (spec_grid_lines pos1 pos2 heights dirn).
            \<exists>i. 0 < i \<and> i < length line \<and>
                points1 f = transform M (line ! (i - 1)) \<and>
                points0 f = transform M (line ! i))) \<and>
   length (spec_segments ps) \<le> length ps - 1"
proof (intro conjI impI)
  assume lp: "lp \<noteq> None" and r: "lines_readable pos1 pos2 heights"
  let ?segs = "concat (map (\<lambda>line. spec_segments (map (transform M) line))
      (spec_grid_lines pos1 pos2 heights dirn))"
  let ?new = "renumber 0 (map (LineSegment (Mesh pos1 pos2 heights dirn lp sp) lp) ?segs)"
  have e: "getLineFragments M pos1 pos2 heights dirn lp sp v = Some (v @ ?new)"
    unfolding getLineFragments_eq spec_wireframe_def if_not_P[OF lp] using r by simp
  have l: "length ?new \<le> length pos2 * (length pos1 - 1) + length pos1 * (length pos2 - 1)"
    using length_wire_segments[of "transform M" pos1 pos2 heights dirn]
    by (simp add: length_renumber)
  have m: "\<exists>line \<in> set (spec_grid_lines pos1 pos2 heights dirn).
            \<exists>i. 0 < i \<and> i < length line \<and>
                points1 f = transform M (line ! (i - 1)) \<and>
                points0 f = transform M (line ! i)" if "f \<in> set ?new" for f
  proof -
    from renumber_mem[OF that] obtain s j where
      s: "s \<in> set ?segs"
      and f: "f = (LineSegment (Mesh pos1 pos2 heights dirn lp sp) lp s)\<lparr>index := j\<rparr>"
      by blast
    from s obtain line where line: "line \<in> set (spec_grid_lines pos1 pos2 heights dirn)"
      and sl: "s \<in> set (spec_segments (map (transform M) line))"
      by auto
    from spec_segments_nth[OF sl] obtain i where
      i: "0 < i" "i < length line"
      "s = (map (transform M) line ! (i - 1), map (transform M) line ! i)"
      by auto
    have "points1 f = transform M (line ! (i - 1))" "points0 f = transform M (line ! i)"
      unfolding f using i by (simp_all add: LineSegment_def Fragment_def)
    then show ?thesis using line i(1,2) by blast
  qed
  show "\<exists>new. getLineFragments M pos1 pos2 heights dirn lp sp v = Some (v @ new) \<and>
        length new \<le> length pos2 * (length pos1 - 1) + length pos1 * (length pos2 - 1) \<and>
        (\<forall>f \<in> set new. \<exists>line \<in> set (spec_grid_lines pos1 pos2 heights dirn).
            \<exists>i. 0 < i \<and> i < length line \<and>
                points1 f = transform M (line ! (i - 1)) \<and>
                points0 f = transform M (line ! i))"
    using e l m by blast
next
  show "length (spec_segments ps) \<le> length ps - 1" by (rule length_spec_segments)
qed

text \<open>A grid of 3 by 2 finite points: 2 lines of 3 points and 3 lines of 2 points give
  \<open>2 * 2 + 3 * 1 = 7\<close> segments, none across two lines.\<close>

theorem C10_wireframe_within_lines_witness:
  "Some 1 \<noteq> (None :: propref option) \<and>
   lines_readable [Fin 0, Fin 1, Fin 2] [Fin 0, Fin 1] [Fin 0, Fin 0, Fin 0, Fin 0, Fin 0, Fin 0] \<and>
   (\<exists>new. getLineFragments identityM4 [Fin 0, Fin 1, Fin 2] [Fin 0, Fin 1]
             [Fin 0, Fin 0, Fin 0, Fin 0, Fin 0, Fin 0] Z_DIRN (Some 1) None [] = Some new \<and>
           length new \<le> 7 \<and>
           map (\<lambda>f. (points1 f, points0 f)) new =
             [(Vec3 (Fin 0) (Fin 0) (Fin 0), Vec3 (Fin 1) (Fin 0) (Fin 0)),
              (Vec3 (Fin 1) (Fin 0) (Fin 0), Vec3 (Fin 2) (Fin 0) (Fin 0)),
              (Vec3 (Fin 0) (Fin 1) (Fin 0), Vec3 (Fin 1) (Fin 1) (Fin 0)),
              (Vec3 (Fin 1) (Fin 1) (Fin 0), Vec3 (Fin 2) (Fin 1) (Fin 0)),
              (Vec3 (Fin 0) (Fin 0) (Fin 0), Vec3 (Fin 0) (Fin 1) (Fin 0)),
              (Vec3 (Fin 1) (Fin 0) (Fin 0), Vec3 (Fin 1) (Fin 1) (Fin 0)),
              (Vec3 (Fin 2) (Fin 0) (Fin 0), Vec3 (Fin 2) (Fin 1) (Fin 0))])"
proof -
  let ?p1 = "[Fin 0, Fin 1, Fin (2::real)]"
  let ?p2 = "[Fin 0, Fin (1::real)]"
  let ?h = "[Fin 0, Fin 0, Fin 0, Fin 0, Fin 0, Fin (0::real)]"
  have s: "Some 1 \<noteq> (None :: propref option)" by simp
  have r: "lines_readable ?p1 ?p2 ?h" by (simp add: lines_readable_def)
  from C10_wireframe_within_lines[of "Some 1" ?p1 ?p2 ?h identityM4 Z_DIRN None "[]"] s r
  obtain new where e: "getLineFragments identityM4 ?p1 ?p2 ?h Z_DIRN (Some 1) None [] = Some ([] @ new)"
    and l: "length new \<le> length ?p2 * (length ?p1 - 1) + length ?p1 * (length ?p2 - 1)"
    by blast
  have e': "getLineFragments identityM4 ?p1 ?p2 ?h Z_DIRN (Some 1) None [] = Some new"
    using e by simp
  have l': "length new \<le> 7" using l by simp
  have "map_option (map (\<lambda>f. (points1 f, points0 f)))
      (getLineFragments identityM4 ?p1 ?p2 ?h Z_DIRN (Some 1) None []) =
     Some [(Vec3 (Fin 0) (Fin 0) (Fin 0), Vec3 (Fin 1) (Fin 0) (Fin 0)),
              (Vec3 (Fin 1) (Fin 0) (Fin 0), Vec3 (Fin 2) (Fin 0) (Fin 0)),
              (Vec3 (Fin 0) (Fin 1) (Fin 0), Vec3 (Fin 1) (Fin 1) (Fin 0)),
              (Vec3 (Fin 1) (Fin 1) (Fin 0), Vec3 (Fin 2) (Fin 1) (Fin 0)),
              (Vec3 (Fin 0) (Fin 0) (Fin 0), Vec3 (Fin 0) (Fin 1) (Fin 0)),
              (Vec3 (Fin 1) (Fin 0) (Fin 0), Vec3 (Fin 1) (Fin 1) (Fin 0)),
              (Vec3 (Fin 2) (Fin 0) (Fin 0), Vec3 (Fin 2) (Fin 1) (Fin 0))]"
    by (simp add: getLineFragments_eq r spec_wireframe_def spec_grid_lines_def
        spec_segments_def spec_grid_point_def transform_def identityM4_def
        LineSegment_def Fragment_def Let_def)
  then have x: "map (\<lambda>f. (points1 f, points0 f)) new =
     [(Vec3 (Fin 0) (Fin 0) (Fin 0), Vec3 (Fin 1) (Fin 0) (Fin 0)),
              (Vec3 (Fin 1) (Fin 0) (Fin 0), Vec3 (Fin 2) (Fin 0) (Fin 0)),
              (Vec3 (Fin 0) (Fin 1) (Fin 0), Vec3 (Fin 1) (Fin 1) (Fin 0)),
              (Vec3 (Fin 1) (Fin 1) (Fin 0), Vec3 (Fin 2) (Fin 1) (Fin 0)),
              (Vec3 (Fin 0) (Fin 0) (Fin 0), Vec3 (Fin 0) (Fin 1) (Fin 0)),
              (Vec3 (Fin 1) (Fin 0) (Fin 0), Vec3 (Fin 1) (Fin 1) (Fin 0)),
              (Vec3 (Fin 2) (Fin 0) (Fin 0), Vec3 (Fin 2) (Fin 1) (Fin 0))]"
    unfolding e' by simp
  show ?thesis
    by (intro conjI exI[of _ new]) (rule s r e' l' x)+
qed

end
